theory Spec2Isabelle
  imports Main "HOL-Library.Word"
begin

unbundle bit_operations_syntax

section \<open>Build and host configuration\<close>

text \<open>
  The memory module of the foundation library (\<^verbatim>\<open>foundation/memory.c\<close>) is compiled
  against a platform, a pointer size and a set of build switches, and reads three numbers
  from the host's configuration record. None of them is declared in \<^verbatim>\<open>memory.c\<close>, so the
  embedding takes them as one parameter record.

  The embedding is sequential: one thread runs each operation to its end, so an atomic
  load, store, exchange-and-add or compare-and-swap is the plain operation on the state.
  Addresses are natural numbers, the null pointer is \<open>0\<close>, and \<^verbatim>\<open>pointer_offset\<close> is
  addition (C leaves pointer arithmetic that leaves its block undefined, so no wrap-around
  is modelled for addresses). Values of type \<^verbatim>\<open>size_t\<close> are natural numbers whose
  arithmetic wraps at \<open>2 ^ (8 * size_pointer)\<close>; the 64-bit statistics counters and the
  32-bit tag cursor are integers whose arithmetic wraps as two's complement.
\<close>

datatype platform = Android | Windows | Other

record config =
  platform :: platform
  size_pointer :: nat
  memory_guard :: bool
  memory_statistics :: bool
  temporary_memory :: nat
  memory_context_depth :: nat
  memory_tracker_max :: nat

text \<open>\<^verbatim>\<open>FOUNDATION_SIZE_POINTER\<close> is 4 or 8 on every platform the library builds for.\<close>

definition pointer_size_ok :: "config \<Rightarrow> bool" where
  "pointer_size_ok cfg = (size_pointer cfg = 4 \<or> size_pointer cfg = 8)"

definition FOUNDATION_MAX_ALIGN :: "config \<Rightarrow> nat" where
  "FOUNDATION_MAX_ALIGN cfg = (if platform cfg = Android then 8 else 16)"

definition size_wrap :: "config \<Rightarrow> nat \<Rightarrow> nat" where
  "size_wrap cfg n = n mod 2 ^ (8 * size_pointer cfg)"

text \<open>\<^verbatim>\<open>unsigned int\<close> is 32 bits wide: a value stored in one is taken modulo \<open>2 ^ 32\<close>.\<close>

definition uint_wrap :: "nat \<Rightarrow> nat" where
  "uint_wrap n = n mod 2 ^ 32"

definition wrap_s32 :: "int \<Rightarrow> int" where
  "wrap_s32 x = (x + 2 ^ 31) mod 2 ^ 32 - 2 ^ 31"

definition wrap_s64 :: "int \<Rightarrow> int" where
  "wrap_s64 x = (x + 2 ^ 63) mod 2 ^ 64 - 2 ^ 63"

section \<open>Alignment policy\<close>

text \<open>
  Modelled from the spec: \<^verbatim>\<open>math_align_poweroftwo\<close> is declared in the library's math
  header, which is not among the sources. The specification calls it
  "round-up-to-pow2": the least power of two that is not below its argument.
\<close>

function pow2_from :: "nat \<Rightarrow> nat \<Rightarrow> nat" where
  "pow2_from p x = (if p = 0 \<or> x \<le> p then p else pow2_from (2 * p) x)"
  by pat_completeness auto
termination
  by (relation "measure (\<lambda>(p, x). x - p)") auto

declare pow2_from.simps [simp del]

definition math_align_poweroftwo :: "nat \<Rightarrow> nat" where
  "math_align_poweroftwo x = pow2_from 1 x"

text \<open>
  \<^verbatim>\<open>_memory_get_align\<close>, one branch for each arm of the preprocessor conditional.
  The round-up is stored back into the parameter \<^verbatim>\<open>align\<close>, an \<^verbatim>\<open>unsigned int\<close>, so
  the comparison with \<^verbatim>\<open>FOUNDATION_MAX_ALIGN\<close> sees it modulo \<open>2 ^ 32\<close>.
  (Isabelle names cannot start with an underscore, so the leading underscore of the
  source's static functions is dropped.)
\<close>

definition memory_get_align :: "config \<Rightarrow> nat \<Rightarrow> nat" where
  "memory_get_align cfg align =
     (case platform cfg of
        Android \<Rightarrow> (if align > 0 then FOUNDATION_MAX_ALIGN cfg else 0)
      | Windows \<Rightarrow>
          (if align < size_pointer cfg then size_pointer cfg
           else let a = uint_wrap (math_align_poweroftwo align)
                in if a < FOUNDATION_MAX_ALIGN cfg then a else FOUNDATION_MAX_ALIGN cfg)
      | Other \<Rightarrow>
          (if align < size_pointer cfg then (if align \<noteq> 0 then size_pointer cfg else 0)
           else let a = uint_wrap (math_align_poweroftwo align)
                in if a < FOUNDATION_MAX_ALIGN cfg then a else FOUNDATION_MAX_ALIGN cfg))"

definition memory_get_align_forced :: "config \<Rightarrow> nat \<Rightarrow> nat" where
  "memory_get_align_forced cfg align =
     (let a = memory_get_align cfg align
      in if a > size_pointer cfg then a else size_pointer cfg)"

text \<open>
  \<^verbatim>\<open>_memory_align_pointer\<close>. The mask arithmetic \<^verbatim>\<open>(address & ~mask) + align\<close> with
  \<^verbatim>\<open>mask = align - 1\<close> is written with \<open>mod\<close>: for a power of two \<open>align\<close>,
  \<^verbatim>\<open>address & mask\<close> is \<open>address mod align\<close> and \<^verbatim>\<open>address & ~mask\<close> is
  \<open>address - address mod align\<close>.
\<close>

definition memory_align_pointer :: "nat \<Rightarrow> nat \<Rightarrow> nat" where
  "memory_align_pointer p align =
     (if p = 0 \<or> align = 0 then p
      else if p mod align \<noteq> 0 then (p - p mod align) + align
      else p)"

section \<open>Memory-context stack\<close>

text \<open>
  The per-thread block \<^verbatim>\<open>memory_context_t\<close>: the counter \<^verbatim>\<open>depth\<close> (an
  \<^verbatim>\<open>unsigned int\<close>) and the array \<^verbatim>\<open>context\<close> of \<^verbatim>\<open>hash_t\<close> (the field
  \<open>contexts\<close> here), for which \<^verbatim>\<open>memory_context_push\<close> reserves \<^verbatim>\<open>memory_context_depth\<close> slots. The thread-local
  pointer is an option: \<open>None\<close> is the null pointer of a thread that never pushed. The
  lazily allocated block is represented by its contents; the allocation is taken to
  succeed and, being \<^verbatim>\<open>MEMORY_ZERO_INITIALIZED\<close>, to start out as zeros. A write to
  \<^verbatim>\<open>context[i]\<close> with \<open>i\<close> outside the reserved slots is the fault \<open>Out_of_bounds\<close>.
\<close>

type_synonym hash_t = "64 word"

record memory_context_t =
  depth :: nat
  contexts :: "hash_t list"

datatype fault = Out_of_bounds

definition memory_context_push ::
  "config \<Rightarrow> hash_t \<Rightarrow> memory_context_t option \<Rightarrow> fault + memory_context_t option" where
  "memory_context_push cfg context_id tc =
     (let c = (case tc of
                 None \<Rightarrow> \<lparr>depth = 0, contexts = replicate (memory_context_depth cfg) 0\<rparr>
               | Some c \<Rightarrow> c)
      in if depth c < length (contexts c) then
           let c' = c\<lparr>contexts := (contexts c)[depth c := context_id]\<rparr>
           in if depth c' < size_wrap cfg (memory_context_depth cfg + 2 ^ (8 * size_pointer cfg) - 1)
              then Inr (Some (c'\<lparr>depth := (depth c' + 1) mod 2 ^ 32\<rparr>))
              else Inr (Some c')
         else Inl Out_of_bounds)"

definition memory_context_pop :: "memory_context_t option \<Rightarrow> memory_context_t option" where
  "memory_context_pop tc =
     (case tc of
        None \<Rightarrow> None
      | Some c \<Rightarrow> if depth c > 0 then Some (c\<lparr>depth := depth c - 1\<rparr>) else Some c)"

text \<open>
  \<^verbatim>\<open>memory_context\<close> reads \<^verbatim>\<open>context[depth - 1]\<close>; the read is written with a
  default so that a read outside the array would show.
\<close>

definition memory_context :: "memory_context_t option \<Rightarrow> hash_t" where
  "memory_context tc =
     (case tc of
        None \<Rightarrow> 0
      | Some c \<Rightarrow>
          if depth c > 0 then
            (if depth c - 1 < length (contexts c) then contexts c ! (depth c - 1) else 0)
          else 0)"

datatype context_op = Push hash_t | Pop

fun context_run ::
  "config \<Rightarrow> context_op list \<Rightarrow> memory_context_t option \<Rightarrow> fault + memory_context_t option" where
  "context_run cfg [] tc = Inr tc"
| "context_run cfg (Push i # ops) tc =
     (case memory_context_push cfg i tc of
        Inl e \<Rightarrow> Inl e
      | Inr tc' \<Rightarrow> context_run cfg ops tc')"
| "context_run cfg (Pop # ops) tc = context_run cfg ops (memory_context_pop tc)"

text \<open>
  The specification's reading of the stack, to compare the code with: a push succeeds
  while fewer than \<open>memory_context_depth - 1\<close> identifiers are on the stack and is
  dropped otherwise; a pop removes the top identifier if there is one.
\<close>

fun pushed_ids :: "nat \<Rightarrow> context_op list \<Rightarrow> hash_t list \<Rightarrow> hash_t list" where
  "pushed_ids cap [] st = st"
| "pushed_ids cap (Push i # ops) st =
     pushed_ids cap ops (if length st < cap - 1 then st @ [i] else st)"
| "pushed_ids cap (Pop # ops) st = pushed_ids cap ops (butlast st)"

definition context_depth :: "memory_context_t option \<Rightarrow> nat" where
  "context_depth tc = (case tc of None \<Rightarrow> 0 | Some c \<Rightarrow> depth c)"

definition context_stack :: "memory_context_t option \<Rightarrow> hash_t list" where
  "context_stack tc = (case tc of None \<Rightarrow> [] | Some c \<Rightarrow> take (depth c) (contexts c))"

definition context_valid :: "config \<Rightarrow> memory_context_t option \<Rightarrow> bool" where
  "context_valid cfg tc =
     (case tc of
        None \<Rightarrow> True
      | Some c \<Rightarrow> length (contexts c) = memory_context_depth cfg
                  \<and> depth c < memory_context_depth cfg)"

definition context_depth_ok :: "config \<Rightarrow> bool" where
  "context_depth_ok cfg =
     (0 < memory_context_depth cfg \<and> memory_context_depth cfg \<le> 2 ^ 32
      \<and> memory_context_depth cfg < 2 ^ (8 * size_pointer cfg))"

definition windows64 :: config where
  "windows64 = \<lparr>platform = Windows, size_pointer = 8, memory_guard = False,
     memory_statistics = True, temporary_memory = 1024, memory_context_depth = 4,
     memory_tracker_max = 2\<rparr>"

definition linux64 :: config where
  "linux64 = \<lparr>platform = Other, size_pointer = 8, memory_guard = False,
     memory_statistics = True, temporary_memory = 1024, memory_context_depth = 4,
     memory_tracker_max = 2\<rparr>"

section \<open>Byte-addressed memory\<close>

text \<open>
  Memory is a map from addresses to bytes. A machine word is stored in the byte order
  of the little-endian processors the library is built for; the claims below do not
  depend on the order.
\<close>

type_synonym heap = "nat \<Rightarrow> 8 word"

fun store_le :: "nat \<Rightarrow> nat \<Rightarrow> nat \<Rightarrow> heap \<Rightarrow> heap" where
  "store_le a 0 v h = h"
| "store_le a (Suc n) v h = store_le (a + 1) n (v div 256) (h(a := of_nat (v mod 256)))"

fun load_le :: "nat \<Rightarrow> nat \<Rightarrow> heap \<Rightarrow> nat" where
  "load_le a 0 h = 0"
| "load_le a (Suc n) h = unat (h a) + 256 * load_le (a + 1) n h"

text \<open>\<^verbatim>\<open>memset(p, c, n)\<close>.\<close>

definition memset :: "nat \<Rightarrow> 8 word \<Rightarrow> nat \<Rightarrow> heap \<Rightarrow> heap" where
  "memset p c n h = (\<lambda>a. if p \<le> a \<and> a < p + n then c else h a)"

section \<open>Guard-band codec\<close>

definition MEMORY_GUARD_VALUE :: nat where
  "MEMORY_GUARD_VALUE = 0xDEADBEEF"

text \<open>
  The loop of \<^verbatim>\<open>_memory_guard_initialize\<close>: each round stores the canary through the
  header pointer and through the footer pointer and advances both by one 32-bit word.
  The third argument counts the rounds that remain.
\<close>

fun guard_fill :: "nat \<Rightarrow> nat \<Rightarrow> nat \<Rightarrow> heap \<Rightarrow> heap" where
  "guard_fill guard_header guard_footer 0 h = h"
| "guard_fill guard_header guard_footer (Suc n) h =
     guard_fill (guard_header + 4) (guard_footer + 4) n
       (store_le guard_footer 4 MEMORY_GUARD_VALUE
          (store_le guard_header 4 MEMORY_GUARD_VALUE h))"

definition memory_guard_initialize :: "config \<Rightarrow> nat \<Rightarrow> nat \<Rightarrow> heap \<Rightarrow> nat \<times> heap" where
  "memory_guard_initialize cfg memory sz h =
     (let guard_header = memory + FOUNDATION_MAX_ALIGN cfg;
          guard_footer = memory + size_wrap cfg (sz + FOUNDATION_MAX_ALIGN cfg * 2);
          h1 = store_le memory (size_pointer cfg) sz h
      in (memory + FOUNDATION_MAX_ALIGN cfg * 2,
          guard_fill guard_header guard_footer (FOUNDATION_MAX_ALIGN cfg div 4) h1))"

text \<open>
  The loop of \<^verbatim>\<open>_memory_guard_verify\<close>. An assertion that fires is recorded by its
  message, in the order of the checks; the function goes on and returns the block.
\<close>

fun guard_check :: "nat \<Rightarrow> nat \<Rightarrow> nat \<Rightarrow> heap \<Rightarrow> string list" where
  "guard_check guard_header guard_footer 0 h = []"
| "guard_check guard_header guard_footer (Suc n) h =
     (if load_le guard_header 4 h \<noteq> MEMORY_GUARD_VALUE then [''Memory underwrite''] else [])
     @ (if load_le guard_footer 4 h \<noteq> MEMORY_GUARD_VALUE then [''Memory overwrite''] else [])
     @ guard_check (guard_header + 4) (guard_footer + 4) n h"

definition memory_guard_verify :: "config \<Rightarrow> nat \<Rightarrow> heap \<Rightarrow> string list \<times> nat" where
  "memory_guard_verify cfg memory h =
     (let sz = load_le (memory - FOUNDATION_MAX_ALIGN cfg * 2) (size_pointer cfg) h;
          guard_header = memory - FOUNDATION_MAX_ALIGN cfg;
          guard_footer = memory + sz
      in (guard_check guard_header guard_footer (FOUNDATION_MAX_ALIGN cfg div 4) h,
          memory - FOUNDATION_MAX_ALIGN cfg * 2))"

text \<open>The bytes the codec owns around a payload of \<open>size\<close> bytes in the block at \<open>block\<close>.\<close>

definition guard_bytes :: "config \<Rightarrow> nat \<Rightarrow> nat \<Rightarrow> nat \<Rightarrow> bool" where
  "guard_bytes cfg block sz a =
     ((block \<le> a \<and> a < block + size_pointer cfg)
      \<or> (block + FOUNDATION_MAX_ALIGN cfg \<le> a \<and> a < block + 2 * FOUNDATION_MAX_ALIGN cfg)
      \<or> (block + sz + 2 * FOUNDATION_MAX_ALIGN cfg \<le> a
          \<and> a < block + sz + 3 * FOUNDATION_MAX_ALIGN cfg))"

section \<open>The state of the memory module\<close>

text \<open>
  The file-level variables of \<^verbatim>\<open>memory.c\<close> form one record. The function tables hold
  function pointers. A slot of the tracker table is \<open>None\<close> for a null pointer, names
  one of the module's own static functions, or names a function of the host by a number;
  a call of a host function is recorded as an event and changes nothing else of the
  state modelled here. The back end's table holds functions on the world outside the
  module: the bytes of memory and the record of events.

  The tag table \<^verbatim>\<open>_memory_tags\<close> is the pointer \<open>memory_tags\<close> (0 when null) together
  with the typed contents \<open>memory_tags_data\<close> of the array it points to; the stack trace
  that the external \<^verbatim>\<open>stacktrace_capture\<close> writes into a tag is not part of the model.
  An access \<^verbatim>\<open>_memory_tags[i]\<close> through a null table or outside the array, and a
  division by a zero capacity, end the run: the operations return \<open>None\<close> there.
\<close>

datatype event =
    Leak nat nat nat
  | User_track_call nat nat nat
  | User_untrack_call nat nat
  | User_initialize_call nat
  | User_void_call nat
  | Free nat
  | Aligned_free nat
  | Munmap nat nat
  | Virtual_free nat
  | Assert_failed string

record world =
  heap :: heap
  events :: "event list"

record memory_system_t =
  sys_allocate :: "hash_t \<Rightarrow> nat \<Rightarrow> nat \<Rightarrow> 32 word \<Rightarrow> world \<Rightarrow> nat \<times> world"
  sys_reallocate :: "nat \<Rightarrow> nat \<Rightarrow> nat \<Rightarrow> nat \<Rightarrow> world \<Rightarrow> nat \<times> world"
  sys_deallocate :: "nat \<Rightarrow> world \<Rightarrow> world"
  sys_initialize :: "world \<Rightarrow> int \<times> world"
  sys_finalize :: "world \<Rightarrow> world"
  sys_thread_finalize :: "(world \<Rightarrow> world) option"

datatype track_fn = Local_track | User_track nat
datatype untrack_fn = Local_untrack | User_untrack nat
datatype initialize_fn = Local_initialize | User_initialize nat
datatype void_fn = Local_cleanup | Local_finalize | User_void nat

record memory_tracker_t =
  track :: "track_fn option"
  untrack :: "untrack_fn option"
  initialize :: "initialize_fn option"
  abort :: "void_fn option"
  finalize :: "void_fn option"

record atomic_linear_memory_t =
  storage :: nat
  arena_end :: nat
  head :: nat
  arena_size :: nat
  maxchunk :: nat

record memory_statistics_t =
  allocations_total :: int
  allocations_current :: int
  allocated_total :: int
  allocated_current :: int

record memory_tag_t =
  address :: nat
  tag_size :: nat

record memory_state =
  memory_system :: memory_system_t
  memory_initialized :: bool
  memory_temporary :: atomic_linear_memory_t
  memory_stats :: memory_statistics_t
  memory_tracker :: memory_tracker_t
  memory_tracker_preinit :: memory_tracker_t
  memory_tags :: nat
  memory_tags_data :: "memory_tag_t list"
  memory_tag_next :: int
  memory_tracker_initialized :: bool
  thread_context :: "memory_context_t option"
  world :: world

definition memory_no_tracker :: memory_tracker_t where
  "memory_no_tracker =
     \<lparr>track = None, untrack = None, initialize = None, abort = None, finalize = None\<rparr>"

section \<open>Statistics\<close>

definition atomic_incr64 :: "int \<Rightarrow> int" where
  "atomic_incr64 v = wrap_s64 (v + 1)"

definition atomic_decr64 :: "int \<Rightarrow> int" where
  "atomic_decr64 v = wrap_s64 (v - 1)"

definition atomic_add64 :: "int \<Rightarrow> int \<Rightarrow> int" where
  "atomic_add64 v a = wrap_s64 (v + a)"

text \<open>The cast \<^verbatim>\<open>(int64_t)size\<close> and its negation \<^verbatim>\<open>-(int64_t)size\<close>.\<close>

definition int64_of_size :: "nat \<Rightarrow> int" where
  "int64_of_size sz = wrap_s64 (int sz)"

definition neg_int64_of_size :: "nat \<Rightarrow> int" where
  "neg_int64_of_size sz = wrap_s64 (- int64_of_size sz)"

text \<open>The four updates that follow a tracked allocation, and the two that follow a release.\<close>

definition stats_allocated :: "nat \<Rightarrow> memory_statistics_t \<Rightarrow> memory_statistics_t" where
  "stats_allocated sz st =
     st\<lparr>allocations_total := atomic_incr64 (allocations_total st),
        allocations_current := atomic_incr64 (allocations_current st),
        allocated_total := atomic_add64 (allocated_total st) (int64_of_size sz),
        allocated_current := atomic_add64 (allocated_current st) (int64_of_size sz)\<rparr>"

definition stats_released :: "nat \<Rightarrow> memory_statistics_t \<Rightarrow> memory_statistics_t" where
  "stats_released sz st =
     st\<lparr>allocations_current := atomic_decr64 (allocations_current st),
        allocated_current := atomic_add64 (allocated_current st) (neg_int64_of_size sz)\<rparr>"

section \<open>The local tracker: track and untrack\<close>

text \<open>The cast \<^verbatim>\<open>(int32_t)foundation_config().memory_tracker_max\<close>.\<close>

definition tracker_max32 :: "config \<Rightarrow> int" where
  "tracker_max32 cfg = wrap_s32 (int (memory_tracker_max cfg))"

text \<open>C's remainder, which truncates towards zero.\<close>

definition c_rem :: "int \<Rightarrow> int \<Rightarrow> int" where
  "c_rem a b = sgn a * (\<bar>a\<bar> mod \<bar>b\<bar>)"

definition tag_valid :: "memory_state \<Rightarrow> int \<Rightarrow> bool" where
  "tag_valid s i = (memory_tags s \<noteq> 0 \<and> 0 \<le> i \<and> nat i < length (memory_tags_data s))"

text \<open>
  The inner loop of \<^verbatim>\<open>_memory_tracker_track\<close>, which folds a cursor value at or
  beyond the capacity back into the table. Its arguments are the capacity as a 32-bit
  integer, the tag in hand and the cursor \<^verbatim>\<open>_memory_tag_next\<close>; it returns the tag and
  the cursor. \<^verbatim>\<open>atomic_cas32(&next, newtag + 1, tag + 1)\<close> succeeds when the cursor still
  is \<open>tag + 1\<close>; otherwise the tag is fetched again with
  \<^verbatim>\<open>atomic_exchange_and_add32\<close>. The loop need not end (a capacity that is negative as
  a 32-bit integer keeps it running), so it is a partial function.
\<close>

partial_function (option) wrap_tag :: "int \<Rightarrow> int \<Rightarrow> int \<Rightarrow> (int \<times> int) option" where
  "wrap_tag maxtag tag next =
     (if tag \<ge> maxtag then
        (if maxtag = 0 then None
         else if next = wrap_s32 (tag + 1)
              then wrap_tag maxtag (c_rem tag maxtag) (wrap_s32 (c_rem tag maxtag + 1))
              else wrap_tag maxtag next (wrap_s32 (next + 1)))
      else Some (tag, next))"

text \<open>
  The \<^verbatim>\<open>do ... while (++loop < limit)\<close> loop of \<^verbatim>\<open>_memory_tracker_track\<close>. The counter
  cannot wrap, since it stays below \<open>limit\<close>. The compare-and-swap on the tag's address
  succeeds when the slot is free (its address is null).
\<close>

function track_loop ::
  "config \<Rightarrow> nat \<Rightarrow> nat \<Rightarrow> nat \<Rightarrow> nat \<Rightarrow> memory_state \<Rightarrow> memory_state option" where
  "track_loop cfg addr sz limit loop s =
     (case wrap_tag (tracker_max32 cfg) (memory_tag_next s) (wrap_s32 (memory_tag_next s + 1)) of
        None \<Rightarrow> None
      | Some (tag, next) \<Rightarrow>
          let s1 = s\<lparr>memory_tag_next := next\<rparr>
          in if \<not> tag_valid s1 tag then None
             else if address (memory_tags_data s1 ! nat tag) = 0 then
               Some (s1\<lparr>memory_tags_data := (memory_tags_data s1)
                         [nat tag := (memory_tags_data s1 ! nat tag)\<lparr>address := addr, tag_size := sz\<rparr>]\<rparr>)
             else if Suc loop < limit then track_loop cfg addr sz limit (Suc loop) s1
             else Some s1)"
  by pat_completeness auto
termination
  by (relation "measure (\<lambda>(cfg, addr, sz, limit, loop, s). limit - loop)") auto

declare track_loop.simps [simp del]

definition memory_tracker_track ::
  "config \<Rightarrow> nat \<Rightarrow> nat \<Rightarrow> memory_state \<Rightarrow> memory_state option" where
  "memory_tracker_track cfg addr sz s =
     (if addr \<noteq> 0 \<and> memory_tracker_initialized s then
        (case track_loop cfg addr sz (size_wrap cfg (memory_tracker_max cfg * 2)) 0 s of
           None \<Rightarrow> None
         | Some s1 \<Rightarrow>
             Some (if memory_statistics cfg
                   then s1\<lparr>memory_stats := stats_allocated sz (memory_stats s1)\<rparr>
                   else s1))
      else Some s)"

text \<open>
  The search loop of \<^verbatim>\<open>_memory_tracker_untrack\<close>: it returns the local variables
  \<^verbatim>\<open>tag\<close> and \<^verbatim>\<open>size\<close> as the loop leaves them. The walk ends at \<open>iend\<close>; it is a
  partial function because the code itself gives no bound.
\<close>

partial_function (option) untrack_search ::
  "config \<Rightarrow> nat \<Rightarrow> int \<Rightarrow> int \<Rightarrow> memory_state \<Rightarrow> (int \<times> nat) option" where
  "untrack_search cfg addr iend itag s =
     (if \<not> tag_valid s itag then None
      else if addr = address (memory_tags_data s ! nat itag) then
        Some (wrap_s32 (itag + 1), tag_size (memory_tags_data s ! nat itag))
      else if itag = iend then Some (0, 0)
      else if itag \<noteq> 0 then untrack_search cfg addr iend (itag - 1) s
      else untrack_search cfg addr iend (wrap_s32 (tracker_max32 cfg - 1)) s)"

text \<open>
  \<^verbatim>\<open>_memory_tracker_untrack\<close> in its two parts: the lookup, which leaves the locals
  \<^verbatim>\<open>tag\<close> and \<^verbatim>\<open>size\<close>, and the release under \<^verbatim>\<open>if (tag && size)\<close>.
\<close>

definition untrack_lookup :: "config \<Rightarrow> nat \<Rightarrow> memory_state \<Rightarrow> (int \<times> nat) option" where
  "untrack_lookup cfg addr s =
     (if addr \<noteq> 0 \<and> memory_tracker_initialized s then
        let maxtag = tracker_max32 cfg
        in if maxtag = 0 then None
           else let iend = c_rem (memory_tag_next s) maxtag;
                    itag = (if iend \<noteq> 0 then iend - 1 else wrap_s32 (maxtag - 1))
                in untrack_search cfg addr iend itag s
      else Some (0, 0))"

definition memory_tracker_untrack :: "config \<Rightarrow> nat \<Rightarrow> memory_state \<Rightarrow> memory_state option" where
  "memory_tracker_untrack cfg addr s =
     (case untrack_lookup cfg addr s of
        None \<Rightarrow> None
      | Some (tag, sz) \<Rightarrow>
          if tag \<noteq> 0 \<and> sz \<noteq> 0 then
            (if \<not> tag_valid s (tag - 1) then None
             else let s1 = s\<lparr>memory_tags_data := (memory_tags_data s)
                              [nat (tag - 1) := (memory_tags_data s ! nat (tag - 1))\<lparr>address := 0\<rparr>]\<rparr>
                  in Some (if memory_statistics cfg
                           then s1\<lparr>memory_stats := stats_released sz (memory_stats s1)\<rparr>
                           else s1))
          else Some s)"

section \<open>Invariants and example states\<close>

text \<open>
  What the sequential runs of the tracker maintain: a capacity that fits a 32-bit
  signed integer (and whose double fits \<^verbatim>\<open>size_t\<close>), a cursor between 0 and the
  capacity, and, while the tracker is initialized, a tag table of that capacity.
\<close>

definition tracker_ok :: "config \<Rightarrow> memory_state \<Rightarrow> bool" where
  "tracker_ok cfg s =
     (pointer_size_ok cfg
      \<and> 0 < memory_tracker_max cfg \<and> memory_tracker_max cfg < 2 ^ 31
      \<and> 0 \<le> memory_tag_next s \<and> memory_tag_next s \<le> int (memory_tracker_max cfg)
      \<and> (memory_tracker_initialized s \<longrightarrow>
            memory_tags s \<noteq> 0 \<and> length (memory_tags_data s) = memory_tracker_max cfg))"

definition tags_full :: "memory_state \<Rightarrow> bool" where
  "tags_full s = list_all (\<lambda>t. address t \<noteq> 0) (memory_tags_data s)"

text \<open>A back end that fails every request, for the example states.\<close>

definition failing_system :: memory_system_t where
  "failing_system =
     \<lparr>sys_allocate = (\<lambda>ctx sz align hint w. (0, w)),
      sys_reallocate = (\<lambda>p sz align oldsz w. (0, w)),
      sys_deallocate = (\<lambda>p w. w),
      sys_initialize = (\<lambda>w. (0, w)),
      sys_finalize = (\<lambda>w. w),
      sys_thread_finalize = None\<rparr>"

definition zero_stats :: memory_statistics_t where
  "zero_stats = \<lparr>allocations_total = 0, allocations_current = 0,
                 allocated_total = 0, allocated_current = 0\<rparr>"

definition memory_tracker_local :: memory_tracker_t where
  "memory_tracker_local =
     \<lparr>track = Some Local_track, untrack = Some Local_untrack,
      initialize = Some Local_initialize, abort = Some Local_cleanup,
      finalize = Some Local_finalize\<rparr>"

text \<open>
  An initialized module with the local tracker installed, no arena, and a tag table at
  address 5000 with the given contents.
\<close>

definition tracking_state :: "memory_tag_t list \<Rightarrow> int \<Rightarrow> memory_state" where
  "tracking_state tags next =
     \<lparr>memory_system = failing_system,
      memory_initialized = True,
      memory_temporary = \<lparr>storage = 0, arena_end = 0, head = 0, arena_size = 0, maxchunk = 0\<rparr>,
      memory_stats = zero_stats,
      memory_tracker = memory_tracker_local,
      memory_tracker_preinit = memory_no_tracker,
      memory_tags = 5000,
      memory_tags_data = tags,
      memory_tag_next = next,
      memory_tracker_initialized = True,
      thread_context = None,
      world = \<lparr>heap = (\<lambda>a. 0), events = []\<rparr>\<rparr>"

definition full_table :: "memory_tag_t list" where
  "full_table = [\<lparr>address = 100, tag_size = 1\<rparr>, \<lparr>address = 200, tag_size = 1\<rparr>]"

section \<open>The allocator facade\<close>

definition log_event :: "event \<Rightarrow> memory_state \<Rightarrow> memory_state" where
  "log_event e s = s\<lparr>world := (world s)\<lparr>events := events (world s) @ [e]\<rparr>\<rparr>"

text \<open>\<^verbatim>\<open>_memory_track\<close> and \<^verbatim>\<open>_memory_untrack\<close> call the hook of the installed tracker, if any.\<close>

definition memory_track :: "config \<Rightarrow> nat \<Rightarrow> nat \<Rightarrow> memory_state \<Rightarrow> memory_state option" where
  "memory_track cfg addr sz s =
     (case track (memory_tracker s) of
        None \<Rightarrow> Some s
      | Some Local_track \<Rightarrow> memory_tracker_track cfg addr sz s
      | Some (User_track f) \<Rightarrow> Some (log_event (User_track_call f addr sz) s))"

definition memory_untrack :: "config \<Rightarrow> nat \<Rightarrow> memory_state \<Rightarrow> memory_state option" where
  "memory_untrack cfg addr s =
     (case untrack (memory_tracker s) of
        None \<Rightarrow> Some s
      | Some Local_untrack \<Rightarrow> memory_tracker_untrack cfg addr s
      | Some (User_untrack f) \<Rightarrow> Some (log_event (User_untrack_call f addr) s))"

text \<open>
  Modelled from the spec: the hint flags are an enumeration of the library's type
  header, which is not among the sources. The specification lists them as bit flags
  combined at the call site; they are distinct bits here, with \<^verbatim>\<open>MEMORY_PERSISTENT\<close> the
  empty set of bits.
\<close>

definition MEMORY_PERSISTENT :: "32 word" where
  "MEMORY_PERSISTENT = 0"

definition MEMORY_TEMPORARY :: "32 word" where
  "MEMORY_TEMPORARY = 1"

definition MEMORY_ZERO_INITIALIZED :: "32 word" where
  "MEMORY_ZERO_INITIALIZED = 8"

text \<open>
  \<^verbatim>\<open>_atomic_allocate_linear\<close>. With one thread the compare-and-swap on the head succeeds
  at the first attempt, so the retry loop runs its body once.
\<close>

definition atomic_allocate_linear :: "nat \<Rightarrow> memory_state \<Rightarrow> nat \<times> memory_state" where
  "atomic_allocate_linear chunksize s =
     (let t = memory_temporary s;
          old_head = head t;
          new_head = old_head + chunksize
      in if new_head > arena_end t then
           let return_pointer = storage t + 8
           in (return_pointer, s\<lparr>memory_temporary := t\<lparr>head := return_pointer + chunksize\<rparr>\<rparr>)
         else (old_head, s\<lparr>memory_temporary := t\<lparr>head := new_head\<rparr>\<rparr>))"

text \<open>
  \<^verbatim>\<open>memory_allocate\<close>. The first component of \<open>arena\<close> is the local \<^verbatim>\<open>p\<close> after the
  arena attempt (null when the arena was not used). The assertion that bit 0 of the
  pointer is clear has no branch of its own: the arena pointer is aligned to at least
  the pointer size.
\<close>

definition memory_allocate ::
  "config \<Rightarrow> hash_t \<Rightarrow> nat \<Rightarrow> nat \<Rightarrow> 32 word \<Rightarrow> memory_state \<Rightarrow> (nat \<times> memory_state) option" where
  "memory_allocate cfg ctx sz align hint s =
     (let arena =
            (if storage (memory_temporary s) \<noteq> 0 \<and> hint AND MEMORY_TEMPORARY \<noteq> 0 then
               let tmpalign = memory_get_align_forced cfg align
               in if size_wrap cfg (sz + tmpalign) < maxchunk (memory_temporary s) then
                    let (q, s1) = atomic_allocate_linear (size_wrap cfg (sz + tmpalign)) s;
                        p = memory_align_pointer q tmpalign
                    in (p, if hint AND MEMORY_ZERO_INITIALIZED \<noteq> 0
                           then s1\<lparr>world := (world s1)\<lparr>heap := memset p 0 sz (heap (world s1))\<rparr>\<rparr>
                           else s1)
                  else (0, s)
             else (0, s));
          served =
            (if fst arena = 0 then
               let (p, w) = sys_allocate (memory_system (snd arena))
                              (if ctx \<noteq> 0 then ctx else memory_context (thread_context (snd arena)))
                              sz align hint (world (snd arena))
               in (p, (snd arena)\<lparr>world := w\<rparr>)
             else arena)
      in map_option (Pair (fst served)) (memory_track cfg (fst served) sz (snd served)))"

definition memory_reallocate ::
  "config \<Rightarrow> nat \<Rightarrow> nat \<Rightarrow> nat \<Rightarrow> nat \<Rightarrow> memory_state \<Rightarrow> (nat \<times> memory_state) option" where
  "memory_reallocate cfg p sz align oldsize s =
     (let s0 = (if p < storage (memory_temporary s) \<or> p \<ge> arena_end (memory_temporary s) then s
                else log_event (Assert_failed ''Trying to reallocate temporary memory'') s)
      in case memory_untrack cfg p s0 of
           None \<Rightarrow> None
         | Some s1 \<Rightarrow>
             let (q, w) = sys_reallocate (memory_system s1) p sz align oldsize (world s1)
             in map_option (Pair q) (memory_track cfg q sz (s1\<lparr>world := w\<rparr>)))"

definition memory_deallocate :: "config \<Rightarrow> nat \<Rightarrow> memory_state \<Rightarrow> memory_state option" where
  "memory_deallocate cfg p s =
     memory_untrack cfg p
       (if p < storage (memory_temporary s) \<or> p \<ge> arena_end (memory_temporary s)
        then s\<lparr>world := sys_deallocate (memory_system s) p (world s)\<rparr>
        else s)"

definition memory_statistics_snapshot :: "memory_state \<Rightarrow> memory_statistics_t" where
  "memory_statistics_snapshot s = memory_stats s"

section \<open>The local tracker: lifecycle\<close>

text \<open>
  A tag record holds an atomic pointer, a \<^verbatim>\<open>size_t\<close> and fourteen trace pointers:
  sixteen machine words. The table that \<^verbatim>\<open>_memory_tracker_initialize\<close> obtains holds as
  many whole zeroed records as fit into the requested size (no record when the
  allocation failed).
\<close>

definition sizeof_memory_tag_t :: "config \<Rightarrow> nat" where
  "sizeof_memory_tag_t cfg = 16 * size_pointer cfg"

definition tag_table_size :: "config \<Rightarrow> nat" where
  "tag_table_size cfg = size_wrap cfg (sizeof_memory_tag_t cfg * memory_tracker_max cfg)"

definition memory_tracker_initialize :: "config \<Rightarrow> memory_state \<Rightarrow> memory_state option" where
  "memory_tracker_initialize cfg s =
     (if \<not> memory_tracker_initialized s then
        (case memory_allocate cfg 0 (tag_table_size cfg) 16
                (MEMORY_PERSISTENT OR MEMORY_ZERO_INITIALIZED) s of
           None \<Rightarrow> None
         | Some (p, s1) \<Rightarrow>
             let s2 = s1\<lparr>memory_tags := p,
                         memory_tags_data :=
                           (if p = 0 then []
                            else replicate (tag_table_size cfg div sizeof_memory_tag_t cfg)
                                   \<lparr>address = 0, tag_size = 0\<rparr>)\<rparr>;
                 s3 = (if memory_statistics cfg
                       then s2\<lparr>memory_stats := stats_allocated (tag_table_size cfg) (memory_stats s2)\<rparr>
                       else s2)
             in Some (s3\<lparr>memory_tracker_initialized := True\<rparr>))
      else Some s)"

definition memory_tracker_cleanup :: "config \<Rightarrow> memory_state \<Rightarrow> memory_state option" where
  "memory_tracker_cleanup cfg s =
     (let s0 = s\<lparr>memory_tracker_initialized := False\<rparr>
      in if memory_tags s0 \<noteq> 0 then
           (case memory_deallocate cfg (memory_tags s0) s0 of
              None \<Rightarrow> None
            | Some s1 \<Rightarrow>
                let s2 = (if memory_statistics cfg
                          then s1\<lparr>memory_stats := stats_released (tag_table_size cfg) (memory_stats s1)\<rparr>
                          else s1)
                in Some (s2\<lparr>memory_tags := 0, memory_tags_data := []\<rparr>))
         else Some s0)"

text \<open>
  The scan of \<^verbatim>\<open>_memory_tracker_finalize\<close>: a slot with a non-null address is reported
  by a warning that carries the tag's size, its address and its index. (The counter is an
  \<^verbatim>\<open>unsigned int\<close>; it does not wrap for the capacities below \<open>2 ^ 31\<close> that
  \<open>tracker_ok\<close> admits.)
\<close>

function leak_scan :: "config \<Rightarrow> nat \<Rightarrow> memory_state \<Rightarrow> memory_state option" where
  "leak_scan cfg it s =
     (if it < memory_tracker_max cfg then
        (if \<not> tag_valid s (int it) then None
         else leak_scan cfg (Suc it)
                (if address (memory_tags_data s ! it) \<noteq> 0
                 then log_event (Leak (tag_size (memory_tags_data s ! it))
                                      (address (memory_tags_data s ! it)) it) s
                 else s))
      else Some s)"
  by pat_completeness auto
termination
  by (relation "measure (\<lambda>(cfg, it, s). memory_tracker_max cfg - it)") auto

declare leak_scan.simps [simp del]

definition memory_tracker_finalize :: "config \<Rightarrow> memory_state \<Rightarrow> memory_state option" where
  "memory_tracker_finalize cfg s =
     (let s0 = s\<lparr>memory_tracker_initialized := False\<rparr>
      in case (if memory_tags s0 \<noteq> 0 then leak_scan cfg 0 s0 else Some s0) of
           None \<Rightarrow> None
         | Some s1 \<Rightarrow> memory_tracker_cleanup cfg s1)"

section \<open>Swapping the tracker; initialization and shutdown\<close>

definition call_void :: "config \<Rightarrow> void_fn option \<Rightarrow> memory_state \<Rightarrow> memory_state option" where
  "call_void cfg f s =
     (case f of
        None \<Rightarrow> Some s
      | Some Local_cleanup \<Rightarrow> memory_tracker_cleanup cfg s
      | Some Local_finalize \<Rightarrow> memory_tracker_finalize cfg s
      | Some (User_void n) \<Rightarrow> Some (log_event (User_void_call n) s))"

definition call_initialize ::
  "config \<Rightarrow> initialize_fn option \<Rightarrow> memory_state \<Rightarrow> memory_state option" where
  "call_initialize cfg f s =
     (case f of
        None \<Rightarrow> Some s
      | Some Local_initialize \<Rightarrow> memory_tracker_initialize cfg s
      | Some (User_initialize n) \<Rightarrow> Some (log_event (User_initialize_call n) s))"

text \<open>
  \<^verbatim>\<open>memory_set_tracker\<close>. Each \<^verbatim>\<open>if (hook) hook()\<close> of the source is a call through
  \<open>call_void\<close> or \<open>call_initialize\<close>, which do nothing for a null slot.
\<close>

definition memory_set_tracker ::
  "config \<Rightarrow> memory_tracker_t \<Rightarrow> memory_state \<Rightarrow> memory_state option" where
  "memory_set_tracker cfg tracker s =
     (let old_tracker = memory_tracker s
      in if track old_tracker = track tracker \<and> untrack old_tracker = untrack tracker
         then Some s
         else
           Option.bind (call_void cfg (abort old_tracker) (s\<lparr>memory_tracker := memory_no_tracker\<rparr>))
             (\<lambda>s1. Option.bind (call_void cfg (finalize old_tracker) s1)
               (\<lambda>s2. if memory_initialized s2
                      then Option.bind (call_initialize cfg (initialize tracker) s2)
                             (\<lambda>s3. Some (s3\<lparr>memory_tracker := tracker\<rparr>))
                      else Some (s2\<lparr>memory_tracker_preinit := tracker\<rparr>))))"

definition zero_arena :: atomic_linear_memory_t where
  "zero_arena = \<lparr>storage = 0, arena_end = 0, head = 0, arena_size = 0, maxchunk = 0\<rparr>"

definition atomic_allocate_initialize :: "config \<Rightarrow> memory_state \<Rightarrow> memory_state option" where
  "atomic_allocate_initialize cfg s =
     (let storagesize = temporary_memory cfg
      in if storagesize = 0 then Some (s\<lparr>memory_temporary := zero_arena\<rparr>)
         else
           (case memory_allocate cfg 0 storagesize 16 MEMORY_PERSISTENT s of
              None \<Rightarrow> None
            | Some (p, s1) \<Rightarrow>
                Some (s1\<lparr>memory_temporary :=
                          \<lparr>storage = p, arena_end = p + storagesize, head = p + 8,
                           arena_size = storagesize, maxchunk = storagesize div 8\<rparr>\<rparr>)))"

definition atomic_allocate_finalize :: "config \<Rightarrow> memory_state \<Rightarrow> memory_state option" where
  "atomic_allocate_finalize cfg s =
     (let p = storage (memory_temporary s);
          s1 = s\<lparr>memory_temporary := zero_arena\<rparr>
      in if p \<noteq> 0 then memory_deallocate cfg p s1 else Some s1)"

definition memory_initialize ::
  "config \<Rightarrow> memory_system_t \<Rightarrow> memory_state \<Rightarrow> (int \<times> memory_state) option" where
  "memory_initialize cfg memory s =
     (let s1 = s\<lparr>memory_system := memory, memory_stats := zero_stats\<rparr>;
          (ret, w) = sys_initialize (memory_system s1) (world s1);
          s2 = s1\<lparr>world := w\<rparr>
      in if ret = 0 then
           Option.bind (atomic_allocate_initialize cfg (s2\<lparr>memory_initialized := True\<rparr>))
             (\<lambda>s3. if initialize (memory_tracker_preinit s3) \<noteq> None
                    then map_option (Pair ret)
                           (memory_set_tracker cfg (memory_tracker_preinit s3) s3)
                    else Some (ret, s3))
         else Some (ret, s2))"

definition memory_finalize :: "config \<Rightarrow> memory_state \<Rightarrow> memory_state option" where
  "memory_finalize cfg s =
     Option.bind (call_void cfg (finalize (memory_tracker s))
                    (s\<lparr>memory_tracker_preinit := memory_tracker s\<rparr>))
       (\<lambda>s1. Option.bind (atomic_allocate_finalize cfg s1)
         (\<lambda>s2. let s3 = (case sys_thread_finalize (memory_system s2) of
                            None \<Rightarrow> s2
                          | Some f \<Rightarrow> s2\<lparr>world := f (world s2)\<rparr>)
                in Option.bind (memory_set_tracker cfg memory_no_tracker s3)
                     (\<lambda>s4. Some (s4\<lparr>world := sys_finalize (memory_system s4) (world s4),
                                     memory_initialized := False\<rparr>))))"

text \<open>
  What the arena code maintains once \<^verbatim>\<open>_atomic_allocate_initialize\<close> has set the arena
  up, and what a call of the track hook needs to return.
\<close>

definition arena_ok :: "config \<Rightarrow> memory_state \<Rightarrow> bool" where
  "arena_ok cfg s =
     (arena_end (memory_temporary s) = storage (memory_temporary s) + arena_size (memory_temporary s)
      \<and> maxchunk (memory_temporary s) = arena_size (memory_temporary s) div 8
      \<and> storage (memory_temporary s) + 8 \<le> head (memory_temporary s)
      \<and> arena_size (memory_temporary s) < 2 ^ (8 * size_pointer cfg))"

definition track_ready :: "config \<Rightarrow> memory_state \<Rightarrow> bool" where
  "track_ready cfg s = (track (memory_tracker s) = Some Local_track \<longrightarrow> tracker_ok cfg s)"

text \<open>The pointer that the arena path of \<^verbatim>\<open>memory_allocate\<close> returns, from the arena alone.\<close>

definition arena_pointer :: "config \<Rightarrow> nat \<Rightarrow> nat \<Rightarrow> atomic_linear_memory_t \<Rightarrow> nat" where
  "arena_pointer cfg sz align t =
     memory_align_pointer
       (if head t + (sz + memory_get_align_forced cfg align) > arena_end t
        then storage t + 8 else head t)
       (memory_get_align_forced cfg align)"

text \<open>A back end whose allocate returns one fixed address, for the example states.\<close>

definition fixed_system :: "nat \<Rightarrow> memory_system_t" where
  "fixed_system p = failing_system\<lparr>sys_allocate := (\<lambda>ctx sz align hint w. (p, w))\<rparr>"

text \<open>
  An initialized module without a tracker whose arena of 1024 bytes lies at address
  4096 (so \<open>maxchunk\<close> is 128), untouched so far, over a memory of bytes 1.
\<close>

definition arena_state :: memory_state where
  "arena_state =
     \<lparr>memory_system = fixed_system 70000,
      memory_initialized = True,
      memory_temporary =
        \<lparr>storage = 4096, arena_end = 5120, head = 4104, arena_size = 1024, maxchunk = 128\<rparr>,
      memory_stats = zero_stats,
      memory_tracker = memory_no_tracker,
      memory_tracker_preinit = memory_no_tracker,
      memory_tags = 0,
      memory_tags_data = [],
      memory_tag_next = 0,
      memory_tracker_initialized = False,
      thread_context = None,
      world = \<lparr>heap = (\<lambda>a. 1), events = []\<rparr>\<rparr>"

text \<open>
  A run of allocations through \<^verbatim>\<open>memory_allocate\<close>, collecting the payloads. A request
  is the argument list of one call; it is an arena-path request when it carries the
  TEMPORARY bit and its size plus forced alignment is below \<open>maxchunk\<close>.
\<close>

type_synonym request = "hash_t \<times> nat \<times> nat \<times> 32 word"

fun allocate_all ::
  "config \<Rightarrow> request list \<Rightarrow> memory_state \<Rightarrow> (nat list \<times> memory_state) option" where
  "allocate_all cfg [] s = Some ([], s)"
| "allocate_all cfg ((ctx, sz, align, hint) # rs) s =
     (case memory_allocate cfg ctx sz align hint s of
        None \<Rightarrow> None
      | Some (p, s') \<Rightarrow>
          (case allocate_all cfg rs s' of
             None \<Rightarrow> None
           | Some (ps, s'') \<Rightarrow> Some (p # ps, s'')))"

fun arena_request :: "config \<Rightarrow> nat \<Rightarrow> request \<Rightarrow> bool" where
  "arena_request cfg chunk_limit (ctx, sz, align, hint) =
     (hint AND MEMORY_TEMPORARY \<noteq> 0 \<and> sz + memory_get_align_forced cfg align < chunk_limit)"

text \<open>The static initial state of the module over a given back end and world.\<close>

definition initial_state :: "memory_system_t \<Rightarrow> world \<Rightarrow> memory_state" where
  "initial_state sys w =
     \<lparr>memory_system = sys,
      memory_initialized = False,
      memory_temporary = zero_arena,
      memory_stats = zero_stats,
      memory_tracker = memory_no_tracker,
      memory_tracker_preinit = memory_no_tracker,
      memory_tags = 0,
      memory_tags_data = [],
      memory_tag_next = 0,
      memory_tracker_initialized = False,
      thread_context = None,
      world = w\<rparr>"

section \<open>The default back end: deallocate\<close>

text \<open>
  \<^verbatim>\<open>_memory_deallocate_malloc\<close>, with both arms of the pointer-size conditional. The
  calls into the platform (\<^verbatim>\<open>free\<close>, \<^verbatim>\<open>_aligned_free\<close>, \<^verbatim>\<open>munmap\<close>,
  \<^verbatim>\<open>VirtualFree\<close>) are recorded as events with their arguments; the warnings logged
  when the platform reports a failure depend on the platform alone and are left out.
  \<^verbatim>\<open>raw_ptr & 1\<close> is the parity of the stored word, and clearing bit 0 of an odd word
  subtracts one.
\<close>

definition guard_verified :: "config \<Rightarrow> nat \<Rightarrow> world \<Rightarrow> nat \<times> world" where
  "guard_verified cfg p w =
     (if memory_guard cfg then
        (snd (memory_guard_verify cfg p (heap w)),
         w\<lparr>events := events w @ map Assert_failed (fst (memory_guard_verify cfg p (heap w)))\<rparr>)
      else (p, w))"

definition memory_deallocate_malloc :: "config \<Rightarrow> nat \<Rightarrow> world \<Rightarrow> world" where
  "memory_deallocate_malloc cfg p w =
     (if size_pointer cfg = 4 then
        (if p = 0 then w
         else let (p1, w1) = guard_verified cfg p w
              in if platform cfg = Windows
                 then w1\<lparr>events := events w1 @ [Aligned_free p1]\<rparr>
                 else w1\<lparr>events := events w1 @
                        [Free (load_le (p1 - size_pointer cfg) (size_pointer cfg) (heap w1))]\<rparr>)
      else
        (if p = 0 then w
         else let (p1, w1) = guard_verified cfg p w;
                  raw_ptr = load_le (p1 - size_pointer cfg) (size_pointer cfg) (heap w1)
              in if raw_ptr mod 2 = 1 then
                   (if platform cfg = Windows
                    then w1\<lparr>events := events w1 @ [Virtual_free (raw_ptr - 1)]\<rparr>
                    else w1\<lparr>events := events w1 @
                           [Munmap (raw_ptr - 1)
                              (load_le (p1 - 2 * size_pointer cfg) (size_pointer cfg) (heap w1))]\<rparr>)
                 else
                   (if platform cfg = Windows
                    then w1\<lparr>events := events w1 @ [Aligned_free raw_ptr]\<rparr>
                    else w1\<lparr>events := events w1 @ [Free raw_ptr]\<rparr>)))"

text \<open>An example: the tracking state over a back end that releases as the default one does.\<close>

definition malloc_tracking_state :: memory_state where
  "malloc_tracking_state =
     (tracking_state full_table 0)
       \<lparr>memory_system := failing_system\<lparr>sys_deallocate := memory_deallocate_malloc linux64\<rparr>\<rparr>"

text \<open>An example table with one tag of recorded size 0.\<close>

definition zero_size_table :: "memory_tag_t list" where
  "zero_size_table = [\<lparr>address = 100, tag_size = 0\<rparr>, \<lparr>address = 0, tag_size = 0\<rparr>]"

text \<open>The tracking state after the address 100 has been tracked with size 0.\<close>

definition zero_tracked_state :: memory_state where
  "zero_tracked_state =
     (tracking_state zero_size_table 1)
       \<lparr>memory_stats := \<lparr>allocations_total = 1, allocations_current = 1,
                          allocated_total = 0, allocated_current = 0\<rparr>\<rparr>"

section \<open>Runs of operations and the total counters\<close>

text \<open>
  The operations a host can reach: the facade, the tracker swap, shutdown, and the five
  functions of the local tracker's table that \<^verbatim>\<open>memory_tracker_local\<close> hands out.
\<close>

datatype memory_op =
    Op_allocate hash_t nat nat "32 word"
  | Op_reallocate nat nat nat nat
  | Op_deallocate nat
  | Op_set_tracker memory_tracker_t
  | Op_finalize
  | Op_track nat nat
  | Op_untrack nat
  | Op_tracker_initialize
  | Op_tracker_cleanup
  | Op_tracker_finalize

fun run_op :: "config \<Rightarrow> memory_op \<Rightarrow> memory_state \<Rightarrow> memory_state option" where
  "run_op cfg (Op_allocate ctx sz align hint) s = map_option snd (memory_allocate cfg ctx sz align hint s)"
| "run_op cfg (Op_reallocate p sz align oldsize) s =
     map_option snd (memory_reallocate cfg p sz align oldsize s)"
| "run_op cfg (Op_deallocate p) s = memory_deallocate cfg p s"
| "run_op cfg (Op_set_tracker t) s = memory_set_tracker cfg t s"
| "run_op cfg Op_finalize s = memory_finalize cfg s"
| "run_op cfg (Op_track addr sz) s = memory_tracker_track cfg addr sz s"
| "run_op cfg (Op_untrack addr) s = memory_tracker_untrack cfg addr s"
| "run_op cfg Op_tracker_initialize s = memory_tracker_initialize cfg s"
| "run_op cfg Op_tracker_cleanup s = memory_tracker_cleanup cfg s"
| "run_op cfg Op_tracker_finalize s = memory_tracker_finalize cfg s"

fun run_ops :: "config \<Rightarrow> memory_op list \<Rightarrow> memory_state \<Rightarrow> memory_state option" where
  "run_ops cfg [] s = Some s"
| "run_ops cfg (op # ops) s =
     (case run_op cfg op s of None \<Rightarrow> None | Some s' \<Rightarrow> run_ops cfg ops s')"

text \<open>
  The size an operation may add to \<open>allocated_total\<close>, and the condition that the two
  total counters have room for the operation: neither signed 64-bit addition wraps.
\<close>

fun op_bytes :: "config \<Rightarrow> memory_op \<Rightarrow> nat" where
  "op_bytes cfg (Op_allocate ctx sz align hint) = sz"
| "op_bytes cfg (Op_reallocate p sz align oldsize) = sz"
| "op_bytes cfg (Op_track addr sz) = sz"
| "op_bytes cfg (Op_set_tracker t) = tag_table_size cfg"
| "op_bytes cfg Op_tracker_initialize = tag_table_size cfg"
| "op_bytes cfg op = 0"

definition totals_room :: "nat \<Rightarrow> memory_statistics_t \<Rightarrow> bool" where
  "totals_room sz st =
     (0 \<le> allocations_total st \<and> allocations_total st + 1 < 2 ^ 63
      \<and> 0 \<le> allocated_total st \<and> allocated_total st + int sz < 2 ^ 63)"

fun ops_fit :: "config \<Rightarrow> memory_op list \<Rightarrow> memory_state \<Rightarrow> bool" where
  "ops_fit cfg [] s = True"
| "ops_fit cfg (op # ops) s =
     (totals_room (op_bytes cfg op) (memory_stats s)
      \<and> (case run_op cfg op s of None \<Rightarrow> True | Some s' \<Rightarrow> ops_fit cfg ops s'))"

text \<open>How an operation may leave the two total counters: as they were, or counted once.\<close>

definition same_totals :: "memory_statistics_t \<Rightarrow> memory_statistics_t \<Rightarrow> bool" where
  "same_totals st st' =
     (allocations_total st' = allocations_total st \<and> allocated_total st' = allocated_total st)"

definition counted_once :: "nat \<Rightarrow> memory_statistics_t \<Rightarrow> memory_statistics_t \<Rightarrow> bool" where
  "counted_once sz st st' =
     (same_totals st st'
      \<or> (allocations_total st' = atomic_incr64 (allocations_total st)
         \<and> allocated_total st' = atomic_add64 (allocated_total st) (int64_of_size sz)))"

text \<open>
  Example states for the total counters: an empty tag table of capacity 2, and the arena
  state with the local tracker installed and initialized over that table.
\<close>

definition empty_table :: "memory_tag_t list" where
  "empty_table = [\<lparr>address = 0, tag_size = 0\<rparr>, \<lparr>address = 0, tag_size = 0\<rparr>]"

definition tracked_arena_state :: memory_state where
  "tracked_arena_state =
     arena_state\<lparr>memory_tracker := memory_tracker_local, memory_tags := 5000,
                 memory_tags_data := empty_table, memory_tracker_initialized := True\<rparr>"

text \<open>
  A tracker of the host's, all of whose hooks are host functions: number \<open>n\<close> names its
  track, untrack and initialize functions, \<open>10 * n + 1\<close> its abort and \<open>10 * n + 2\<close>
  its finalize.
\<close>

definition host_tracker :: "nat \<Rightarrow> memory_tracker_t" where
  "host_tracker n =
     \<lparr>track = Some (User_track n), untrack = Some (User_untrack n),
      initialize = Some (User_initialize n), abort = Some (User_void (10 * n + 1)),
      finalize = Some (User_void (10 * n + 2))\<rparr>"

text \<open>
  Two example requests, both TEMPORARY with alignment 0: one of 119 bytes, and one of
  \<open>SIZE_MAX - 7\<close> bytes on a 64-bit platform.
\<close>

definition small_request :: request where
  "small_request = (0, 119, 0, MEMORY_TEMPORARY)"

definition huge_request :: request where
  "huge_request = (0, 18446744073709551608, 0, MEMORY_TEMPORARY)"

text \<open>The example arena state with its head at a given address.\<close>

definition arena_at :: "nat \<Rightarrow> memory_state" where
  "arena_at h =
     arena_state\<lparr>memory_temporary :=
       \<lparr>storage = 4096, arena_end = 5120, head = h, arena_size = 1024, maxchunk = 128\<rparr>\<rparr>"

section \<open>Facts about the alignment policy\<close>

lemma pow2_from_ge: "0 < p \<Longrightarrow> x \<le> pow2_from p x"
proof (induction p x rule: pow2_from.induct)
  case (1 p x)
  show ?case
  proof (cases "x \<le> p")
    case True
    then show ?thesis by (simp add: pow2_from.simps [of p x])
  next
    case False
    with 1 show ?thesis by (simp add: pow2_from.simps [of p x])
  qed
qed

lemma pow2_from_le_power:
  "p = 2 ^ j \<Longrightarrow> j \<le> k \<Longrightarrow> x \<le> 2 ^ k \<Longrightarrow> pow2_from p x \<le> 2 ^ k"
proof (induction p x arbitrary: j rule: pow2_from.induct)
  case (1 p x)
  show ?case
  proof (cases "x \<le> p")
    case True
    have stop: "pow2_from p x = p" using True by (simp add: pow2_from.simps [of p x])
    have "(2::nat) ^ j \<le> 2 ^ k" using "1.prems"(2) by (simp add: power_increasing)
    with stop "1.prems"(1) show ?thesis by simp
  next
    case False
    have pj: "p = 2 ^ j" by (rule "1.prems"(1))
    have "j \<noteq> k" using False "1.prems"(3) pj by auto
    then have jk: "Suc j \<le> k" using "1.prems"(2) by simp
    have p0: "p \<noteq> 0" using pj by simp
    have "pow2_from (2 * p) x \<le> 2 ^ k"
      by (rule "1.IH" [of "Suc j"]) (use False p0 pj jk "1.prems"(3) in simp_all)
    with False p0 show ?thesis by (simp add: pow2_from.simps [of p x])
  qed
qed

lemma pow2_from_is_power: "p = 2 ^ j \<Longrightarrow> \<exists>k. pow2_from p x = 2 ^ k"
proof (induction p x arbitrary: j rule: pow2_from.induct)
  case (1 p x)
  show ?case
  proof (cases "x \<le> p")
    case True
    then have "pow2_from p x = p" by (simp add: pow2_from.simps [of p x])
    with "1.prems" show ?thesis by auto
  next
    case False
    have p0: "p \<noteq> 0" using "1.prems" by simp
    have "\<exists>k. pow2_from (2 * p) x = 2 ^ k"
      by (rule "1.IH" [of "Suc j"]) (use False p0 "1.prems" in simp_all)
    with False p0 show ?thesis by (simp add: pow2_from.simps [of p x])
  qed
qed

lemma math_align_poweroftwo_ge: "x \<le> math_align_poweroftwo x"
  by (simp add: math_align_poweroftwo_def pow2_from_ge)

lemma math_align_poweroftwo_least:
  "x \<le> 2 ^ k \<Longrightarrow> math_align_poweroftwo x \<le> 2 ^ k"
  unfolding math_align_poweroftwo_def
  by (rule pow2_from_le_power [of 1 0]) simp_all

lemma math_align_poweroftwo_is_power: "\<exists>k. math_align_poweroftwo x = 2 ^ k"
  unfolding math_align_poweroftwo_def
  by (rule pow2_from_is_power [of 1 0]) simp

lemma clamp_small:
  assumes "pointer_size_ok cfg" "a < size_pointer cfg"
  shows "min (FOUNDATION_MAX_ALIGN cfg) (max (size_pointer cfg) (math_align_poweroftwo a))
           = size_pointer cfg"
proof -
  from assms(1) have "size_pointer cfg = 2 ^ 2 \<or> size_pointer cfg = 2 ^ 3"
    by (simp add: pointer_size_ok_def)
  then have "math_align_poweroftwo a \<le> size_pointer cfg"
    using assms(2) math_align_poweroftwo_least [of a 2] math_align_poweroftwo_least [of a 3]
    by auto
  moreover have "size_pointer cfg \<le> FOUNDATION_MAX_ALIGN cfg"
    using assms(1) by (auto simp: pointer_size_ok_def FOUNDATION_MAX_ALIGN_def)
  ultimately show ?thesis by simp
qed

lemma pow2_from_step: "0 < p \<Longrightarrow> p < x \<Longrightarrow> pow2_from p x = pow2_from (2 * p) x"
  by (simp add: pow2_from.simps [of p x])

lemma pow2_from_stop: "x \<le> p \<Longrightarrow> pow2_from p x = p"
  by (simp add: pow2_from.simps [of p x])

lemma round_up_fits:
  assumes "a \<le> 2 ^ 31"
  shows "uint_wrap (math_align_poweroftwo a) = math_align_poweroftwo a"
proof -
  have "math_align_poweroftwo a \<le> 2 ^ 31"
    using assms by (rule math_align_poweroftwo_least)
  then have "math_align_poweroftwo a < 2 ^ 32" by simp
  then show ?thesis by (simp add: uint_wrap_def)
qed

lemma clamp_large:
  assumes "size_pointer cfg \<le> a" and "a \<le> 2 ^ 31"
  shows "min (FOUNDATION_MAX_ALIGN cfg) (max (size_pointer cfg) (math_align_poweroftwo a))
           = (let r = uint_wrap (math_align_poweroftwo a)
              in if r < FOUNDATION_MAX_ALIGN cfg then r else FOUNDATION_MAX_ALIGN cfg)"
proof -
  have "size_pointer cfg \<le> math_align_poweroftwo a"
    using assms(1) math_align_poweroftwo_ge [of a] by simp
  then show ?thesis unfolding round_up_fits [OF assms(2)] by (auto simp: Let_def)
qed

text \<open>
  Above \<open>2 ^ 31\<close> the round-up does not fit the \<^verbatim>\<open>unsigned int\<close> it is stored in: for the
  alignment argument \<open>2 ^ 31 + 1\<close> the stored value is 0, and that is what is returned.
\<close>

lemma get_align_store_wraps: "memory_get_align linux64 2147483649 = 0"
proof -
  have "math_align_poweroftwo 2147483649 = 4294967296"
    by (simp add: math_align_poweroftwo_def pow2_from_step pow2_from_stop)
  then show ?thesis
    by (simp add: memory_get_align_def linux64_def uint_wrap_def FOUNDATION_MAX_ALIGN_def)
qed

text \<open>
  C3, as stated, fails: on Windows the function returns the pointer size for the
  alignment argument 0, yet Windows is not the platform the claim excepts.
\<close>

theorem get_align_windows_zero_counterexample:
  "platform windows64 \<noteq> Android \<and> memory_get_align windows64 0 \<noteq> 0"
  by (simp add: windows64_def memory_get_align_def)

text \<open>
  C3, amended: with a pointer size of 4 or 8 and an alignment argument \<open>a\<close> of at most
  \<open>2 ^ 31\<close> (so that its round-up fits the 32-bit \<^verbatim>\<open>unsigned int\<close> it is stored in), the
  effective alignment is \<open>MAX_ALIGN\<close> for every \<open>a > 0\<close> and 0 for \<open>a = 0\<close> on Android;
  on every other platform it is \<open>max WORD (round-up-to-pow2 a)\<close> clamped to \<open>MAX_ALIGN\<close>
  for \<open>a > 0\<close>; for \<open>a = 0\<close> it is 0 on the platforms other than Windows and \<open>WORD\<close>
  on Windows.
\<close>

theorem get_align_effective:
  assumes "pointer_size_ok cfg" and "a \<le> 2 ^ 31"
  shows "memory_get_align cfg a =
     (case platform cfg of
        Android \<Rightarrow> (if a > 0 then FOUNDATION_MAX_ALIGN cfg else 0)
      | Windows \<Rightarrow>
          (if a = 0 then size_pointer cfg
           else min (FOUNDATION_MAX_ALIGN cfg) (max (size_pointer cfg) (math_align_poweroftwo a)))
      | Other \<Rightarrow>
          (if a = 0 then 0
           else min (FOUNDATION_MAX_ALIGN cfg) (max (size_pointer cfg) (math_align_poweroftwo a))))"
proof (cases "a < size_pointer cfg")
  case True
  from clamp_small [OF assms(1) True] assms(1) show ?thesis
    by (cases "platform cfg") (auto simp: memory_get_align_def True pointer_size_ok_def)
next
  case False
  then have le: "size_pointer cfg \<le> a" by simp
  have "a \<noteq> 0" using le assms by (auto simp: pointer_size_ok_def)
  with clamp_large [OF le assms(2)] False show ?thesis
    by (cases "platform cfg") (simp_all add: memory_get_align_def)
qed

theorem get_align_effective_witness:
  "pointer_size_ok linux64 \<and> (24::nat) \<le> 2 ^ 31 \<and> memory_get_align linux64 5 = 8
   \<and> memory_get_align linux64 0 = 0 \<and> memory_get_align linux64 24 = 16
   \<and> memory_get_align windows64 0 = 8
   \<and> memory_get_align linux64 2147483648 = 16"
proof -
  have b: "(5::nat) \<le> 2 ^ 31" "(0::nat) \<le> 2 ^ 31" "(24::nat) \<le> 2 ^ 31"
    "(2147483648::nat) \<le> 2 ^ 31" by simp_all
  have top: "math_align_poweroftwo 2147483648 = 2147483648"
    by (simp add: math_align_poweroftwo_def pow2_from_step pow2_from_stop)
  have ok: "pointer_size_ok linux64" by (simp add: linux64_def pointer_size_ok_def)
  have okw: "pointer_size_ok windows64" by (simp add: windows64_def pointer_size_ok_def)
  have p5: "math_align_poweroftwo 5 = 8" by code_simp
  have p24: "math_align_poweroftwo 24 = 32" by code_simp
  have "memory_get_align linux64 5 = 8"
    using get_align_effective [OF ok b(1)] p5
    by (simp add: linux64_def FOUNDATION_MAX_ALIGN_def)
  moreover have "memory_get_align linux64 0 = 0"
    using get_align_effective [OF ok b(2)] by (simp add: linux64_def)
  moreover have "memory_get_align linux64 24 = 16"
    using get_align_effective [OF ok b(3)] p24
    by (simp add: linux64_def FOUNDATION_MAX_ALIGN_def)
  moreover have "memory_get_align windows64 0 = 8"
    using get_align_effective [OF okw b(2)] by (simp add: windows64_def)
  moreover have "memory_get_align linux64 2147483648 = 16"
    using get_align_effective [OF ok b(4)] top
    by (simp add: linux64_def FOUNDATION_MAX_ALIGN_def)
  ultimately show ?thesis using ok by simp
qed

section \<open>Facts about the memory-context stack\<close>

lemma context_cap_wrap:
  assumes "context_depth_ok cfg"
  shows "size_wrap cfg (memory_context_depth cfg + 2 ^ (8 * size_pointer cfg) - 1)
           = memory_context_depth cfg - 1"
proof -
  let ?m = "(2::nat) ^ (8 * size_pointer cfg)"
  from assms have pos: "0 < memory_context_depth cfg" and lt: "memory_context_depth cfg < ?m"
    by (simp_all add: context_depth_ok_def)
  have "memory_context_depth cfg + ?m - 1 = (memory_context_depth cfg - 1) + ?m"
    using pos by simp
  then have "(memory_context_depth cfg + ?m - 1) mod ?m = (memory_context_depth cfg - 1) mod ?m"
    by simp
  also have "\<dots> = memory_context_depth cfg - 1" using lt by simp
  finally show ?thesis by (simp add: size_wrap_def)
qed

lemma context_push_step:
  assumes ok: "context_depth_ok cfg" and v: "context_valid cfg tc"
  shows "\<exists>tc'. memory_context_push cfg i tc = Inr tc' \<and> context_valid cfg tc'
           \<and> context_stack tc' =
               (if length (context_stack tc) < memory_context_depth cfg - 1
                then context_stack tc @ [i] else context_stack tc)"
proof -
  define c where "c = (case tc of
      None \<Rightarrow> \<lparr>depth = 0, contexts = replicate (memory_context_depth cfg) 0\<rparr>
    | Some c \<Rightarrow> c)"
  from ok have pos: "0 < memory_context_depth cfg" and le32: "memory_context_depth cfg \<le> 2 ^ 32"
    by (simp_all add: context_depth_ok_def)
  have len: "length (contexts c) = memory_context_depth cfg"
    and dlt: "depth c < memory_context_depth cfg"
    using v pos by (auto simp: c_def context_valid_def split: option.splits)
  have stk: "context_stack tc = take (depth c) (contexts c)"
    by (auto simp: c_def context_stack_def split: option.splits)
  have lstk: "length (context_stack tc) = depth c" using stk len dlt by simp
  have small: "depth c + 1 < 2 ^ 32 \<or> \<not> depth c < memory_context_depth cfg - 1"
    using le32 by linarith
  show ?thesis
  proof (cases "depth c < memory_context_depth cfg - 1")
    case True
    then have m: "(depth c + 1) mod 2 ^ 32 = depth c + 1" using small by simp
    have "take (Suc (depth c)) ((contexts c)[depth c := i]) = take (depth c) (contexts c) @ [i]"
      using dlt len by (simp add: take_Suc_conv_app_nth)
    with True m len dlt lstk stk show ?thesis
      unfolding memory_context_push_def c_def [symmetric] context_cap_wrap [OF ok]
      by (simp add: Let_def context_valid_def context_stack_def)
  next
    case False
    with len dlt lstk stk show ?thesis
      unfolding memory_context_push_def c_def [symmetric] context_cap_wrap [OF ok]
      by (simp add: Let_def context_valid_def context_stack_def)
  qed
qed

lemma context_pop_step:
  assumes v: "context_valid cfg tc"
  shows "context_valid cfg (memory_context_pop tc)
         \<and> context_stack (memory_context_pop tc) = butlast (context_stack tc)"
proof (cases tc)
  case None
  then show ?thesis by (simp add: memory_context_pop_def context_valid_def context_stack_def)
next
  case (Some c)
  with v have len: "length (contexts c) = memory_context_depth cfg"
    and dlt: "depth c < memory_context_depth cfg"
    by (simp_all add: context_valid_def)
  have "butlast (take (depth c) (contexts c)) = take (depth c - 1) (contexts c)"
    using len dlt by (simp add: butlast_take)
  with Some len dlt show ?thesis
    by (auto simp: memory_context_pop_def context_valid_def context_stack_def)
qed

lemma context_current:
  assumes v: "context_valid cfg tc"
  shows "memory_context tc = (if context_stack tc = [] then 0 else last (context_stack tc))"
proof (cases tc)
  case None
  then show ?thesis by (simp add: memory_context_def context_stack_def)
next
  case (Some c)
  with v have len: "length (contexts c) = memory_context_depth cfg"
    and dlt: "depth c < memory_context_depth cfg"
    by (simp_all add: context_valid_def)
  show ?thesis
  proof (cases "depth c")
    case 0
    with Some show ?thesis by (simp add: memory_context_def context_stack_def)
  next
    case (Suc n)
    then have "take (depth c) (contexts c) = take n (contexts c) @ [contexts c ! n]"
      using len dlt by (simp add: take_Suc_conv_app_nth)
    with Some Suc len dlt show ?thesis
      by (simp add: memory_context_def context_stack_def)
  qed
qed

lemma context_depth_stack:
  "context_valid cfg tc \<Longrightarrow> context_depth tc = length (context_stack tc)"
  by (cases tc) (simp_all add: context_valid_def context_depth_def context_stack_def)

lemma pushed_ids_length:
  "length st \<le> cap - 1 \<Longrightarrow> length (pushed_ids cap ops st) \<le> cap - 1"
proof (induction cap ops st rule: pushed_ids.induct)
  case (1 cap st)
  then show ?case by simp
next
  case (2 cap i ops st)
  then show ?case by auto
next
  case (3 cap ops st)
  then show ?case by simp
qed

lemma context_run_refines:
  assumes ok: "context_depth_ok cfg"
  shows "context_valid cfg tc \<Longrightarrow>
         \<exists>tc'. context_run cfg ops tc = Inr tc' \<and> context_valid cfg tc'
           \<and> context_stack tc' = pushed_ids (memory_context_depth cfg) ops (context_stack tc)"
proof (induction ops arbitrary: tc)
  case Nil
  then show ?case by simp
next
  case (Cons op ops)
  show ?case
  proof (cases op)
    case (Push i)
    from context_push_step [OF ok Cons.prems, of i] obtain tc1 where
      p: "memory_context_push cfg i tc = Inr tc1" and v1: "context_valid cfg tc1"
      and s1: "context_stack tc1 =
               (if length (context_stack tc) < memory_context_depth cfg - 1
                then context_stack tc @ [i] else context_stack tc)"
      by blast
    from Cons.IH [OF v1] p s1 Push show ?thesis by simp
  next
    case Pop
    from context_pop_step [OF Cons.prems] Cons.IH [of "memory_context_pop tc"] Pop
    show ?thesis by simp
  qed
qed

text \<open>
  C5: with a configured depth between 1 and \<open>2 ^ 32\<close>, every sequence of pushes and
  pops on a thread (starting from the thread that never pushed) runs without a write
  outside the \<open>memory_context_depth\<close> slots of the block; the depth never exceeds
  \<open>memory_context_depth - 1\<close> and equals the number of identifiers on the stack of
  successful pushes (a push at the saturated depth only overwrites the top slot and
  pushes nothing); and \<^verbatim>\<open>memory_context()\<close> returns the last identifier on that
  stack, or 0 when it is empty.
\<close>

theorem context_stack_saturates:
  assumes "context_depth_ok cfg"
  shows "\<exists>tc'. context_run cfg ops None = Inr tc'
           \<and> context_depth tc' \<le> memory_context_depth cfg - 1
           \<and> context_depth tc' = length (pushed_ids (memory_context_depth cfg) ops [])
           \<and> memory_context tc' =
               (if pushed_ids (memory_context_depth cfg) ops [] = [] then 0
                else last (pushed_ids (memory_context_depth cfg) ops []))"
proof -
  have v0: "context_valid cfg None" by (simp add: context_valid_def)
  from context_run_refines [OF assms v0, of ops] obtain tc' where
    r: "context_run cfg ops None = Inr tc'" and v: "context_valid cfg tc'"
    and s: "context_stack tc' = pushed_ids (memory_context_depth cfg) ops []"
    by (auto simp: context_stack_def)
  have "length (pushed_ids (memory_context_depth cfg) ops []) \<le> memory_context_depth cfg - 1"
    by (rule pushed_ids_length) simp
  with r s context_depth_stack [OF v] context_current [OF v] show ?thesis by simp
qed

theorem context_stack_saturates_witness:
  "context_depth_ok linux64
   \<and> (\<exists>tc'. context_run linux64 [Push 1, Push 2, Pop, Push 3, Push 4, Push 5, Push 6] None = Inr tc'
        \<and> context_depth tc' = 3 \<and> memory_context tc' = 4)"
proof -
  have ok: "context_depth_ok linux64" by (simp add: context_depth_ok_def linux64_def)
  have d: "memory_context_depth linux64 = 4" by (simp add: linux64_def)
  have p: "pushed_ids 4 [Push 1, Push 2, Pop, Push 3, Push 4, Push 5, Push 6] [] = [1, 3, 4]"
    by simp
  from context_stack_saturates [OF ok, of "[Push 1, Push 2, Pop, Push 3, Push 4, Push 5, Push 6]"]
  show ?thesis using ok unfolding d p by auto
qed

section \<open>Facts about stored words and the guard-band codec\<close>

lemma store_le_outside: "b < a \<or> a + n \<le> b \<Longrightarrow> store_le a n v h b = h b"
  by (induction a n v h rule: store_le.induct) auto

lemma load_le_cong:
  "(\<And>b. a \<le> b \<Longrightarrow> b < a + n \<Longrightarrow> h b = h' b) \<Longrightarrow> load_le a n h = load_le a n h'"
  by (induction a n h rule: load_le.induct) auto

lemma load_store_le: "load_le a n (store_le a n v h) = v mod 256 ^ n"
proof (induction n arbitrary: a v h)
  case 0
  show ?case by simp
next
  case (Suc n)
  have byte: "store_le (a + 1) n (v div 256) (h(a := of_nat (v mod 256))) a
                = (of_nat (v mod 256) :: 8 word)"
    by (simp add: store_le_outside)
  have u: "unat (of_nat (v mod 256) :: 8 word) = v mod 256"
    by (simp add: unat_of_nat)
  have "v mod (256 * 256 ^ n) = 256 * (v div 256 mod 256 ^ n) + v mod 256"
    by (rule mod_mult2_eq)
  with Suc [of "a + 1" "v div 256"] byte u show ?case by simp
qed

lemma guard_fill_outside:
  "(b < gh \<or> gh + 4 * n \<le> b) \<Longrightarrow> (b < gf \<or> gf + 4 * n \<le> b)
     \<Longrightarrow> guard_fill gh gf n h b = h b"
proof (induction gh gf n h rule: guard_fill.induct)
  case (1 gh gf h)
  show ?case by simp
next
  case (2 gh gf n h)
  have "guard_fill (gh + 4) (gf + 4) n
          (store_le gf 4 MEMORY_GUARD_VALUE (store_le gh 4 MEMORY_GUARD_VALUE h)) b
        = store_le gf 4 MEMORY_GUARD_VALUE (store_le gh 4 MEMORY_GUARD_VALUE h) b"
    by (rule "2.IH") (use "2.prems" in auto)
  also have "\<dots> = store_le gh 4 MEMORY_GUARD_VALUE h b"
    by (rule store_le_outside) (use "2.prems" in auto)
  also have "\<dots> = h b"
    by (rule store_le_outside) (use "2.prems" in auto)
  finally show ?case by simp
qed

lemma guard_value_word: "MEMORY_GUARD_VALUE mod 256 ^ 4 = MEMORY_GUARD_VALUE"
  by (simp add: MEMORY_GUARD_VALUE_def)

lemma guard_fill_words:
  "gh + 4 * n \<le> gf \<Longrightarrow> k < n \<Longrightarrow>
     load_le (gh + 4 * k) 4 (guard_fill gh gf n h) = MEMORY_GUARD_VALUE
     \<and> load_le (gf + 4 * k) 4 (guard_fill gh gf n h) = MEMORY_GUARD_VALUE"
proof (induction gh gf n h arbitrary: k rule: guard_fill.induct)
  case (1 gh gf h)
  then show ?case by simp
next
  case (2 gh gf n h)
  let ?h1 = "store_le gh 4 MEMORY_GUARD_VALUE h"
  let ?h2 = "store_le gf 4 MEMORY_GUARD_VALUE ?h1"
  show ?case
  proof (cases k)
    case 0
    have hd: "load_le gh 4 (guard_fill (gh + 4) (gf + 4) n ?h2) = load_le gh 4 ?h1"
    proof (rule load_le_cong)
      fix b assume b: "gh \<le> b" "b < gh + 4"
      have "guard_fill (gh + 4) (gf + 4) n ?h2 b = ?h2 b"
        by (rule guard_fill_outside) (use b "2.prems" in auto)
      also have "\<dots> = ?h1 b"
        by (rule store_le_outside) (use b "2.prems" in auto)
      finally show "guard_fill (gh + 4) (gf + 4) n ?h2 b = ?h1 b" .
    qed
    have ft: "load_le gf 4 (guard_fill (gh + 4) (gf + 4) n ?h2) = load_le gf 4 ?h2"
    proof (rule load_le_cong)
      fix b assume b: "gf \<le> b" "b < gf + 4"
      show "guard_fill (gh + 4) (gf + 4) n ?h2 b = ?h2 b"
        by (rule guard_fill_outside) (use b "2.prems" in auto)
    qed
    have l1: "load_le gh 4 ?h1 = MEMORY_GUARD_VALUE"
      unfolding load_store_le by (rule guard_value_word)
    have l2: "load_le gf 4 ?h2 = MEMORY_GUARD_VALUE"
      unfolding load_store_le by (rule guard_value_word)
    from hd ft l1 l2 0 show ?thesis by simp
  next
    case (Suc j)
    have "load_le (gh + 4 + 4 * j) 4 (guard_fill (gh + 4) (gf + 4) n ?h2) = MEMORY_GUARD_VALUE
        \<and> load_le (gf + 4 + 4 * j) 4 (guard_fill (gh + 4) (gf + 4) n ?h2) = MEMORY_GUARD_VALUE"
      by (rule "2.IH") (use Suc "2.prems" in auto)
    with Suc show ?thesis by (simp add: add.assoc)
  qed
qed

lemma guard_check_ok:
  "(\<And>k. k < n \<Longrightarrow> load_le (gh + 4 * k) 4 h = MEMORY_GUARD_VALUE
                    \<and> load_le (gf + 4 * k) 4 h = MEMORY_GUARD_VALUE)
     \<Longrightarrow> guard_check gh gf n h = []"
proof (induction gh gf n h rule: guard_check.induct)
  case (1 gh gf h)
  show ?case by simp
next
  case (2 gh gf n h)
  have first: "load_le gh 4 h = MEMORY_GUARD_VALUE \<and> load_le gf 4 h = MEMORY_GUARD_VALUE"
    using "2.prems" [of 0] by simp
  have rest: "guard_check (gh + 4) (gf + 4) n h = []"
  proof (rule "2.IH")
    fix k assume "k < n"
    then show "load_le (gh + 4 + 4 * k) 4 h = MEMORY_GUARD_VALUE
             \<and> load_le (gf + 4 + 4 * k) 4 h = MEMORY_GUARD_VALUE"
      using "2.prems" [of "Suc k"] by (simp add: add.assoc)
  qed
  from first rest show ?case by simp
qed

lemma max_align_words: "4 * (FOUNDATION_MAX_ALIGN cfg div 4) = FOUNDATION_MAX_ALIGN cfg"
  by (simp add: FOUNDATION_MAX_ALIGN_def)

lemma pointer_le_max_align: "pointer_size_ok cfg \<Longrightarrow> size_pointer cfg \<le> FOUNDATION_MAX_ALIGN cfg"
  by (auto simp: pointer_size_ok_def FOUNDATION_MAX_ALIGN_def)

lemma size_word_range: "(256::nat) ^ n = 2 ^ (8 * n)"
  by (simp add: power_mult)

lemma guard_initialize_result:
  assumes ok: "pointer_size_ok cfg"
    and fits: "block + sz + 3 * FOUNDATION_MAX_ALIGN cfg \<le> 2 ^ (8 * size_pointer cfg)"
  shows "memory_guard_initialize cfg block sz h =
           (block + 2 * FOUNDATION_MAX_ALIGN cfg,
            guard_fill (block + FOUNDATION_MAX_ALIGN cfg)
              (block + sz + 2 * FOUNDATION_MAX_ALIGN cfg) (FOUNDATION_MAX_ALIGN cfg div 4)
              (store_le block (size_pointer cfg) sz h))"
proof -
  have "0 < FOUNDATION_MAX_ALIGN cfg" by (simp add: FOUNDATION_MAX_ALIGN_def)
  with fits have "sz + FOUNDATION_MAX_ALIGN cfg * 2 < 2 ^ (8 * size_pointer cfg)" by simp
  then have "size_wrap cfg (sz + FOUNDATION_MAX_ALIGN cfg * 2) = sz + FOUNDATION_MAX_ALIGN cfg * 2"
    by (simp add: size_wrap_def)
  then show ?thesis
    by (simp add: memory_guard_initialize_def Let_def add.assoc mult.commute)
qed

text \<open>
  C6: for a block that lies within the address space, guard-initialize returns
  \<open>block + 2 * MAX_ALIGN\<close>, leaves \<open>sz\<close> readable in the size word at the block's
  start and the canary \<open>0xDEADBEEF\<close> in every 32-bit word of the \<open>MAX_ALIGN\<close> bytes at
  \<open>block + MAX_ALIGN\<close> and of the \<open>MAX_ALIGN\<close> bytes at \<open>block + sz + 2 * MAX_ALIGN\<close>,
  and changes no other byte; guard-verify of that payload, in any memory that agrees
  with the initialized one on the size word and the two bands, raises no assertion and
  returns the block.
\<close>

theorem guard_round_trip:
  assumes ok: "pointer_size_ok cfg"
    and fits: "block + sz + 3 * FOUNDATION_MAX_ALIGN cfg \<le> 2 ^ (8 * size_pointer cfg)"
    and init: "memory_guard_initialize cfg block sz h = (payload, h')"
  shows "payload = block + 2 * FOUNDATION_MAX_ALIGN cfg
     \<and> load_le block (size_pointer cfg) h' = sz
     \<and> (\<forall>k. k < FOUNDATION_MAX_ALIGN cfg div 4 \<longrightarrow>
            load_le (block + FOUNDATION_MAX_ALIGN cfg + 4 * k) 4 h' = MEMORY_GUARD_VALUE
          \<and> load_le (block + sz + 2 * FOUNDATION_MAX_ALIGN cfg + 4 * k) 4 h' = MEMORY_GUARD_VALUE)
     \<and> (\<forall>a. \<not> guard_bytes cfg block sz a \<longrightarrow> h' a = h a)
     \<and> (\<forall>h''. (\<forall>a. guard_bytes cfg block sz a \<longrightarrow> h'' a = h' a) \<longrightarrow>
            memory_guard_verify cfg payload h'' = ([], block))"
proof -
  let ?M = "FOUNDATION_MAX_ALIGN cfg"
  let ?W = "size_pointer cfg"
  let ?gh = "block + ?M"
  let ?gf = "block + sz + 2 * ?M"
  let ?n = "?M div 4"
  let ?h1 = "store_le block ?W sz h"
  from init guard_initialize_result [OF ok fits, of h]
  have pay: "payload = block + 2 * ?M" and h': "h' = guard_fill ?gh ?gf ?n ?h1"
    by simp_all
  have n4: "4 * ?n = ?M" by (rule max_align_words)
  have WM: "?W \<le> ?M" by (rule pointer_le_max_align [OF ok])
  have Mpos: "0 < ?M" by (simp add: FOUNDATION_MAX_ALIGN_def)
  have szlt: "sz < 256 ^ ?W" using fits Mpos by (simp add: size_word_range)
  have size_h': "load_le block ?W h' = sz"
  proof -
    have "load_le block ?W h' = load_le block ?W ?h1"
    proof (rule load_le_cong)
      fix b assume b: "block \<le> b" "b < block + ?W"
      show "h' b = ?h1 b" unfolding h'
        by (rule guard_fill_outside) (use b WM in auto)
    qed
    also have "\<dots> = sz mod 256 ^ ?W" by (rule load_store_le)
    finally show ?thesis using szlt by simp
  qed
  have words: "load_le (?gh + 4 * k) 4 h' = MEMORY_GUARD_VALUE
             \<and> load_le (?gf + 4 * k) 4 h' = MEMORY_GUARD_VALUE" if "k < ?n" for k
    unfolding h' by (rule guard_fill_words) (use that n4 in auto)
  have frame: "h' a = h a" if na: "\<not> guard_bytes cfg block sz a" for a
  proof -
    have "h' a = ?h1 a" unfolding h'
      by (rule guard_fill_outside) (use na n4 in \<open>auto simp: guard_bytes_def\<close>)
    also have "\<dots> = h a"
      by (rule store_le_outside) (use na in \<open>auto simp: guard_bytes_def\<close>)
    finally show ?thesis .
  qed
  have verify: "memory_guard_verify cfg payload h'' = ([], block)"
    if agree: "\<forall>a. guard_bytes cfg block sz a \<longrightarrow> h'' a = h' a" for h''
  proof -
    have s: "load_le block ?W h'' = sz"
    proof -
      have "load_le block ?W h'' = load_le block ?W h'"
        by (rule load_le_cong) (use agree in \<open>auto simp: guard_bytes_def\<close>)
      with size_h' show ?thesis by simp
    qed
    have chk: "guard_check ?gh ?gf ?n h'' = []"
    proof (rule guard_check_ok)
      fix k assume k: "k < ?n"
      then have k4: "4 * k + 4 \<le> ?M" using n4 by linarith
      have "load_le (?gh + 4 * k) 4 h'' = load_le (?gh + 4 * k) 4 h'"
        by (rule load_le_cong) (use agree k4 in \<open>auto simp: guard_bytes_def\<close>)
      moreover have "load_le (?gf + 4 * k) 4 h'' = load_le (?gf + 4 * k) 4 h'"
        by (rule load_le_cong) (use agree k4 in \<open>auto simp: guard_bytes_def\<close>)
      ultimately show "load_le (?gh + 4 * k) 4 h'' = MEMORY_GUARD_VALUE
                     \<and> load_le (?gf + 4 * k) 4 h'' = MEMORY_GUARD_VALUE"
        using words [OF k] by simp
    qed
    have p1: "payload - ?M * 2 = block" and p2: "payload - ?M = ?gh"
      and p3: "payload + sz = ?gf"
      using pay by simp_all
    show ?thesis
      unfolding memory_guard_verify_def Let_def p1 p2 s p3
      using chk by simp
  qed
  from pay size_h' words frame verify show ?thesis by blast
qed

theorem guard_round_trip_witness:
  "pointer_size_ok linux64
   \<and> (1000::nat) + 5 + 3 * FOUNDATION_MAX_ALIGN linux64 \<le> 2 ^ (8 * size_pointer linux64)
   \<and> fst (memory_guard_initialize linux64 1000 5 (\<lambda>a. 0)) = 1032
   \<and> load_le 1000 8 (snd (memory_guard_initialize linux64 1000 5 (\<lambda>a. 0))) = 5
   \<and> memory_guard_verify linux64 1032 (snd (memory_guard_initialize linux64 1000 5 (\<lambda>a. 0)))
        = ([], 1000)"
proof -
  let ?r = "memory_guard_initialize linux64 1000 5 (\<lambda>a. 0)"
  have ok: "pointer_size_ok linux64" by (simp add: linux64_def pointer_size_ok_def)
  have M: "FOUNDATION_MAX_ALIGN linux64 = 16" by (simp add: linux64_def FOUNDATION_MAX_ALIGN_def)
  have W: "size_pointer linux64 = 8" by (simp add: linux64_def)
  have fits: "(1000::nat) + 5 + 3 * FOUNDATION_MAX_ALIGN linux64 \<le> 2 ^ (8 * size_pointer linux64)"
    unfolding M W by simp
  have init: "?r = (fst ?r, snd ?r)" by simp
  from guard_round_trip [OF ok fits init]
  have p: "fst ?r = 1000 + 2 * FOUNDATION_MAX_ALIGN linux64"
    and s: "load_le 1000 (size_pointer linux64) (snd ?r) = 5"
    and v: "\<forall>h''. (\<forall>a. guard_bytes linux64 1000 5 a \<longrightarrow> h'' a = snd ?r a) \<longrightarrow>
              memory_guard_verify linux64 (fst ?r) h'' = ([], 1000)"
    by blast+
  from p have p': "fst ?r = 1032" unfolding M by simp
  from v have "memory_guard_verify linux64 (fst ?r) (snd ?r) = ([], 1000)" by blast
  with p' s ok fits show ?thesis unfolding W by simp
qed

section \<open>Facts about the local tracker\<close>

lemma wrap_s32_id: "- (2 ^ 31) \<le> x \<Longrightarrow> x < 2 ^ 31 \<Longrightarrow> wrap_s32 x = x"
  by (simp add: wrap_s32_def)

lemma wrap_s64_id: "- (2 ^ 63) \<le> x \<Longrightarrow> x < 2 ^ 63 \<Longrightarrow> wrap_s64 x = x"
  by (simp add: wrap_s64_def)

lemma tracker_max32_id:
  "memory_tracker_max cfg < 2 ^ 31 \<Longrightarrow> tracker_max32 cfg = int (memory_tracker_max cfg)"
  by (simp add: tracker_max32_def wrap_s32_id)

lemma c_rem_nonneg: "0 \<le> a \<Longrightarrow> 0 < b \<Longrightarrow> c_rem a b = a mod b"
  by (cases "a = 0") (simp_all add: c_rem_def)

lemma wrap_tag_fetch:
  assumes m: "0 < m" "m < 2 ^ 31" and n: "0 \<le> n" "n \<le> m"
  shows "wrap_tag m n (wrap_s32 (n + 1)) = Some (n mod m, n mod m + 1)"
proof (cases "n < m")
  case True
  then have "wrap_s32 (n + 1) = n + 1" using m n by (simp add: wrap_s32_id)
  with True n show ?thesis by (simp add: wrap_tag.simps [of m n])
next
  case False
  with n have nm: "n = m" by simp
  have r: "c_rem m m = 0" using m by (simp add: c_rem_nonneg)
  have one: "wrap_s32 (0 + 1) = 1" by (simp add: wrap_s32_def)
  have "wrap_tag m m (wrap_s32 (m + 1)) = wrap_tag m 0 1"
    using m r one by (simp add: wrap_tag.simps [of m m])
  also have "\<dots> = Some (0, 1)" using m by (simp add: wrap_tag.simps [of m 0])
  finally show ?thesis using nm by simp
qed

lemma track_loop_step:
  assumes ok: "tracker_ok cfg s" and ini: "memory_tracker_initialized s"
  shows "\<exists>t. 0 \<le> t \<and> nat t < memory_tracker_max cfg
           \<and> tracker_ok cfg (s\<lparr>memory_tag_next := t + 1\<rparr>)
           \<and> track_loop cfg addr sz limit loop s =
               (if address (memory_tags_data s ! nat t) = 0 then
                  Some (s\<lparr>memory_tag_next := t + 1,
                          memory_tags_data := (memory_tags_data s)
                            [nat t := (memory_tags_data s ! nat t)\<lparr>address := addr, tag_size := sz\<rparr>]\<rparr>)
                else if Suc loop < limit
                     then track_loop cfg addr sz limit (Suc loop) (s\<lparr>memory_tag_next := t + 1\<rparr>)
                     else Some (s\<lparr>memory_tag_next := t + 1\<rparr>))"
proof -
  let ?m = "int (memory_tracker_max cfg)"
  let ?n = "memory_tag_next s"
  let ?t = "?n mod ?m"
  from ok have m: "0 < ?m" "?m < 2 ^ 31" and n: "0 \<le> ?n" "?n \<le> ?m"
    and mx: "memory_tracker_max cfg < 2 ^ 31"
    by (simp_all add: tracker_ok_def)
  from ok ini have tg: "memory_tags s \<noteq> 0" "length (memory_tags_data s) = memory_tracker_max cfg"
    by (simp_all add: tracker_ok_def)
  have w: "wrap_tag (tracker_max32 cfg) ?n (wrap_s32 (?n + 1)) = Some (?t, ?t + 1)"
    unfolding tracker_max32_id [OF mx] by (rule wrap_tag_fetch [OF m n])
  have t0: "0 \<le> ?t" and tm: "?t < ?m" using m by simp_all
  then have tn: "nat ?t < memory_tracker_max cfg" by linarith
  have valid: "tag_valid (s\<lparr>memory_tag_next := ?t + 1\<rparr>) ?t"
    using tg t0 tn by (simp add: tag_valid_def)
  have ok': "tracker_ok cfg (s\<lparr>memory_tag_next := ?t + 1\<rparr>)"
    using ok t0 tm by (simp add: tracker_ok_def)
  have "track_loop cfg addr sz limit loop s =
          (if address (memory_tags_data s ! nat ?t) = 0 then
             Some (s\<lparr>memory_tag_next := ?t + 1,
                     memory_tags_data := (memory_tags_data s)
                       [nat ?t := (memory_tags_data s ! nat ?t)\<lparr>address := addr, tag_size := sz\<rparr>]\<rparr>)
           else if Suc loop < limit
                then track_loop cfg addr sz limit (Suc loop) (s\<lparr>memory_tag_next := ?t + 1\<rparr>)
                else Some (s\<lparr>memory_tag_next := ?t + 1\<rparr>))"
    using valid by (simp add: track_loop.simps [of cfg addr sz limit loop s] w Let_def)
  with t0 tn ok' show ?thesis by blast
qed

text \<open>Every run of the slot-claim loop ends; it changes the cursor and the tag table only.\<close>

lemma track_loop_frame:
  "tracker_ok cfg s \<Longrightarrow> memory_tracker_initialized s \<Longrightarrow>
   \<exists>n d. track_loop cfg addr sz limit loop s
            = Some (s\<lparr>memory_tag_next := n, memory_tags_data := d\<rparr>)
        \<and> tracker_ok cfg (s\<lparr>memory_tag_next := n, memory_tags_data := d\<rparr>)
        \<and> length d = length (memory_tags_data s)
        \<and> (tags_full s \<longrightarrow> d = memory_tags_data s)"
proof (induction "limit - loop" arbitrary: loop s)
  case 0
  from track_loop_step [OF "0.prems", of addr sz limit loop] obtain t where
    t: "0 \<le> t" "nat t < memory_tracker_max cfg"
    and ok': "tracker_ok cfg (s\<lparr>memory_tag_next := t + 1\<rparr>)"
    and eq: "track_loop cfg addr sz limit loop s =
               (if address (memory_tags_data s ! nat t) = 0 then
                  Some (s\<lparr>memory_tag_next := t + 1,
                          memory_tags_data := (memory_tags_data s)
                            [nat t := (memory_tags_data s ! nat t)\<lparr>address := addr, tag_size := sz\<rparr>]\<rparr>)
                else if Suc loop < limit
                     then track_loop cfg addr sz limit (Suc loop) (s\<lparr>memory_tag_next := t + 1\<rparr>)
                     else Some (s\<lparr>memory_tag_next := t + 1\<rparr>))"
    by blast
  have len: "length (memory_tags_data s) = memory_tracker_max cfg"
    using "0.prems" by (simp add: tracker_ok_def)
  have nolim: "\<not> Suc loop < limit" using "0.hyps" by simp
  show ?case
  proof (cases "address (memory_tags_data s ! nat t) = 0")
    case True
    let ?d = "(memory_tags_data s)
                [nat t := (memory_tags_data s ! nat t)\<lparr>address := addr, tag_size := sz\<rparr>]"
    have nf: "\<not> tags_full s" using True t len by (auto simp: tags_full_def list_all_length)
    have "tracker_ok cfg (s\<lparr>memory_tag_next := t + 1, memory_tags_data := ?d\<rparr>)"
      using ok' by (simp add: tracker_ok_def)
    with eq True nf show ?thesis by (intro exI [of _ "t + 1"] exI [of _ ?d]) simp
  next
    case False
    have "s\<lparr>memory_tag_next := t + 1\<rparr>
            = s\<lparr>memory_tag_next := t + 1, memory_tags_data := memory_tags_data s\<rparr>" by simp
    with eq False nolim ok' show ?thesis
      by (intro exI [of _ "t + 1"] exI [of _ "memory_tags_data s"]) simp
  qed
next
  case (Suc k)
  from track_loop_step [OF Suc.prems, of addr sz limit loop] obtain t where
    t: "0 \<le> t" "nat t < memory_tracker_max cfg"
    and ok': "tracker_ok cfg (s\<lparr>memory_tag_next := t + 1\<rparr>)"
    and eq: "track_loop cfg addr sz limit loop s =
               (if address (memory_tags_data s ! nat t) = 0 then
                  Some (s\<lparr>memory_tag_next := t + 1,
                          memory_tags_data := (memory_tags_data s)
                            [nat t := (memory_tags_data s ! nat t)\<lparr>address := addr, tag_size := sz\<rparr>]\<rparr>)
                else if Suc loop < limit
                     then track_loop cfg addr sz limit (Suc loop) (s\<lparr>memory_tag_next := t + 1\<rparr>)
                     else Some (s\<lparr>memory_tag_next := t + 1\<rparr>))"
    by blast
  have len: "length (memory_tags_data s) = memory_tracker_max cfg"
    using Suc.prems by (simp add: tracker_ok_def)
  show ?case
  proof (cases "address (memory_tags_data s ! nat t) = 0")
    case True
    let ?d = "(memory_tags_data s)
                [nat t := (memory_tags_data s ! nat t)\<lparr>address := addr, tag_size := sz\<rparr>]"
    have nf: "\<not> tags_full s" using True t len by (auto simp: tags_full_def list_all_length)
    have "tracker_ok cfg (s\<lparr>memory_tag_next := t + 1, memory_tags_data := ?d\<rparr>)"
      using ok' by (simp add: tracker_ok_def)
    with eq True nf show ?thesis by (intro exI [of _ "t + 1"] exI [of _ ?d]) simp
  next
    case False
    show ?thesis
    proof (cases "Suc loop < limit")
      case True
      let ?s1 = "s\<lparr>memory_tag_next := t + 1\<rparr>"
      have k: "k = limit - Suc loop" using Suc.hyps(2) by simp
      have ini1: "memory_tracker_initialized ?s1" using Suc.prems(2) by simp
      from Suc.hyps(1) [OF k ok' ini1] obtain n d where
        r: "track_loop cfg addr sz limit (Suc loop) ?s1
              = Some (?s1\<lparr>memory_tag_next := n, memory_tags_data := d\<rparr>)"
        and okr: "tracker_ok cfg (?s1\<lparr>memory_tag_next := n, memory_tags_data := d\<rparr>)"
        and lr: "length d = length (memory_tags_data ?s1)"
        and fr: "tags_full ?s1 \<longrightarrow> d = memory_tags_data ?s1"
        by blast
      have full_eq: "tags_full ?s1 = tags_full s" by (simp add: tags_full_def)
      from eq False True r okr lr fr full_eq show ?thesis
        by (intro exI [of _ n] exI [of _ d]) simp
    next
      case nolim: False
      have "s\<lparr>memory_tag_next := t + 1\<rparr>
              = s\<lparr>memory_tag_next := t + 1, memory_tags_data := memory_tags_data s\<rparr>" by simp
      with eq False nolim ok' show ?thesis
        by (intro exI [of _ "t + 1"] exI [of _ "memory_tags_data s"]) simp
    qed
  qed
qed

lemma track_result:
  assumes ok: "tracker_ok cfg s" and ini: "memory_tracker_initialized s" and a: "addr \<noteq> 0"
  shows "\<exists>n d. memory_tracker_track cfg addr sz s
            = Some (s\<lparr>memory_tag_next := n, memory_tags_data := d,
                      memory_stats := (if memory_statistics cfg
                                       then stats_allocated sz (memory_stats s)
                                       else memory_stats s)\<rparr>)
        \<and> tracker_ok cfg (s\<lparr>memory_tag_next := n, memory_tags_data := d\<rparr>)
        \<and> length d = length (memory_tags_data s)
        \<and> (tags_full s \<longrightarrow> d = memory_tags_data s)"
proof -
  from track_loop_frame [OF ok ini, of addr sz "size_wrap cfg (memory_tracker_max cfg * 2)" 0]
  obtain n d where
    r: "track_loop cfg addr sz (size_wrap cfg (memory_tracker_max cfg * 2)) 0 s
          = Some (s\<lparr>memory_tag_next := n, memory_tags_data := d\<rparr>)"
    and rest: "tracker_ok cfg (s\<lparr>memory_tag_next := n, memory_tags_data := d\<rparr>)"
      "length d = length (memory_tags_data s)" "tags_full s \<longrightarrow> d = memory_tags_data s"
    by blast
  have "memory_tracker_track cfg addr sz s
          = Some (s\<lparr>memory_tag_next := n, memory_tags_data := d,
                    memory_stats := (if memory_statistics cfg
                                     then stats_allocated sz (memory_stats s)
                                     else memory_stats s)\<rparr>)"
    using a ini r by (simp add: memory_tracker_track_def)
  with rest show ?thesis by blast
qed




section \<open>Facts about the allocator facade\<close>

lemma align_pointer_bounds:
  assumes "0 < a" and "q \<noteq> 0"
  shows "q \<le> memory_align_pointer q a \<and> memory_align_pointer q a < q + a
         \<and> memory_align_pointer q a mod a = 0"
proof (cases "q mod a = 0")
  case True
  with assms show ?thesis by (simp add: memory_align_pointer_def)
next
  case False
  have lt: "q mod a < a" using assms(1) by simp
  have le: "q mod a \<le> q" by (rule mod_less_eq_dividend)
  have pos: "0 < q mod a" using False by simp
  have val: "memory_align_pointer q a = q - q mod a + a"
    using False assms by (simp add: memory_align_pointer_def)
  have "q - q mod a = a * (q div a)" by (simp add: minus_mod_eq_mult_div)
  then have m: "(q - q mod a + a) mod a = 0" by simp
  have lo: "q \<le> q - q mod a + a" using lt le by linarith
  have hi: "q - q mod a + a < q + a" using pos le by linarith
  from val m lo hi show ?thesis by simp
qed

lemma forced_align_ge: "size_pointer cfg \<le> memory_get_align_forced cfg a"
  by (simp add: memory_get_align_forced_def Let_def)

lemma memory_track_frame:
  assumes tr: "track_ready cfg s"
  shows "\<exists>s'. memory_track cfg a sz s = Some s'
           \<and> memory_temporary s' = memory_temporary s
           \<and> heap (world s') = heap (world s)
           \<and> memory_tracker s' = memory_tracker s
           \<and> memory_system s' = memory_system s
           \<and> track_ready cfg s'"
proof (cases "track (memory_tracker s)")
  case None
  with tr show ?thesis by (simp add: memory_track_def)
next
  case (Some f)
  show ?thesis
  proof (cases f)
    case (User_track n)
    with Some tr show ?thesis
      by (simp add: memory_track_def log_event_def track_ready_def)
  next
    case Local_track
    with Some tr have ok: "tracker_ok cfg s" by (simp add: track_ready_def)
    show ?thesis
    proof (cases "a \<noteq> 0 \<and> memory_tracker_initialized s")
      case False
      with Some Local_track tr show ?thesis
        by (auto simp: memory_track_def memory_tracker_track_def)
    next
      case True
      then have a: "a \<noteq> 0" and ini: "memory_tracker_initialized s" by simp_all
      from track_result [OF ok ini a, of sz] obtain n d where
        r: "memory_tracker_track cfg a sz s
              = Some (s\<lparr>memory_tag_next := n, memory_tags_data := d,
                        memory_stats := (if memory_statistics cfg
                                         then stats_allocated sz (memory_stats s)
                                         else memory_stats s)\<rparr>)"
        and ok': "tracker_ok cfg (s\<lparr>memory_tag_next := n, memory_tags_data := d\<rparr>)"
        by blast
      from ok' have "tracker_ok cfg (s\<lparr>memory_tag_next := n, memory_tags_data := d,
                        memory_stats := (if memory_statistics cfg
                                         then stats_allocated sz (memory_stats s)
                                         else memory_stats s)\<rparr>)"
        by (simp add: tracker_ok_def)
      with r Some Local_track show ?thesis
        by (simp add: memory_track_def track_ready_def)
    qed
  qed
qed

lemma arena_allocate:
  assumes live: "storage (memory_temporary s) \<noteq> 0"
    and tmp: "hint AND MEMORY_TEMPORARY \<noteq> 0"
    and fit: "sz + memory_get_align_forced cfg align < maxchunk (memory_temporary s)"
    and ps: "pointer_size_ok cfg"
    and ar: "arena_ok cfg s"
    and tr: "track_ready cfg s"
  shows "\<exists>s'. memory_allocate cfg ctx sz align hint s
                 = Some (arena_pointer cfg sz align (memory_temporary s), s')
           \<and> heap (world s') =
               (if hint AND MEMORY_ZERO_INITIALIZED \<noteq> 0
                then memset (arena_pointer cfg sz align (memory_temporary s)) 0 sz (heap (world s))
                else heap (world s))
           \<and> storage (memory_temporary s') = storage (memory_temporary s)
           \<and> arena_end (memory_temporary s') = arena_end (memory_temporary s)
           \<and> maxchunk (memory_temporary s') = maxchunk (memory_temporary s)
           \<and> memory_tracker s' = memory_tracker s
           \<and> memory_system s' = memory_system s
           \<and> arena_ok cfg s' \<and> track_ready cfg s'"
    and "storage (memory_temporary s) + 8 \<le> arena_pointer cfg sz align (memory_temporary s)"
    and "arena_pointer cfg sz align (memory_temporary s) + sz < arena_end (memory_temporary s)"
    and "arena_pointer cfg sz align (memory_temporary s) mod memory_get_align_forced cfg align = 0"
proof -
  let ?t = "memory_temporary s"
  let ?al = "memory_get_align_forced cfg align"
  let ?chunk = "sz + ?al"
  let ?q = "if head ?t + ?chunk > arena_end ?t then storage ?t + 8 else head ?t"
  let ?p = "arena_pointer cfg sz align ?t"
  from ar have e: "arena_end ?t = storage ?t + arena_size ?t"
    and mc: "maxchunk ?t = arena_size ?t div 8"
    and hd: "storage ?t + 8 \<le> head ?t"
    and sm: "arena_size ?t < 2 ^ (8 * size_pointer cfg)"
    by (simp_all add: arena_ok_def)
  have alpos: "0 < ?al" using forced_align_ge [of cfg align] ps
    by (auto simp: pointer_size_ok_def)
  have c8: "8 * ?chunk + 8 \<le> arena_size ?t" using fit mc by simp
  have wrap: "size_wrap cfg ?chunk = ?chunk" using c8 sm by (simp add: size_wrap_def)
  have q8: "storage ?t + 8 \<le> ?q" using hd by simp
  have qe: "?q + ?chunk \<le> arena_end ?t" using e c8 by auto
  have q0: "?q \<noteq> 0" using q8 by auto
  have pdef: "?p = memory_align_pointer ?q ?al" by (simp add: arena_pointer_def)
  from align_pointer_bounds [OF alpos q0] pdef
  have pq: "?q \<le> ?p" and pl: "?p < ?q + ?al" and pm: "?p mod ?al = 0" by simp_all
  show "storage ?t + 8 \<le> ?p" using q8 pq by linarith
  show "?p + sz < arena_end ?t" using pl qe by linarith
  show "?p mod ?al = 0" by (rule pm)
  have p0: "?p \<noteq> 0" using q8 pq by auto
  let ?s1 = "s\<lparr>memory_temporary := ?t\<lparr>head := ?q + ?chunk\<rparr>\<rparr>"
  let ?s2 = "if hint AND MEMORY_ZERO_INITIALIZED \<noteq> 0
             then ?s1\<lparr>world := (world ?s1)\<lparr>heap := memset ?p 0 sz (heap (world ?s1))\<rparr>\<rparr>
             else ?s1"
  have lin: "atomic_allocate_linear ?chunk s = (?q, ?s1)"
    by (simp add: atomic_allocate_linear_def Let_def)
  have alloc: "memory_allocate cfg ctx sz align hint s
                 = map_option (Pair ?p) (memory_track cfg ?p sz ?s2)"
    using live tmp fit p0
    by (simp add: memory_allocate_def wrap lin pdef [symmetric] Let_def)
  have tr2: "track_ready cfg ?s2" using tr by (simp add: track_ready_def tracker_ok_def)
  from memory_track_frame [OF tr2, of ?p sz] obtain s' where
    t: "memory_track cfg ?p sz ?s2 = Some s'"
    and f: "memory_temporary s' = memory_temporary ?s2" "heap (world s') = heap (world ?s2)"
      "memory_tracker s' = memory_tracker ?s2" "memory_system s' = memory_system ?s2"
      "track_ready cfg s'"
    by blast
  have ar': "arena_ok cfg s'" using f(1) ar q8 by (simp add: arena_ok_def)
  from alloc t f ar'
  show "\<exists>s'. memory_allocate cfg ctx sz align hint s = Some (?p, s')
           \<and> heap (world s') =
               (if hint AND MEMORY_ZERO_INITIALIZED \<noteq> 0
                then memset ?p 0 sz (heap (world s)) else heap (world s))
           \<and> storage (memory_temporary s') = storage ?t
           \<and> arena_end (memory_temporary s') = arena_end ?t
           \<and> maxchunk (memory_temporary s') = maxchunk ?t
           \<and> memory_tracker s' = memory_tracker s
           \<and> memory_system s' = memory_system s
           \<and> arena_ok cfg s' \<and> track_ready cfg s'"
    by (intro exI [of _ s']) simp
qed

lemma forced_align_linux64_zero: "memory_get_align_forced linux64 0 = 8"
  by (simp add: memory_get_align_forced_def memory_get_align_def linux64_def)

lemma example_boundary_allocate:
  "memory_allocate linux64 0 120 0 MEMORY_TEMPORARY arena_state = Some (70000, arena_state)"
proof -
  have w: "size_wrap linux64 128 = 128" by (simp add: size_wrap_def linux64_def)
  show ?thesis
    by (simp add: memory_allocate_def forced_align_linux64_zero w Let_def
        memory_track_def arena_state_def fixed_system_def failing_system_def
        memory_no_tracker_def MEMORY_TEMPORARY_def)
qed

text \<open>
  C1, as stated, fails: with \<open>maxchunk = 128\<close>, a TEMPORARY request of 120 bytes with
  alignment 0 has \<open>size + forced_align = 128 \<le> maxchunk\<close>, yet the arena path is not
  taken: the payload is the back end's address 70000, outside the arena.
\<close>

theorem arena_boundary_counterexample:
  "storage (memory_temporary arena_state) \<noteq> 0
   \<and> MEMORY_TEMPORARY AND MEMORY_TEMPORARY \<noteq> 0
   \<and> 120 + memory_get_align_forced linux64 0 \<le> maxchunk (memory_temporary arena_state)
   \<and> map_option fst (memory_allocate linux64 0 120 0 MEMORY_TEMPORARY arena_state) = Some 70000
   \<and> arena_end (memory_temporary arena_state) \<le> 70000"
proof -
  have f: "MEMORY_TEMPORARY AND MEMORY_TEMPORARY \<noteq> 0" by (simp add: MEMORY_TEMPORARY_def)
  have a: "storage (memory_temporary arena_state) \<noteq> 0"
    "120 + memory_get_align_forced linux64 0 \<le> maxchunk (memory_temporary arena_state)"
    "arena_end (memory_temporary arena_state) \<le> 70000"
    by (simp_all add: forced_align_linux64_zero arena_state_def)
  have "map_option fst (memory_allocate linux64 0 120 0 MEMORY_TEMPORARY arena_state)
          = Some 70000"
    unfolding example_boundary_allocate by simp
  with f a show ?thesis by blast
qed

text \<open>
  C1, amended: for every call \<^verbatim>\<open>memory_allocate(context, size, align, hint)\<close> where the
  TEMPORARY hint bit is set, the arena is live (storage non-null) and
  \<open>size + forced_align(align) < arena.maxchunk\<close> (strictly), in a state as the module's
  operations leave it, the arena path is taken: the returned payload lies inside the
  arena storage range, together with its \<open>size\<close> bytes, and is the same whatever back
  end is installed; and if ZERO_INITIALIZED is also set, the first \<open>size\<close> bytes of the
  payload are zero.
\<close>

theorem arena_path_taken:
  assumes "hint AND MEMORY_TEMPORARY \<noteq> 0"
    and "storage (memory_temporary s) \<noteq> 0"
    and "sz + memory_get_align_forced cfg align < maxchunk (memory_temporary s)"
    and "pointer_size_ok cfg" and "arena_ok cfg s" and "track_ready cfg s"
  shows "\<exists>p. storage (memory_temporary s) \<le> p \<and> p + sz < arena_end (memory_temporary s)
           \<and> (\<forall>sys. \<exists>s'. memory_allocate cfg ctx sz align hint (s\<lparr>memory_system := sys\<rparr>) = Some (p, s')
                 \<and> (hint AND MEMORY_ZERO_INITIALIZED \<noteq> 0 \<longrightarrow>
                      (\<forall>a. p \<le> a \<and> a < p + sz \<longrightarrow> heap (world s') a = 0)))"
proof -
  let ?p = "arena_pointer cfg sz align (memory_temporary s)"
  have lo: "storage (memory_temporary s) + 8 \<le> ?p"
    by (rule arena_allocate(2) [OF assms(2) assms(1) assms(3-6)])
  have hi: "?p + sz < arena_end (memory_temporary s)"
    by (rule arena_allocate(3) [OF assms(2) assms(1) assms(3-6)])
  have each: "\<exists>s'. memory_allocate cfg ctx sz align hint (s\<lparr>memory_system := sys\<rparr>) = Some (?p, s')
                 \<and> (hint AND MEMORY_ZERO_INITIALIZED \<noteq> 0 \<longrightarrow>
                      (\<forall>a. ?p \<le> a \<and> a < ?p + sz \<longrightarrow> heap (world s') a = 0))" for sys
  proof -
    let ?s = "s\<lparr>memory_system := sys\<rparr>"
    have t: "memory_temporary ?s = memory_temporary s" by simp
    have live: "storage (memory_temporary ?s) \<noteq> 0" using assms(2) by simp
    have fit: "sz + memory_get_align_forced cfg align < maxchunk (memory_temporary ?s)"
      using assms(3) by simp
    have ar: "arena_ok cfg ?s" using assms(5) by (simp add: arena_ok_def)
    have tr: "track_ready cfg ?s" using assms(6) by (simp add: track_ready_def tracker_ok_def)
    from arena_allocate(1) [OF live assms(1) fit assms(4) ar tr, of ctx] obtain s' where
      "memory_allocate cfg ctx sz align hint ?s = Some (?p, s')"
      "heap (world s') =
         (if hint AND MEMORY_ZERO_INITIALIZED \<noteq> 0
          then memset ?p 0 sz (heap (world ?s)) else heap (world ?s))"
      unfolding t by blast
    then show ?thesis by (intro exI [of _ s']) (simp add: memset_def)
  qed
  from lo hi each show ?thesis by (intro exI [of _ ?p]) auto
qed

theorem arena_path_taken_witness:
  "(MEMORY_TEMPORARY OR MEMORY_ZERO_INITIALIZED) AND MEMORY_TEMPORARY \<noteq> 0
   \<and> storage (memory_temporary arena_state) \<noteq> 0
   \<and> 100 + memory_get_align_forced linux64 0 < maxchunk (memory_temporary arena_state)
   \<and> pointer_size_ok linux64 \<and> arena_ok linux64 arena_state \<and> track_ready linux64 arena_state
   \<and> (\<exists>p s'. memory_allocate linux64 0 100 0 (MEMORY_TEMPORARY OR MEMORY_ZERO_INITIALIZED)
                 arena_state = Some (p, s')
          \<and> 4096 \<le> p \<and> p + 100 < 5120 \<and> heap (world s') p = 0
          \<and> heap (world arena_state) p = 1)"
proof -
  let ?h = "MEMORY_TEMPORARY OR MEMORY_ZERO_INITIALIZED"
  have h1: "?h AND MEMORY_TEMPORARY \<noteq> 0"
    by (simp add: MEMORY_TEMPORARY_def MEMORY_ZERO_INITIALIZED_def)
  have h2: "?h AND MEMORY_ZERO_INITIALIZED \<noteq> 0"
    by (simp add: MEMORY_TEMPORARY_def MEMORY_ZERO_INITIALIZED_def)
  have live: "storage (memory_temporary arena_state) \<noteq> 0" by (simp add: arena_state_def)
  have fit: "100 + memory_get_align_forced linux64 0 < maxchunk (memory_temporary arena_state)"
    by (simp add: forced_align_linux64_zero arena_state_def)
  have ps: "pointer_size_ok linux64" by (simp add: pointer_size_ok_def linux64_def)
  have ar: "arena_ok linux64 arena_state" by (simp add: arena_ok_def arena_state_def linux64_def)
  have tr: "track_ready linux64 arena_state"
    by (simp add: track_ready_def arena_state_def memory_no_tracker_def)
  have same: "arena_state\<lparr>memory_system := memory_system arena_state\<rparr> = arena_state" by simp
  from arena_path_taken [OF h1 live fit ps ar tr, of 0] obtain p where
    lo: "storage (memory_temporary arena_state) \<le> p"
    and hi: "p + 100 < arena_end (memory_temporary arena_state)"
    and all: "\<forall>sys. \<exists>s'. memory_allocate linux64 0 100 0 ?h (arena_state\<lparr>memory_system := sys\<rparr>)
                  = Some (p, s')
                \<and> (?h AND MEMORY_ZERO_INITIALIZED \<noteq> 0 \<longrightarrow>
                     (\<forall>a. p \<le> a \<and> a < p + 100 \<longrightarrow> heap (world s') a = 0))"
    by blast
  from all [rule_format, of "memory_system arena_state"] h2 obtain s' where
    "memory_allocate linux64 0 100 0 ?h arena_state = Some (p, s')"
    "\<forall>a. p \<le> a \<and> a < p + 100 \<longrightarrow> heap (world s') a = 0"
    unfolding same by blast
  moreover from this(2) have "heap (world s') p = 0" by simp
  moreover have "heap (world arena_state) p = 1" by (simp add: arena_state_def)
  ultimately show ?thesis using h1 live fit ps ar tr lo hi
    by (auto simp: arena_state_def)
qed

text \<open>Arena initialization with a non-zero configured size establishes the arena invariant.\<close>

lemma arena_initialize_ok:
  assumes "atomic_allocate_initialize cfg s = Some s'"
    and "0 < temporary_memory cfg" and "temporary_memory cfg < 2 ^ (8 * size_pointer cfg)"
  shows "arena_ok cfg s' \<and> head (memory_temporary s') = storage (memory_temporary s') + 8
         \<and> arena_size (memory_temporary s') = temporary_memory cfg"
  using assms
  by (auto simp: atomic_allocate_initialize_def arena_ok_def Let_def split: option.splits)

lemma allocate_linear_wrap:
  "head (memory_temporary s) + chunk > arena_end (memory_temporary s) \<Longrightarrow>
   fst (atomic_allocate_linear chunk s) = storage (memory_temporary s) + 8"
  by (simp add: atomic_allocate_linear_def Let_def)

lemma arena_run:
  assumes ps: "pointer_size_ok cfg"
  shows "arena_ok cfg s \<Longrightarrow> storage (memory_temporary s) \<noteq> 0 \<Longrightarrow> track_ready cfg s \<Longrightarrow>
         list_all (arena_request cfg (maxchunk (memory_temporary s))) reqs \<Longrightarrow>
         \<exists>ps s'. allocate_all cfg reqs s = Some (ps, s') \<and> length ps = length reqs
           \<and> list_all (\<lambda>p. storage (memory_temporary s) + 8 \<le> p
                            \<and> p < arena_end (memory_temporary s)) ps
           \<and> arena_ok cfg s' \<and> track_ready cfg s'
           \<and> storage (memory_temporary s') = storage (memory_temporary s)
           \<and> arena_end (memory_temporary s') = arena_end (memory_temporary s)"
proof (induction reqs arbitrary: s)
  case Nil
  then show ?case by simp
next
  case (Cons r rs)
  obtain ctx sz align hint where r: "r = (ctx, sz, align, hint)" by (cases r) auto
  from Cons.prems(4) r have tmp: "hint AND MEMORY_TEMPORARY \<noteq> 0"
    and fit: "sz + memory_get_align_forced cfg align < maxchunk (memory_temporary s)"
    and rest: "list_all (arena_request cfg (maxchunk (memory_temporary s))) rs"
    by simp_all
  let ?p = "arena_pointer cfg sz align (memory_temporary s)"
  from arena_allocate(1) [OF Cons.prems(2) tmp fit ps Cons.prems(1) Cons.prems(3), of ctx]
  obtain s1 where a: "memory_allocate cfg ctx sz align hint s = Some (?p, s1)"
    and st: "storage (memory_temporary s1) = storage (memory_temporary s)"
    and en: "arena_end (memory_temporary s1) = arena_end (memory_temporary s)"
    and mc: "maxchunk (memory_temporary s1) = maxchunk (memory_temporary s)"
    and ar1: "arena_ok cfg s1" and tr1: "track_ready cfg s1"
    by blast
  have lo: "storage (memory_temporary s) + 8 \<le> ?p"
    by (rule arena_allocate(2) [OF Cons.prems(2) tmp fit ps Cons.prems(1) Cons.prems(3)])
  have hi: "?p + sz < arena_end (memory_temporary s)"
    by (rule arena_allocate(3) [OF Cons.prems(2) tmp fit ps Cons.prems(1) Cons.prems(3)])
  have live1: "storage (memory_temporary s1) \<noteq> 0" using st Cons.prems(2) by simp
  have rest1: "list_all (arena_request cfg (maxchunk (memory_temporary s1))) rs"
    using rest mc by simp
  from Cons.IH [OF ar1 live1 tr1 rest1] obtain ps' s' where
    run: "allocate_all cfg rs s1 = Some (ps', s')" and len: "length ps' = length rs"
    and inside: "list_all (\<lambda>p. storage (memory_temporary s1) + 8 \<le> p
                            \<and> p < arena_end (memory_temporary s1)) ps'"
    and fin: "arena_ok cfg s'" "track_ready cfg s'"
      "storage (memory_temporary s') = storage (memory_temporary s1)"
      "arena_end (memory_temporary s') = arena_end (memory_temporary s1)"
    by blast
  have "allocate_all cfg (r # rs) s = Some (?p # ps', s')" using r a run by simp
  moreover have "?p < arena_end (memory_temporary s)" using hi by simp
  ultimately show ?case using len inside fin lo st en
    by (intro exI [of _ "?p # ps'"] exI [of _ s']) simp
qed

text \<open>
  C7, amended: in a state with a live arena as arena initialization and the module's
  operations leave it, every sequence of TEMPORARY allocations whose size plus forced
  alignment is below \<open>maxchunk\<close> without wrapping around, however many bytes it
  totals, runs to its end, and every payload it returns lies within the arena, from
  \<open>storage + 8\<close> up to (excluding) \<open>end\<close>; and when the candidate head lies past
  \<open>end\<close>, the pointer that the linear allocator returns restarts at \<open>storage + 8\<close>,
  never at \<open>storage\<close> itself.
\<close>

theorem arena_wrap_around:
  assumes "pointer_size_ok cfg" and "arena_ok cfg s" and "storage (memory_temporary s) \<noteq> 0"
    and "track_ready cfg s"
    and "list_all (arena_request cfg (maxchunk (memory_temporary s))) reqs"
  shows "(\<exists>ps s'. allocate_all cfg reqs s = Some (ps, s') \<and> length ps = length reqs
            \<and> list_all (\<lambda>p. storage (memory_temporary s) + 8 \<le> p
                             \<and> p < arena_end (memory_temporary s)) ps)
         \<and> (\<forall>chunk. head (memory_temporary s) + chunk > arena_end (memory_temporary s) \<longrightarrow>
               fst (atomic_allocate_linear chunk s) = storage (memory_temporary s) + 8)"
proof -
  from arena_run [OF assms] obtain ps s' where
    "allocate_all cfg reqs s = Some (ps, s')" "length ps = length reqs"
    "list_all (\<lambda>p. storage (memory_temporary s) + 8 \<le> p
                   \<and> p < arena_end (memory_temporary s)) ps"
    by blast
  then show ?thesis using allocate_linear_wrap [of s] by blast
qed

theorem arena_wrap_around_witness:
  "pointer_size_ok linux64
   \<and> (\<exists>s. atomic_allocate_initialize linux64
              (initial_state (fixed_system 4096) \<lparr>heap = (\<lambda>a. 0), events = []\<rparr>) = Some s
        \<and> arena_ok linux64 s \<and> storage (memory_temporary s) \<noteq> 0 \<and> track_ready linux64 s
        \<and> list_all (arena_request linux64 (maxchunk (memory_temporary s)))
             (replicate 12 (0, 100, 0, MEMORY_TEMPORARY))
        \<and> (\<exists>ps s'. allocate_all linux64 (replicate 12 (0, 100, 0, MEMORY_TEMPORARY)) s
                      = Some (ps, s')
              \<and> length ps = 12 \<and> list_all (\<lambda>p. 4104 \<le> p \<and> p < 5120) ps))"
proof -
  let ?init = "initial_state (fixed_system 4096) \<lparr>heap = (\<lambda>a. 0), events = []\<rparr>"
  let ?s = "?init\<lparr>memory_temporary :=
               \<lparr>storage = 4096, arena_end = 5120, head = 4104, arena_size = 1024, maxchunk = 128\<rparr>\<rparr>"
  let ?reqs = "replicate 12 (0 :: hash_t, 100 :: nat, 0 :: nat, MEMORY_TEMPORARY)"
  have ps: "pointer_size_ok linux64" by (simp add: pointer_size_ok_def linux64_def)
  have al: "memory_allocate linux64 0 1024 16 MEMORY_PERSISTENT ?init = Some (4096, ?init)"
    by (simp add: memory_allocate_def initial_state_def zero_arena_def fixed_system_def
        failing_system_def memory_track_def memory_no_tracker_def Let_def)
  have tm: "temporary_memory linux64 = 1024" by (simp add: linux64_def)
  have ini: "atomic_allocate_initialize linux64 ?init = Some ?s"
    by (simp add: atomic_allocate_initialize_def tm al Let_def)
  have ar: "arena_ok linux64 ?s" by (simp add: arena_ok_def linux64_def)
  have live: "storage (memory_temporary ?s) \<noteq> 0" by simp
  have tr: "track_ready linux64 ?s"
    by (simp add: track_ready_def initial_state_def memory_no_tracker_def)
  have tmp: "MEMORY_TEMPORARY AND MEMORY_TEMPORARY \<noteq> 0" by (simp add: MEMORY_TEMPORARY_def)
  have reqs: "list_all (arena_request linux64 (maxchunk (memory_temporary ?s))) ?reqs"
    using tmp by (simp add: list_all_iff forced_align_linux64_zero)
  from arena_wrap_around [OF ps ar live tr reqs] obtain ps' s' where
    "allocate_all linux64 ?reqs ?s = Some (ps', s')" "length ps' = length ?reqs"
    "list_all (\<lambda>p. storage (memory_temporary ?s) + 8 \<le> p
                   \<and> p < arena_end (memory_temporary ?s)) ps'"
    by blast
  then have "\<exists>ps s'. allocate_all linux64 ?reqs ?s = Some (ps, s')
               \<and> length ps = 12 \<and> list_all (\<lambda>p. 4104 \<le> p \<and> p < 5120) ps"
    by (intro exI [of _ ps'] exI [of _ s']) simp
  with ps ini ar live tr reqs show ?thesis by blast
qed

section \<open>Releasing the null pointer\<close>

lemma tracker_untrack_null: "memory_tracker_untrack cfg 0 s = Some s"
  by (simp add: memory_tracker_untrack_def untrack_lookup_def)

text \<open>
  C10: \<^verbatim>\<open>memory_deallocate(NULL)\<close> is a no-op. The default back end's deallocate returns
  the world as it was for a null payload, whatever the memory holds (it returns before
  any header is read); the local tracker's untrack leaves the state as it was for a null
  address; and with the default deallocate installed and the local tracker or no
  tracker, \<^verbatim>\<open>memory_deallocate(NULL)\<close> returns with the whole state unchanged, the four
  statistics counters included.
\<close>

theorem deallocate_null_noop:
  assumes "sys_deallocate (memory_system s) = memory_deallocate_malloc cfg"
    and "untrack (memory_tracker s) = Some Local_untrack \<or> untrack (memory_tracker s) = None"
  shows "(\<forall>w. memory_deallocate_malloc cfg 0 w = w)
         \<and> memory_tracker_untrack cfg 0 s = Some s
         \<and> memory_deallocate cfg 0 s = Some s
         \<and> map_option memory_stats (memory_deallocate cfg 0 s) = Some (memory_stats s)"
proof -
  have null_release: "memory_deallocate_malloc cfg 0 w = w" for w
    by (simp add: memory_deallocate_malloc_def)
  have un: "memory_untrack cfg 0 s = Some s"
    using assms(2) by (auto simp: memory_untrack_def tracker_untrack_null)
  have "memory_deallocate cfg 0 s = Some s"
    using un by (simp add: memory_deallocate_def assms(1) null_release)
  with null_release tracker_untrack_null show ?thesis by simp
qed

theorem deallocate_null_noop_witness:
  "sys_deallocate (memory_system malloc_tracking_state) = memory_deallocate_malloc linux64
   \<and> untrack (memory_tracker malloc_tracking_state) = Some Local_untrack
   \<and> memory_deallocate linux64 0 malloc_tracking_state = Some malloc_tracking_state
   \<and> map_option memory_stats (memory_deallocate linux64 0 malloc_tracking_state) = Some zero_stats"
proof -
  have a: "sys_deallocate (memory_system malloc_tracking_state) = memory_deallocate_malloc linux64"
    by (simp add: malloc_tracking_state_def)
  have b: "untrack (memory_tracker malloc_tracking_state) = Some Local_untrack"
    by (simp add: malloc_tracking_state_def tracking_state_def memory_tracker_local_def)
  have st: "memory_stats malloc_tracking_state = zero_stats"
    by (simp add: malloc_tracking_state_def tracking_state_def)
  from deallocate_null_noop [OF a disjI1 [OF b]] a b st show ?thesis by simp
qed

section \<open>Untracking and the leak report\<close>

text \<open>
  The search of untrack, from a slot at or above \<open>iend\<close> down to \<open>iend\<close>: it finds a
  matching tag if there is one in that range.
\<close>

lemma untrack_search_down:
  assumes tg: "memory_tags s \<noteq> 0" "length (memory_tags_data s) = memory_tracker_max cfg"
    and mx: "memory_tracker_max cfg < 2 ^ 31"
    and z: "list_all (\<lambda>t. address t = addr \<longrightarrow> tag_size t = 0) (memory_tags_data s)"
  shows "0 \<le> iend \<Longrightarrow> iend \<le> itag \<Longrightarrow> itag < int (memory_tracker_max cfg) \<Longrightarrow>
         \<exists>j. iend \<le> j \<and> j \<le> itag \<and> address (memory_tags_data s ! nat j) = addr \<Longrightarrow>
         \<exists>j. 0 \<le> j \<and> j < int (memory_tracker_max cfg)
           \<and> address (memory_tags_data s ! nat j) = addr
           \<and> untrack_search cfg addr iend itag s = Some (j + 1, 0)"
proof (induction "nat (itag - iend)" arbitrary: itag)
  case 0
  then have eq: "itag = iend" by simp
  from "0.prems"(4) eq have m: "address (memory_tags_data s ! nat itag) = addr" by auto
  have v: "tag_valid s itag" using tg "0.prems" by (simp add: tag_valid_def)
  have "nat itag < length (memory_tags_data s)" using tg "0.prems" by simp
  with z m have sz: "tag_size (memory_tags_data s ! nat itag) = 0"
    by (simp add: list_all_length)
  have w: "wrap_s32 (itag + 1) = itag + 1" using "0.prems" mx by (simp add: wrap_s32_id)
  have "untrack_search cfg addr iend itag s = Some (itag + 1, 0)"
    using v m sz w by (simp add: untrack_search.simps [of cfg addr iend itag s])
  with m "0.prems" show ?case by (intro exI [of _ itag]) simp
next
  case (Suc n)
  have v: "tag_valid s itag" using tg Suc.prems by (simp add: tag_valid_def)
  have inr: "nat itag < length (memory_tags_data s)" using tg Suc.prems by simp
  have w: "wrap_s32 (itag + 1) = itag + 1" using Suc.prems mx by (simp add: wrap_s32_id)
  show ?case
  proof (cases "addr = address (memory_tags_data s ! nat itag)")
    case True
    with z inr have sz: "tag_size (memory_tags_data s ! nat itag) = 0"
      by (simp add: list_all_length)
    from True have m: "address (memory_tags_data s ! nat itag) = addr" by simp
    have "untrack_search cfg addr iend itag s = Some (itag + 1, 0)"
      using v m sz w by (simp add: untrack_search.simps [of cfg addr iend itag s])
    with True Suc.prems show ?thesis by (intro exI [of _ itag]) simp
  next
    case False
    have ne: "itag \<noteq> iend" using Suc.hyps(2) by auto
    with Suc.prems have gt: "iend < itag" by simp
    then have nz: "itag \<noteq> 0" using Suc.prems(1) by simp
    from Suc.prems(4) False have ex: "\<exists>j. iend \<le> j \<and> j \<le> itag - 1
        \<and> address (memory_tags_data s ! nat j) = addr"
      by (metis add_le_cancel_right le_less linorder_not_le zle_diff1_eq)
    have n: "n = nat (itag - 1 - iend)" using Suc.hyps(2) by simp
    have "\<exists>j. 0 \<le> j \<and> j < int (memory_tracker_max cfg)
           \<and> address (memory_tags_data s ! nat j) = addr
           \<and> untrack_search cfg addr iend (itag - 1) s = Some (j + 1, 0)"
      by (rule Suc.hyps(1) [OF n Suc.prems(1)]) (use gt Suc.prems ex in simp_all)
    moreover have "untrack_search cfg addr iend itag s = untrack_search cfg addr iend (itag - 1) s"
      using v False ne nz by (simp add: untrack_search.simps [of cfg addr iend itag s])
    ultimately show ?thesis by simp
  qed
qed

text \<open>
  The search from a slot below \<open>iend\<close>: down to slot 0, then from the last slot down to
  \<open>iend\<close>.
\<close>

lemma untrack_search_wrap:
  assumes tg: "memory_tags s \<noteq> 0" "length (memory_tags_data s) = memory_tracker_max cfg"
    and mx: "memory_tracker_max cfg < 2 ^ 31"
    and z: "list_all (\<lambda>t. address t = addr \<longrightarrow> tag_size t = 0) (memory_tags_data s)"
    and ie: "iend < int (memory_tracker_max cfg)"
  shows "0 \<le> itag \<Longrightarrow> itag < iend \<Longrightarrow>
         \<exists>j. ((0 \<le> j \<and> j \<le> itag) \<or> (iend \<le> j \<and> j < int (memory_tracker_max cfg)))
              \<and> address (memory_tags_data s ! nat j) = addr \<Longrightarrow>
         \<exists>j. 0 \<le> j \<and> j < int (memory_tracker_max cfg)
           \<and> address (memory_tags_data s ! nat j) = addr
           \<and> untrack_search cfg addr iend itag s = Some (j + 1, 0)"
proof (induction "nat itag" arbitrary: itag)
  case 0
  then have i0: "itag = 0" by simp
  have v: "tag_valid s itag" using tg "0.prems" ie by (simp add: tag_valid_def)
  have inr: "nat itag < length (memory_tags_data s)" using tg "0.prems" ie by simp
  have w: "wrap_s32 (itag + 1) = itag + 1" using "0.prems" ie mx by (simp add: wrap_s32_id)
  show ?case
  proof (cases "addr = address (memory_tags_data s ! nat itag)")
    case True
    with z inr have sz: "tag_size (memory_tags_data s ! nat itag) = 0"
      by (simp add: list_all_length)
    from True have m: "address (memory_tags_data s ! nat itag) = addr" by simp
    have "untrack_search cfg addr iend itag s = Some (itag + 1, 0)"
      using v m sz w by (simp add: untrack_search.simps [of cfg addr iend itag s])
    with True "0.prems" ie show ?thesis by (intro exI [of _ itag]) simp
  next
    case False
    let ?last = "int (memory_tracker_max cfg) - 1"
    have ne: "itag \<noteq> iend" using "0.prems" by simp
    have lw: "wrap_s32 (tracker_max32 cfg - 1) = ?last"
      using mx "0.prems" ie by (simp add: tracker_max32_id wrap_s32_id)
    from "0.prems"(3) False i0 have ex: "\<exists>j. iend \<le> j \<and> j \<le> ?last
        \<and> address (memory_tags_data s ! nat j) = addr"
      by (metis add_le_cancel_right dual_order.antisym zle_diff1_eq zless_add1_eq diff_add_cancel)
    have "\<exists>j. 0 \<le> j \<and> j < int (memory_tracker_max cfg)
           \<and> address (memory_tags_data s ! nat j) = addr
           \<and> untrack_search cfg addr iend ?last s = Some (j + 1, 0)"
      by (rule untrack_search_down [OF tg mx z]) (use "0.prems" ie ex in simp_all)
    moreover have "untrack_search cfg addr iend itag s = untrack_search cfg addr iend ?last s"
      using v False ne i0 lw by (simp add: untrack_search.simps [of cfg addr iend 0 s])
    ultimately show ?thesis by simp
  qed
next
  case (Suc n)
  have v: "tag_valid s itag" using tg Suc.prems ie by (simp add: tag_valid_def)
  have inr: "nat itag < length (memory_tags_data s)" using tg Suc.prems ie by simp
  have w: "wrap_s32 (itag + 1) = itag + 1" using Suc.prems ie mx by (simp add: wrap_s32_id)
  show ?case
  proof (cases "addr = address (memory_tags_data s ! nat itag)")
    case True
    with z inr have sz: "tag_size (memory_tags_data s ! nat itag) = 0"
      by (simp add: list_all_length)
    from True have m: "address (memory_tags_data s ! nat itag) = addr" by simp
    have "untrack_search cfg addr iend itag s = Some (itag + 1, 0)"
      using v m sz w by (simp add: untrack_search.simps [of cfg addr iend itag s])
    with True Suc.prems ie show ?thesis by (intro exI [of _ itag]) simp
  next
    case False
    have ne: "itag \<noteq> iend" using Suc.prems by simp
    have nz: "itag \<noteq> 0" using Suc.hyps(2) by auto
    from Suc.prems(3) False have ex:
      "\<exists>j. ((0 \<le> j \<and> j \<le> itag - 1) \<or> (iend \<le> j \<and> j < int (memory_tracker_max cfg)))
           \<and> address (memory_tags_data s ! nat j) = addr"
      by (metis add_le_cancel_right le_less linorder_not_le zle_diff1_eq)
    have n: "n = nat (itag - 1)" using Suc.hyps(2) by simp
    have "\<exists>j. 0 \<le> j \<and> j < int (memory_tracker_max cfg)
           \<and> address (memory_tags_data s ! nat j) = addr
           \<and> untrack_search cfg addr iend (itag - 1) s = Some (j + 1, 0)"
      by (rule Suc.hyps(1) [OF n]) (use nz Suc.prems ex in simp_all)
    moreover have "untrack_search cfg addr iend itag s = untrack_search cfg addr iend (itag - 1) s"
      using v False ne nz by (simp add: untrack_search.simps [of cfg addr iend itag s])
    ultimately show ?thesis by simp
  qed
qed

lemma untrack_lookup_finds:
  assumes ok: "tracker_ok cfg s" and ini: "memory_tracker_initialized s" and a: "addr \<noteq> 0"
    and i: "i < memory_tracker_max cfg" and m: "address (memory_tags_data s ! i) = addr"
    and z: "list_all (\<lambda>t. address t = addr \<longrightarrow> tag_size t = 0) (memory_tags_data s)"
  shows "\<exists>j. j < memory_tracker_max cfg \<and> address (memory_tags_data s ! j) = addr
           \<and> untrack_lookup cfg addr s = Some (int j + 1, 0)"
proof -
  let ?m = "int (memory_tracker_max cfg)"
  let ?iend = "memory_tag_next s mod ?m"
  from ok have mpos: "0 < ?m" and mx: "memory_tracker_max cfg < 2 ^ 31"
    and n0: "0 \<le> memory_tag_next s"
    by (simp_all add: tracker_ok_def)
  from ok ini have tg: "memory_tags s \<noteq> 0" "length (memory_tags_data s) = memory_tracker_max cfg"
    by (simp_all add: tracker_ok_def)
  have m32: "tracker_max32 cfg = ?m" by (rule tracker_max32_id [OF mx])
  have ie: "c_rem (memory_tag_next s) ?m = ?iend" by (rule c_rem_nonneg [OF n0 mpos])
  have ie0: "0 \<le> ?iend" and iem: "?iend < ?m" using mpos by simp_all
  have lw: "wrap_s32 (?m - 1) = ?m - 1" using mx mpos by (simp add: wrap_s32_id)
  have found: "\<exists>j. 0 \<le> j \<and> j < ?m \<and> address (memory_tags_data s ! nat j) = addr
        \<and> untrack_search cfg addr ?iend (if ?iend \<noteq> 0 then ?iend - 1 else ?m - 1) s
            = Some (j + 1, 0)"
  proof (cases "?iend = 0")
    case True
    have "\<exists>j. 0 \<le> j \<and> j \<le> ?m - 1 \<and> address (memory_tags_data s ! nat j) = addr"
      using i m by (intro exI [of _ "int i"]) simp
    then have "\<exists>j. 0 \<le> j \<and> j < ?m \<and> address (memory_tags_data s ! nat j) = addr
        \<and> untrack_search cfg addr 0 (?m - 1) s = Some (j + 1, 0)"
      using mpos by (intro untrack_search_down [OF tg mx z]) simp_all
    with True show ?thesis by simp
  next
    case False
    have "\<exists>j. ((0 \<le> j \<and> j \<le> ?iend - 1) \<or> (?iend \<le> j \<and> j < ?m))
            \<and> address (memory_tags_data s ! nat j) = addr"
      using i m by (intro exI [of _ "int i"]) auto
    then have "\<exists>j. 0 \<le> j \<and> j < ?m \<and> address (memory_tags_data s ! nat j) = addr
        \<and> untrack_search cfg addr ?iend (?iend - 1) s = Some (j + 1, 0)"
      using False ie0 by (intro untrack_search_wrap [OF tg mx z iem]) simp_all
    with False show ?thesis by simp
  qed
  then obtain j where j: "0 \<le> j" "j < ?m" "address (memory_tags_data s ! nat j) = addr"
    and r: "untrack_search cfg addr ?iend (if ?iend \<noteq> 0 then ?iend - 1 else ?m - 1) s
              = Some (j + 1, 0)"
    by blast
  have "untrack_lookup cfg addr s = Some (j + 1, 0)"
    using a ini mpos r by (auto simp: untrack_lookup_def m32 ie lw Let_def split: if_splits)
  with j show ?thesis by (intro exI [of _ "nat j"]) simp
qed

lemma leak_scan_reports:
  "memory_tags s \<noteq> 0 \<Longrightarrow> length (memory_tags_data s) = memory_tracker_max cfg \<Longrightarrow>
   \<exists>ev. leak_scan cfg it s = Some (s\<lparr>world := (world s)\<lparr>events := events (world s) @ ev\<rparr>\<rparr>)
     \<and> (\<forall>i. it \<le> i \<and> i < memory_tracker_max cfg \<and> address (memory_tags_data s ! i) \<noteq> 0 \<longrightarrow>
           Leak (tag_size (memory_tags_data s ! i)) (address (memory_tags_data s ! i)) i \<in> set ev)"
proof (induction "memory_tracker_max cfg - it" arbitrary: it s)
  case 0
  then have "\<not> it < memory_tracker_max cfg" by simp
  then show ?case
    by (intro exI [of _ "[]"]) (simp add: leak_scan.simps [of cfg it s])
next
  case (Suc n)
  then have lt: "it < memory_tracker_max cfg" by simp
  have v: "tag_valid s (int it)" using lt Suc.prems by (simp add: tag_valid_def)
  let ?e = "if address (memory_tags_data s ! it) \<noteq> 0
            then [Leak (tag_size (memory_tags_data s ! it)) (address (memory_tags_data s ! it)) it]
            else []"
  let ?s1 = "s\<lparr>world := (world s)\<lparr>events := events (world s) @ ?e\<rparr>\<rparr>"
  have step: "leak_scan cfg it s = leak_scan cfg (Suc it) ?s1"
    using lt v by (simp add: leak_scan.simps [of cfg it s] log_event_def)
  have n: "n = memory_tracker_max cfg - Suc it" using Suc.hyps(2) by simp
  have t1: "memory_tags ?s1 \<noteq> 0" "length (memory_tags_data ?s1) = memory_tracker_max cfg"
    using Suc.prems by simp_all
  from Suc.hyps(1) [OF n t1] obtain ev where
    r: "leak_scan cfg (Suc it) ?s1
          = Some (?s1\<lparr>world := (world ?s1)\<lparr>events := events (world ?s1) @ ev\<rparr>\<rparr>)"
    and rep: "\<forall>i. Suc it \<le> i \<and> i < memory_tracker_max cfg
                \<and> address (memory_tags_data ?s1 ! i) \<noteq> 0 \<longrightarrow>
              Leak (tag_size (memory_tags_data ?s1 ! i)) (address (memory_tags_data ?s1 ! i)) i
                \<in> set ev"
    by blast
  have "leak_scan cfg it s
          = Some (s\<lparr>world := (world s)\<lparr>events := events (world s) @ (?e @ ev)\<rparr>\<rparr>)"
    using step r by simp
  moreover have "\<forall>i. it \<le> i \<and> i < memory_tracker_max cfg
                   \<and> address (memory_tags_data s ! i) \<noteq> 0 \<longrightarrow>
              Leak (tag_size (memory_tags_data s ! i)) (address (memory_tags_data s ! i)) i
                \<in> set (?e @ ev)"
  proof (intro allI impI)
    fix i assume i: "it \<le> i \<and> i < memory_tracker_max cfg \<and> address (memory_tags_data s ! i) \<noteq> 0"
    show "Leak (tag_size (memory_tags_data s ! i)) (address (memory_tags_data s ! i)) i
            \<in> set (?e @ ev)"
    proof (cases "i = it")
      case True
      with i show ?thesis by simp
    next
      case False
      with i have "Suc it \<le> i" by simp
      with rep i show ?thesis by simp
    qed
  qed
  ultimately show ?case by blast
qed

text \<open>
  C9: for a tag that records a non-null address with size 0 (no tag records that address
  with another size), in an initialized tracker, untrack of the address finds a matching
  tag, yet leaves the state as it was: the tag's address is not cleared and no counter
  is decremented; and the scan of tracker finalize then reports the stale tag as a leak
  of 0 bytes before the table is cleaned up.
\<close>

theorem zero_size_tag_stays:
  assumes "tracker_ok cfg s" and "memory_tracker_initialized s" and "addr \<noteq> 0"
    and "i < memory_tracker_max cfg"
    and "memory_tags_data s ! i = \<lparr>address = addr, tag_size = 0\<rparr>"
    and "list_all (\<lambda>t. address t = addr \<longrightarrow> tag_size t = 0) (memory_tags_data s)"
  shows "(\<exists>j. j < memory_tracker_max cfg \<and> address (memory_tags_data s ! j) = addr
            \<and> untrack_lookup cfg addr s = Some (int j + 1, 0))
         \<and> memory_tracker_untrack cfg addr s = Some s
         \<and> (\<exists>ev. Leak 0 addr i \<in> set ev
              \<and> memory_tracker_finalize cfg s =
                  memory_tracker_cleanup cfg
                    (s\<lparr>memory_tracker_initialized := False,
                       world := (world s)\<lparr>events := events (world s) @ ev\<rparr>\<rparr>))"
proof -
  have m: "address (memory_tags_data s ! i) = addr" using assms(5) by simp
  from untrack_lookup_finds [OF assms(1-4) m assms(6)] obtain j where
    j: "j < memory_tracker_max cfg" "address (memory_tags_data s ! j) = addr"
      "untrack_lookup cfg addr s = Some (int j + 1, 0)"
    by blast
  then have un: "memory_tracker_untrack cfg addr s = Some s"
    by (simp add: memory_tracker_untrack_def)
  let ?s0 = "s\<lparr>memory_tracker_initialized := False\<rparr>"
  from assms(1,2) have tg: "memory_tags ?s0 \<noteq> 0"
    "length (memory_tags_data ?s0) = memory_tracker_max cfg"
    by (simp_all add: tracker_ok_def)
  from leak_scan_reports [OF tg, of 0] obtain ev where
    sc: "leak_scan cfg 0 ?s0
           = Some (?s0\<lparr>world := (world ?s0)\<lparr>events := events (world ?s0) @ ev\<rparr>\<rparr>)"
    and rep: "\<forall>k. 0 \<le> k \<and> k < memory_tracker_max cfg
                \<and> address (memory_tags_data ?s0 ! k) \<noteq> 0 \<longrightarrow>
              Leak (tag_size (memory_tags_data ?s0 ! k)) (address (memory_tags_data ?s0 ! k)) k
                \<in> set ev"
    by blast
  from rep [rule_format, of i] assms(3,4,5) have leak: "Leak 0 addr i \<in> set ev" by simp
  have "memory_tracker_finalize cfg s =
          memory_tracker_cleanup cfg
            (s\<lparr>memory_tracker_initialized := False,
               world := (world s)\<lparr>events := events (world s) @ ev\<rparr>\<rparr>)"
    using tg sc by (simp add: memory_tracker_finalize_def Let_def)
  with j un leak show ?thesis by blast
qed

theorem zero_size_tag_stays_witness:
  "memory_tracker_track linux64 100 0 (tracking_state empty_table 0) = Some zero_tracked_state
   \<and> tracker_ok linux64 zero_tracked_state
   \<and> memory_tracker_initialized zero_tracked_state
   \<and> memory_tags_data zero_tracked_state ! 0 = \<lparr>address = 100, tag_size = 0\<rparr>
   \<and> memory_tracker_untrack linux64 100 zero_tracked_state = Some zero_tracked_state
   \<and> (\<exists>ev. Leak 0 100 0 \<in> set ev
        \<and> memory_tracker_finalize linux64 zero_tracked_state =
            memory_tracker_cleanup linux64
              (zero_tracked_state
                 \<lparr>memory_tracker_initialized := False,
                  world := (world zero_tracked_state)
                    \<lparr>events := events (world zero_tracked_state) @ ev\<rparr>\<rparr>))"
proof -
  let ?s = "zero_tracked_state"
  have tr: "memory_tracker_track linux64 100 0 (tracking_state empty_table 0) = Some ?s"
    by (simp add: memory_tracker_track_def tracking_state_def empty_table_def linux64_def
        size_wrap_def track_loop.simps wrap_tag.simps tracker_max32_def wrap_s32_def tag_valid_def
        Let_def stats_allocated_def zero_stats_def atomic_incr64_def atomic_add64_def
        int64_of_size_def wrap_s64_def zero_tracked_state_def zero_size_table_def)
  have ok: "tracker_ok linux64 ?s"
    by (simp add: tracker_ok_def linux64_def tracking_state_def zero_size_table_def
        pointer_size_ok_def zero_tracked_state_def)
  have ini: "memory_tracker_initialized ?s"
    by (simp add: tracking_state_def zero_tracked_state_def)
  have a: "(100::nat) \<noteq> 0" by simp
  have i: "0 < memory_tracker_max linux64" by (simp add: linux64_def)
  have t: "memory_tags_data ?s ! 0 = \<lparr>address = 100, tag_size = 0\<rparr>"
    by (simp add: tracking_state_def zero_size_table_def zero_tracked_state_def)
  have z: "list_all (\<lambda>t. address t = 100 \<longrightarrow> tag_size t = 0) (memory_tags_data ?s)"
    by (simp add: tracking_state_def zero_size_table_def zero_tracked_state_def)
  from zero_size_tag_stays [OF ok ini a i t z] tr ok ini t show ?thesis by simp
qed

section \<open>Facts about the total counters\<close>

lemma same_totals_refl: "same_totals st st"
  by (simp add: same_totals_def)

lemma same_totals_trans: "same_totals a b \<Longrightarrow> same_totals b c \<Longrightarrow> same_totals a c"
  by (simp add: same_totals_def)

lemma same_counted: "same_totals a b \<Longrightarrow> counted_once sz b c \<Longrightarrow> counted_once sz a c"
  by (auto simp: same_totals_def counted_once_def)

lemma counted_same: "counted_once sz a b \<Longrightarrow> same_totals b c \<Longrightarrow> counted_once sz a c"
  by (auto simp: same_totals_def counted_once_def)

lemma same_is_counted: "same_totals a b \<Longrightarrow> counted_once sz a b"
  by (simp add: counted_once_def)

lemma released_same: "same_totals st (stats_released sz st)"
  by (simp add: same_totals_def stats_released_def)

lemma allocated_counted: "counted_once sz st (stats_allocated sz st)"
  by (simp add: counted_once_def stats_allocated_def)

lemma counted_once_grows:
  assumes "counted_once sz st st'" and "totals_room sz st"
  shows "allocations_total st \<le> allocations_total st'
         \<and> allocated_total st \<le> allocated_total st'
         \<and> 0 \<le> allocations_total st' \<and> 0 \<le> allocated_total st'"
proof -
  from assms(2) have r: "0 \<le> allocations_total st" "allocations_total st + 1 < 2 ^ 63"
    "0 \<le> allocated_total st" "allocated_total st + int sz < 2 ^ 63"
    by (simp_all add: totals_room_def)
  have i: "atomic_incr64 (allocations_total st) = allocations_total st + 1"
    using r by (simp add: atomic_incr64_def wrap_s64_id)
  have c: "int64_of_size sz = int sz" using r by (simp add: int64_of_size_def wrap_s64_id)
  have a: "atomic_add64 (allocated_total st) (int64_of_size sz) = allocated_total st + int sz"
    using r by (simp add: atomic_add64_def c wrap_s64_id)
  from assms(1) r show ?thesis
    unfolding counted_once_def same_totals_def i a by auto
qed

lemma track_loop_cases:
  assumes "track_loop cfg addr sz limit loop s = Some s'"
  shows "(\<exists>next d. s' = s\<lparr>memory_tag_next := next, memory_tags_data := d\<rparr>)
         \<or> (\<exists>next. Suc loop < limit
               \<and> track_loop cfg addr sz limit (Suc loop) (s\<lparr>memory_tag_next := next\<rparr>) = Some s')"
proof -
  from assms have "(case wrap_tag (tracker_max32 cfg) (memory_tag_next s)
                           (wrap_s32 (memory_tag_next s + 1)) of
        None \<Rightarrow> None
      | Some (tag, next) \<Rightarrow>
          let s1 = s\<lparr>memory_tag_next := next\<rparr>
          in if \<not> tag_valid s1 tag then None
             else if address (memory_tags_data s1 ! nat tag) = 0 then
               Some (s1\<lparr>memory_tags_data := (memory_tags_data s1)
                         [nat tag := (memory_tags_data s1 ! nat tag)\<lparr>address := addr, tag_size := sz\<rparr>]\<rparr>)
             else if Suc loop < limit then track_loop cfg addr sz limit (Suc loop) s1
             else Some s1) = Some s'"
    by (simp only: track_loop.simps [of cfg addr sz limit loop s])
  then obtain tag nxt where
    r: "(let s1 = s\<lparr>memory_tag_next := nxt\<rparr>
          in if \<not> tag_valid s1 tag then None
             else if address (memory_tags_data s1 ! nat tag) = 0 then
               Some (s1\<lparr>memory_tags_data := (memory_tags_data s1)
                         [nat tag := (memory_tags_data s1 ! nat tag)\<lparr>address := addr, tag_size := sz\<rparr>]\<rparr>)
             else if Suc loop < limit then track_loop cfg addr sz limit (Suc loop) s1
             else Some s1) = Some s'"
    by (cases "wrap_tag (tracker_max32 cfg) (memory_tag_next s) (wrap_s32 (memory_tag_next s + 1))")
       auto
  show ?thesis
  proof (cases "address (memory_tags_data s ! nat tag) = 0")
    case True
    with r have "s' = s\<lparr>memory_tag_next := nxt, memory_tags_data := (memory_tags_data s)
                         [nat tag := (memory_tags_data s ! nat tag)\<lparr>address := addr, tag_size := sz\<rparr>]\<rparr>"
      by (simp add: Let_def split: if_splits)
    then show ?thesis by blast
  next
    case False
    note occupied = False
    show ?thesis
    proof (cases "Suc loop < limit")
      case True
      with r occupied have "track_loop cfg addr sz limit (Suc loop) (s\<lparr>memory_tag_next := nxt\<rparr>) = Some s'"
        by (simp add: Let_def split: if_splits)
      with True show ?thesis by blast
    next
      case False
      with r occupied have "s' = s\<lparr>memory_tag_next := nxt, memory_tags_data := memory_tags_data s\<rparr>"
        by (simp add: Let_def split: if_splits)
      then show ?thesis by blast
    qed
  qed
qed

lemma track_loop_keeps:
  "track_loop cfg addr sz limit loop s = Some s' \<Longrightarrow>
   memory_stats s' = memory_stats s \<and> memory_tracker s' = memory_tracker s
   \<and> memory_tracker_initialized s' = memory_tracker_initialized s
   \<and> memory_initialized s' = memory_initialized s
   \<and> memory_tracker_preinit s' = memory_tracker_preinit s"
proof (induction "limit - loop" arbitrary: loop s)
  case 0
  from track_loop_cases [OF "0.prems"] "0.hyps" show ?case by auto
next
  case (Suc n)
  from track_loop_cases [OF Suc.prems] show ?case
  proof
    assume "\<exists>next d. s' = s\<lparr>memory_tag_next := next, memory_tags_data := d\<rparr>"
    then show ?thesis by auto
  next
    assume "\<exists>next. Suc loop < limit
               \<and> track_loop cfg addr sz limit (Suc loop) (s\<lparr>memory_tag_next := next\<rparr>) = Some s'"
    then obtain nxt where lt: "Suc loop < limit"
      and r: "track_loop cfg addr sz limit (Suc loop) (s\<lparr>memory_tag_next := nxt\<rparr>) = Some s'"
      by blast
    have n: "n = limit - Suc loop" using Suc.hyps(2) by simp
    from Suc.hyps(1) [OF n r] show ?thesis by simp
  qed
qed

lemma tracker_track_totals:
  assumes "memory_tracker_track cfg addr sz s = Some s'"
  shows "counted_once sz (memory_stats s) (memory_stats s')
         \<and> (\<not> memory_tracker_initialized s \<longrightarrow> s' = s)
         \<and> memory_tracker_initialized s' = memory_tracker_initialized s
         \<and> memory_tracker s' = memory_tracker s
         \<and> memory_initialized s' = memory_initialized s
         \<and> memory_tracker_preinit s' = memory_tracker_preinit s"
proof (cases "addr \<noteq> 0 \<and> memory_tracker_initialized s")
  case False
  with assms have "s' = s" by (auto simp: memory_tracker_track_def)
  then show ?thesis by (simp add: counted_once_def same_totals_refl)
next
  case True
  with assms obtain s1 where
    l: "track_loop cfg addr sz (size_wrap cfg (memory_tracker_max cfg * 2)) 0 s = Some s1"
    and s': "s' = (if memory_statistics cfg
                   then s1\<lparr>memory_stats := stats_allocated sz (memory_stats s1)\<rparr> else s1)"
    by (auto simp: memory_tracker_track_def split: option.splits)
  from track_loop_keeps [OF l] have k: "memory_stats s1 = memory_stats s"
    "memory_tracker s1 = memory_tracker s"
    "memory_tracker_initialized s1 = memory_tracker_initialized s"
    "memory_initialized s1 = memory_initialized s"
    "memory_tracker_preinit s1 = memory_tracker_preinit s"
    by simp_all
  show ?thesis
  proof (cases "memory_statistics cfg")
    case en: True
    with s' k True show ?thesis by (simp add: allocated_counted)
  next
    case False
    with s' k True show ?thesis by (simp add: counted_once_def same_totals_refl)
  qed
qed

lemma memory_track_totals:
  assumes "memory_track cfg addr sz s = Some s'"
  shows "counted_once sz (memory_stats s) (memory_stats s')
         \<and> (\<not> memory_tracker_initialized s \<longrightarrow> memory_stats s' = memory_stats s)
         \<and> memory_tracker_initialized s' = memory_tracker_initialized s
         \<and> memory_tracker s' = memory_tracker s
         \<and> memory_initialized s' = memory_initialized s
         \<and> memory_tracker_preinit s' = memory_tracker_preinit s"
proof (cases "track (memory_tracker s)")
  case None
  with assms have "s' = s" by (simp add: memory_track_def)
  then show ?thesis by (simp add: counted_once_def same_totals_refl)
next
  case (Some f)
  show ?thesis
  proof (cases f)
    case Local_track
    with Some assms have "memory_tracker_track cfg addr sz s = Some s'"
      by (simp add: memory_track_def)
    from tracker_track_totals [OF this] show ?thesis by auto
  next
    case (User_track n)
    with Some assms have "s' = log_event (User_track_call n addr sz) s"
      by (simp add: memory_track_def)
    then show ?thesis by (simp add: log_event_def counted_once_def same_totals_refl)
  qed
qed

lemma tracker_untrack_totals:
  assumes "memory_tracker_untrack cfg addr s = Some s'"
  shows "same_totals (memory_stats s) (memory_stats s')
         \<and> memory_tracker_initialized s' = memory_tracker_initialized s
         \<and> memory_tracker s' = memory_tracker s
         \<and> memory_initialized s' = memory_initialized s
         \<and> memory_tags s' = memory_tags s"
  using assms
  by (auto simp: memory_tracker_untrack_def Let_def released_same same_totals_refl
      split: option.splits if_splits)

lemma memory_untrack_totals:
  assumes "memory_untrack cfg addr s = Some s'"
  shows "same_totals (memory_stats s) (memory_stats s')
         \<and> memory_tracker_initialized s' = memory_tracker_initialized s
         \<and> memory_tracker s' = memory_tracker s
         \<and> memory_initialized s' = memory_initialized s
         \<and> memory_tags s' = memory_tags s"
proof (cases "untrack (memory_tracker s)")
  case None
  with assms have "s' = s" by (simp add: memory_untrack_def)
  then show ?thesis by (simp add: same_totals_refl)
next
  case (Some f)
  show ?thesis
  proof (cases f)
    case Local_untrack
    with Some assms have "memory_tracker_untrack cfg addr s = Some s'"
      by (simp add: memory_untrack_def)
    from tracker_untrack_totals [OF this] show ?thesis .
  next
    case (User_untrack n)
    with Some assms have "s' = log_event (User_untrack_call n addr) s"
      by (simp add: memory_untrack_def)
    then show ?thesis by (simp add: log_event_def same_totals_refl)
  qed
qed

lemma memory_deallocate_totals:
  assumes "memory_deallocate cfg p s = Some s'"
  shows "same_totals (memory_stats s) (memory_stats s')
         \<and> memory_tracker_initialized s' = memory_tracker_initialized s
         \<and> memory_tracker s' = memory_tracker s
         \<and> memory_initialized s' = memory_initialized s
         \<and> memory_tags s' = memory_tags s"
proof -
  let ?s1 = "if p < storage (memory_temporary s) \<or> p \<ge> arena_end (memory_temporary s)
             then s\<lparr>world := sys_deallocate (memory_system s) p (world s)\<rparr> else s"
  from assms have "memory_untrack cfg p ?s1 = Some s'" by (simp add: memory_deallocate_def)
  from memory_untrack_totals [OF this] show ?thesis by (simp split: if_splits)
qed

lemma memory_allocate_totals:
  assumes "memory_allocate cfg ctx sz align hint s = Some (p, s')"
  shows "counted_once sz (memory_stats s) (memory_stats s')
         \<and> (\<not> memory_tracker_initialized s \<longrightarrow> memory_stats s' = memory_stats s)
         \<and> memory_tracker_initialized s' = memory_tracker_initialized s
         \<and> memory_tracker s' = memory_tracker s
         \<and> memory_initialized s' = memory_initialized s
         \<and> memory_tracker_preinit s' = memory_tracker_preinit s"
proof -
  from assms obtain q s1 where
    t: "memory_track cfg q sz s1 = Some s'"
    and k: "memory_stats s1 = memory_stats s"
      "memory_tracker_initialized s1 = memory_tracker_initialized s"
      "memory_tracker s1 = memory_tracker s"
      "memory_initialized s1 = memory_initialized s"
      "memory_tracker_preinit s1 = memory_tracker_preinit s"
    by (auto simp: memory_allocate_def atomic_allocate_linear_def Let_def
        split: if_splits prod.splits)
  from memory_track_totals [OF t] k show ?thesis by simp
qed

lemma memory_reallocate_totals:
  assumes "memory_reallocate cfg p sz align oldsize s = Some (q, s')"
  shows "counted_once sz (memory_stats s) (memory_stats s')"
proof -
  let ?s0 = "if p < storage (memory_temporary s) \<or> p \<ge> arena_end (memory_temporary s) then s
             else log_event (Assert_failed ''Trying to reallocate temporary memory'') s"
  from assms obtain s1 a w where
    u: "memory_untrack cfg p ?s0 = Some s1"
    and t: "memory_track cfg a sz (s1\<lparr>world := w\<rparr>) = Some s'"
    by (auto simp: memory_reallocate_def Let_def split: option.splits prod.splits)
  have "memory_stats ?s0 = memory_stats s" by (simp add: log_event_def)
  with memory_untrack_totals [OF u] have "same_totals (memory_stats s) (memory_stats s1)"
    by simp
  moreover from memory_track_totals [OF t]
  have "counted_once sz (memory_stats s1) (memory_stats s')" by simp
  ultimately show ?thesis by (rule same_counted)
qed

lemma tracker_initialize_totals:
  assumes "memory_tracker_initialize cfg s = Some s'"
  shows "counted_once (tag_table_size cfg) (memory_stats s) (memory_stats s')"
proof (cases "memory_tracker_initialized s")
  case True
  with assms have "s' = s" by (simp add: memory_tracker_initialize_def)
  then show ?thesis by (simp add: counted_once_def same_totals_refl)
next
  case False
  with assms obtain p s1 where
    a: "memory_allocate cfg 0 (tag_table_size cfg) 16
          (MEMORY_PERSISTENT OR MEMORY_ZERO_INITIALIZED) s = Some (p, s1)"
    and st: "memory_stats s' =
               (if memory_statistics cfg
                then stats_allocated (tag_table_size cfg) (memory_stats s1)
                else memory_stats s1)"
    by (auto simp: memory_tracker_initialize_def Let_def split: option.splits)
  from memory_allocate_totals [OF a] False have "memory_stats s1 = memory_stats s" by simp
  with st have "memory_stats s' = stats_allocated (tag_table_size cfg) (memory_stats s)
                \<or> memory_stats s' = memory_stats s"
    by (simp split: if_splits)
  then show ?thesis
    using allocated_counted [of "tag_table_size cfg" "memory_stats s"]
    by (auto simp: same_is_counted same_totals_refl)
qed

lemma tracker_cleanup_totals:
  assumes "memory_tracker_cleanup cfg s = Some s'"
  shows "same_totals (memory_stats s) (memory_stats s')"
proof (cases "memory_tags s \<noteq> 0")
  case False
  with assms have "s' = s\<lparr>memory_tracker_initialized := False\<rparr>"
    by (simp add: memory_tracker_cleanup_def Let_def)
  then show ?thesis by (simp add: same_totals_refl)
next
  case True
  with assms obtain s1 where
    d: "memory_deallocate cfg (memory_tags s) (s\<lparr>memory_tracker_initialized := False\<rparr>) = Some s1"
    and st: "memory_stats s' =
               (if memory_statistics cfg
                then stats_released (tag_table_size cfg) (memory_stats s1)
                else memory_stats s1)"
    by (auto simp: memory_tracker_cleanup_def Let_def split: option.splits)
  from memory_deallocate_totals [OF d] have "same_totals (memory_stats s) (memory_stats s1)"
    by simp
  moreover have "same_totals (memory_stats s1) (memory_stats s')"
    using st by (simp add: released_same same_totals_refl)
  ultimately show ?thesis by (rule same_totals_trans)
qed

lemma leak_scan_keeps:
  "leak_scan cfg it s = Some s' \<Longrightarrow> memory_stats s' = memory_stats s"
proof (induction "memory_tracker_max cfg - it" arbitrary: it s)
  case 0
  then have "\<not> it < memory_tracker_max cfg" by simp
  with "0.prems" show ?case by (simp add: leak_scan.simps [of cfg it s])
next
  case (Suc n)
  then have lt: "it < memory_tracker_max cfg" by simp
  let ?s1 = "if address (memory_tags_data s ! it) \<noteq> 0
             then log_event (Leak (tag_size (memory_tags_data s ! it))
                                  (address (memory_tags_data s ! it)) it) s
             else s"
  from Suc.prems lt have r: "leak_scan cfg (Suc it) ?s1 = Some s'"
    by (simp add: leak_scan.simps [of cfg it s] split: if_splits)
  have n: "n = memory_tracker_max cfg - Suc it" using Suc.hyps(2) by simp
  from Suc.hyps(1) [OF n r] show ?case by (simp add: log_event_def split: if_splits)
qed

lemma tracker_finalize_totals:
  assumes "memory_tracker_finalize cfg s = Some s'"
  shows "same_totals (memory_stats s) (memory_stats s')"
proof -
  let ?s0 = "s\<lparr>memory_tracker_initialized := False\<rparr>"
  from assms obtain s1 where
    sc: "(if memory_tags ?s0 \<noteq> 0 then leak_scan cfg 0 ?s0 else Some ?s0) = Some s1"
    and c: "memory_tracker_cleanup cfg s1 = Some s'"
    by (auto simp: memory_tracker_finalize_def Let_def split: option.splits)
  have "memory_stats s1 = memory_stats s"
  proof (cases "memory_tags ?s0 \<noteq> 0")
    case True
    with sc have "leak_scan cfg 0 ?s0 = Some s1" by simp
    from leak_scan_keeps [OF this] show ?thesis by simp
  next
    case False
    with sc show ?thesis by auto
  qed
  with tracker_cleanup_totals [OF c] show ?thesis by simp
qed

lemma call_void_totals:
  assumes "call_void cfg f s = Some s'"
  shows "same_totals (memory_stats s) (memory_stats s')"
proof (cases f)
  case None
  with assms show ?thesis by (simp add: call_void_def same_totals_refl)
next
  case (Some g)
  show ?thesis
  proof (cases g)
    case Local_cleanup
    with Some assms have "memory_tracker_cleanup cfg s = Some s'" by (simp add: call_void_def)
    then show ?thesis by (rule tracker_cleanup_totals)
  next
    case Local_finalize
    with Some assms have "memory_tracker_finalize cfg s = Some s'" by (simp add: call_void_def)
    then show ?thesis by (rule tracker_finalize_totals)
  next
    case (User_void n)
    with Some assms show ?thesis
      by (auto simp: call_void_def log_event_def same_totals_refl)
  qed
qed

lemma call_initialize_totals:
  assumes "call_initialize cfg f s = Some s'"
  shows "counted_once (tag_table_size cfg) (memory_stats s) (memory_stats s')
         \<and> (f = None \<longrightarrow> memory_stats s' = memory_stats s)"
proof (cases f)
  case None
  with assms show ?thesis
    by (simp add: call_initialize_def counted_once_def same_totals_refl)
next
  case (Some g)
  show ?thesis
  proof (cases g)
    case Local_initialize
    with Some assms have "memory_tracker_initialize cfg s = Some s'"
      by (simp add: call_initialize_def)
    from tracker_initialize_totals [OF this] Some show ?thesis by simp
  next
    case (User_initialize n)
    with Some assms show ?thesis
      by (auto simp: call_initialize_def log_event_def counted_once_def same_totals_refl)
  qed
qed

lemma set_tracker_totals:
  assumes "memory_set_tracker cfg t s = Some s'"
  shows "counted_once (tag_table_size cfg) (memory_stats s) (memory_stats s')
         \<and> (initialize t = None \<longrightarrow> same_totals (memory_stats s) (memory_stats s'))"
proof (cases "track (memory_tracker s) = track t \<and> untrack (memory_tracker s) = untrack t")
  case True
  with assms have "s' = s" by (simp add: memory_set_tracker_def)
  then show ?thesis by (simp add: counted_once_def same_totals_refl)
next
  case False
  with assms obtain s1 s2 where
    a: "call_void cfg (abort (memory_tracker s)) (s\<lparr>memory_tracker := memory_no_tracker\<rparr>) = Some s1"
    and f: "call_void cfg (finalize (memory_tracker s)) s1 = Some s2"
    and r: "(if memory_initialized s2
             then Option.bind (call_initialize cfg (initialize t) s2)
                    (\<lambda>s3. Some (s3\<lparr>memory_tracker := t\<rparr>))
             else Some (s2\<lparr>memory_tracker_preinit := t\<rparr>)) = Some s'"
    by (auto simp: memory_set_tracker_def Let_def bind_eq_Some_conv)
  from call_void_totals [OF a] have "same_totals (memory_stats s) (memory_stats s1)" by simp
  with call_void_totals [OF f] have s2: "same_totals (memory_stats s) (memory_stats s2)"
    by (rule same_totals_trans [rotated])
  show ?thesis
  proof (cases "memory_initialized s2")
    case False
    with r have "memory_stats s' = memory_stats s2" by auto
    with s2 show ?thesis by (simp add: counted_once_def)
  next
    case True
    with r obtain s3 where i: "call_initialize cfg (initialize t) s2 = Some s3"
      and s': "s' = s3\<lparr>memory_tracker := t\<rparr>"
      by (auto simp: bind_eq_Some_conv)
    from call_initialize_totals [OF i] s'
    have c: "counted_once (tag_table_size cfg) (memory_stats s2) (memory_stats s')"
      and n: "initialize t = None \<longrightarrow> memory_stats s' = memory_stats s2"
      by simp_all
    from same_counted [OF s2 c] n s2 show ?thesis by auto
  qed
qed

lemma memory_finalize_totals:
  assumes "memory_finalize cfg s = Some s'"
  shows "same_totals (memory_stats s) (memory_stats s')"
proof -
  from assms obtain s1 s2 s4 where
    f: "call_void cfg (finalize (memory_tracker s))
          (s\<lparr>memory_tracker_preinit := memory_tracker s\<rparr>) = Some s1"
    and a: "atomic_allocate_finalize cfg s1 = Some s2"
    and t: "memory_set_tracker cfg memory_no_tracker
              (case sys_thread_finalize (memory_system s2) of
                 None \<Rightarrow> s2 | Some g \<Rightarrow> s2\<lparr>world := g (world s2)\<rparr>) = Some s4"
    and s': "memory_stats s' = memory_stats s4"
    by (auto simp: memory_finalize_def Let_def bind_eq_Some_conv)
  from call_void_totals [OF f] have 1: "same_totals (memory_stats s) (memory_stats s1)" by simp
  have 2: "same_totals (memory_stats s1) (memory_stats s2)"
  proof (cases "storage (memory_temporary s1) \<noteq> 0")
    case True
    with a have "memory_deallocate cfg (storage (memory_temporary s1))
                   (s1\<lparr>memory_temporary := zero_arena\<rparr>) = Some s2"
      by (simp add: atomic_allocate_finalize_def Let_def)
    from memory_deallocate_totals [OF this] show ?thesis by simp
  next
    case False
    with a show ?thesis by (auto simp: atomic_allocate_finalize_def Let_def same_totals_refl)
  qed
  have "initialize memory_no_tracker = None" by (simp add: memory_no_tracker_def)
  with set_tracker_totals [OF t]
  have 3: "same_totals (memory_stats s2) (memory_stats s4)"
    by (auto split: option.splits)
  from 1 2 3 s' show ?thesis by (simp add: same_totals_def)
qed

lemma run_op_totals:
  assumes "run_op cfg op s = Some s'"
  shows "counted_once (op_bytes cfg op) (memory_stats s) (memory_stats s')"
proof (cases op)
  case (Op_allocate ctx sz align hint)
  with assms obtain p where "memory_allocate cfg ctx sz align hint s = Some (p, s')" by auto
  from memory_allocate_totals [OF this] Op_allocate show ?thesis by simp
next
  case (Op_reallocate p sz align oldsize)
  with assms obtain q where "memory_reallocate cfg p sz align oldsize s = Some (q, s')" by auto
  from memory_reallocate_totals [OF this] Op_reallocate show ?thesis by simp
next
  case (Op_deallocate p)
  with assms memory_deallocate_totals [of cfg p s s'] show ?thesis
    by (simp add: same_is_counted)
next
  case (Op_set_tracker t)
  with assms set_tracker_totals [of cfg t s s'] show ?thesis by simp
next
  case Op_finalize
  with assms memory_finalize_totals [of cfg s s'] show ?thesis by (simp add: same_is_counted)
next
  case (Op_track addr sz)
  with assms tracker_track_totals [of cfg addr sz s s'] show ?thesis by simp
next
  case (Op_untrack addr)
  with assms tracker_untrack_totals [of cfg addr s s'] show ?thesis
    by (simp add: same_is_counted)
next
  case Op_tracker_initialize
  with assms tracker_initialize_totals [of cfg s s'] show ?thesis by simp
next
  case Op_tracker_cleanup
  with assms tracker_cleanup_totals [of cfg s s'] show ?thesis by (simp add: same_is_counted)
next
  case Op_tracker_finalize
  with assms tracker_finalize_totals [of cfg s s'] show ?thesis by (simp add: same_is_counted)
qed

lemma run_ops_totals:
  "run_ops cfg ops s = Some s' \<Longrightarrow> ops_fit cfg ops s \<Longrightarrow>
   0 \<le> allocations_total (memory_stats s) \<Longrightarrow> 0 \<le> allocated_total (memory_stats s) \<Longrightarrow>
   allocations_total (memory_stats s) \<le> allocations_total (memory_stats s')
   \<and> allocated_total (memory_stats s) \<le> allocated_total (memory_stats s')"
proof (induction ops arbitrary: s)
  case Nil
  then show ?case by simp
next
  case (Cons op ops)
  from Cons.prems(1) obtain s1 where
    o: "run_op cfg op s = Some s1" and r: "run_ops cfg ops s1 = Some s'"
    by (auto split: option.splits)
  from Cons.prems(2) o have room: "totals_room (op_bytes cfg op) (memory_stats s)"
    and fit: "ops_fit cfg ops s1"
    by simp_all
  from counted_once_grows [OF run_op_totals [OF o] room]
  have g: "allocations_total (memory_stats s) \<le> allocations_total (memory_stats s1)"
    "allocated_total (memory_stats s) \<le> allocated_total (memory_stats s1)"
    "0 \<le> allocations_total (memory_stats s1)" "0 \<le> allocated_total (memory_stats s1)"
    by simp_all
  from Cons.IH [OF r fit g(3) g(4)] g show ?case by linarith
qed

section \<open>The total counters over runs of operations\<close>

lemma example_track:
  "memory_tracker_track linux64 300 8 (tracking_state empty_table 0)
   = Some ((tracking_state empty_table 0)\<lparr>memory_tag_next := 1,
        memory_tags_data := [\<lparr>address = 300, tag_size = 8\<rparr>, \<lparr>address = 0, tag_size = 0\<rparr>],
        memory_stats := \<lparr>allocations_total = 1, allocations_current = 1,
               allocated_total = 8, allocated_current = 8\<rparr>\<rparr>)"
  by (simp add: memory_tracker_track_def tracking_state_def empty_table_def linux64_def
      size_wrap_def track_loop.simps wrap_tag.simps tracker_max32_def wrap_s32_def tag_valid_def
      Let_def stats_allocated_def zero_stats_def atomic_incr64_def atomic_add64_def
      int64_of_size_def wrap_s64_def)

lemma example_untrack:
  "memory_tracker_untrack linux64 300 ((tracking_state empty_table 0)\<lparr>memory_tag_next := 1,
        memory_tags_data := [\<lparr>address = 300, tag_size = 8\<rparr>, \<lparr>address = 0, tag_size = 0\<rparr>],
        memory_stats := \<lparr>allocations_total = 1, allocations_current = 1,
               allocated_total = 8, allocated_current = 8\<rparr>\<rparr>)
   = Some ((tracking_state empty_table 0)\<lparr>memory_tag_next := 1,
        memory_tags_data := [\<lparr>address = 0, tag_size = 8\<rparr>, \<lparr>address = 0, tag_size = 0\<rparr>],
        memory_stats := \<lparr>allocations_total = 1, allocations_current = 0,
               allocated_total = 8, allocated_current = 0\<rparr>\<rparr>)"
  by (simp add: memory_tracker_untrack_def untrack_lookup_def tracking_state_def empty_table_def
      linux64_def untrack_search.simps tracker_max32_def wrap_s32_def tag_valid_def c_rem_def
      Let_def stats_released_def atomic_decr64_def atomic_add64_def
      int64_of_size_def neg_int64_of_size_def wrap_s64_def)

lemma example_wrapping_allocate:
  "memory_allocate linux64 0 18446744073709551608 0 MEMORY_TEMPORARY tracked_arena_state
   = Some (4104, tracked_arena_state\<lparr>memory_tag_next := 1,
        memory_tags_data := [\<lparr>address = 4104, tag_size = 18446744073709551608\<rparr>,
                             \<lparr>address = 0, tag_size = 0\<rparr>],
        memory_stats := \<lparr>allocations_total = 1, allocations_current = 1,
               allocated_total = - 8, allocated_current = - 8\<rparr>\<rparr>)"
proof -
  have w: "size_wrap linux64 18446744073709551616 = 0" by (simp add: size_wrap_def linux64_def)
  have tr: "memory_tracker_track linux64 4104 18446744073709551608 tracked_arena_state
     = Some (tracked_arena_state\<lparr>memory_tag_next := 1,
        memory_tags_data := [\<lparr>address = 4104, tag_size = 18446744073709551608\<rparr>,
                             \<lparr>address = 0, tag_size = 0\<rparr>],
        memory_stats := \<lparr>allocations_total = 1, allocations_current = 1,
               allocated_total = - 8, allocated_current = - 8\<rparr>\<rparr>)"
    by (simp add: memory_tracker_track_def tracked_arena_state_def arena_state_def empty_table_def
        linux64_def size_wrap_def track_loop.simps wrap_tag.simps tracker_max32_def wrap_s32_def
        tag_valid_def Let_def stats_allocated_def zero_stats_def atomic_incr64_def
        atomic_add64_def int64_of_size_def wrap_s64_def)
  have lin: "atomic_allocate_linear 0 tracked_arena_state = (4104, tracked_arena_state)"
    by (simp add: atomic_allocate_linear_def tracked_arena_state_def arena_state_def Let_def)
  have al: "memory_align_pointer 4104 8 = 4104" by (simp add: memory_align_pointer_def)
  have tk: "track (memory_tracker tracked_arena_state) = Some Local_track"
    by (simp add: tracked_arena_state_def memory_tracker_local_def)
  have st: "storage (memory_temporary tracked_arena_state) = 4096"
    "maxchunk (memory_temporary tracked_arena_state) = 128"
    by (simp_all add: tracked_arena_state_def arena_state_def)
  show ?thesis
    by (simp add: memory_allocate_def forced_align_linux64_zero w lin al st Let_def
        memory_track_def tk tr MEMORY_TEMPORARY_def MEMORY_ZERO_INITIALIZED_def)
qed

text \<open>
  C8: the code lowers \<open>allocated_total\<close>, which the claim says never happens. On a
  64-bit platform with a live arena and the local tracker,
  \<^verbatim>\<open>memory_allocate(0, SIZE_MAX - 7, 0, MEMORY_TEMPORARY)\<close> passes the arena test
  \<^verbatim>\<open>size + tmpalign < maxchunk\<close>, because the sum is taken in \<^verbatim>\<open>size_t\<close> without a check
  and \<open>size + 8\<close> wraps to 0; the request is served from the arena and tracked with its
  size, \<^verbatim>\<open>(int64_t)size\<close> is \<open>-8\<close>, and \<open>allocated_total\<close> goes from 0 to \<open>-8\<close>.
\<close>

theorem allocated_total_decreases:
  "allocated_total (memory_stats tracked_arena_state) = 0
   \<and> map_option (\<lambda>r. allocated_total (memory_stats (snd r)))
        (memory_allocate linux64 0 18446744073709551608 0 MEMORY_TEMPORARY tracked_arena_state)
       = Some (- 8)"
  by (simp add: example_wrapping_allocate)
     (simp add: tracked_arena_state_def arena_state_def zero_stats_def)

text \<open>
  That request apart, the code only ever adds to the two totals. Over every run of the
  module's operations (allocate, reallocate, deallocate, tracker swap, shutdown, and the
  local tracker's track, untrack, initialize, cleanup and finalize) that starts with
  non-negative totals and in which the sizes counted keep both totals below \<open>2 ^ 63\<close>,
  neither \<open>allocations_total\<close> nor \<open>allocated_total\<close> ends below where it started.
\<close>

theorem totals_non_decreasing:
  assumes "run_ops cfg ops s = Some s'" and "ops_fit cfg ops s"
    and "0 \<le> allocations_total (memory_stats s)" and "0 \<le> allocated_total (memory_stats s)"
  shows "allocations_total (memory_stats s) \<le> allocations_total (memory_stats s')
         \<and> allocated_total (memory_stats s) \<le> allocated_total (memory_stats s')"
  using assms by (rule run_ops_totals)

theorem totals_non_decreasing_witness:
  "run_ops linux64 [Op_track 300 8, Op_untrack 300] (tracking_state empty_table 0)
     = Some ((tracking_state empty_table 0)\<lparr>memory_tag_next := 1,
          memory_tags_data := [\<lparr>address = 0, tag_size = 8\<rparr>, \<lparr>address = 0, tag_size = 0\<rparr>],
          memory_stats := \<lparr>allocations_total = 1, allocations_current = 0,
                 allocated_total = 8, allocated_current = 0\<rparr>\<rparr>)
   \<and> ops_fit linux64 [Op_track 300 8, Op_untrack 300] (tracking_state empty_table 0)
   \<and> allocations_total (memory_stats (tracking_state empty_table 0)) = 0
   \<and> allocated_total (memory_stats (tracking_state empty_table 0)) = 0
   \<and> allocations_total (memory_stats (tracking_state empty_table 0)) \<le> 1
   \<and> allocated_total (memory_stats (tracking_state empty_table 0)) \<le> 8"
proof -
  let ?s = "tracking_state empty_table 0"
  let ?ops = "[Op_track 300 8, Op_untrack 300]"
  let ?s' = "?s\<lparr>memory_tag_next := 1,
          memory_tags_data := [\<lparr>address = 0, tag_size = 8\<rparr>, \<lparr>address = 0, tag_size = 0\<rparr>],
          memory_stats := \<lparr>allocations_total = 1, allocations_current = 0,
                 allocated_total = 8, allocated_current = 0\<rparr>\<rparr>"
  have run: "run_ops linux64 ?ops ?s = Some ?s'"
    by (simp add: example_track example_untrack)
  have z: "allocations_total (memory_stats ?s) = 0" "allocated_total (memory_stats ?s) = 0"
    by (simp_all add: tracking_state_def zero_stats_def)
  have fit: "ops_fit linux64 ?ops ?s"
    by (simp add: example_track example_untrack totals_room_def z)
  have n: "0 \<le> allocations_total (memory_stats ?s)" "0 \<le> allocated_total (memory_stats ?s)"
    using z by simp_all
  from totals_non_decreasing [OF run fit n] run fit z show ?thesis by simp
qed

section \<open>Swapping the tracker\<close>

lemma arena_initialize_keeps:
  assumes "atomic_allocate_initialize cfg s = Some s'"
  shows "memory_tracker s' = memory_tracker s
         \<and> memory_tracker_preinit s' = memory_tracker_preinit s
         \<and> memory_initialized s' = memory_initialized s"
proof (cases "temporary_memory cfg = 0")
  case True
  with assms show ?thesis by (auto simp: atomic_allocate_initialize_def Let_def)
next
  case False
  with assms obtain p s1 where
    a: "memory_allocate cfg 0 (temporary_memory cfg) 16 MEMORY_PERSISTENT s = Some (p, s1)"
    and s': "s' = s1\<lparr>memory_temporary :=
                      \<lparr>storage = p, arena_end = p + temporary_memory cfg, head = p + 8,
                       arena_size = temporary_memory cfg,
                       maxchunk = temporary_memory cfg div 8\<rparr>\<rparr>"
    by (auto simp: atomic_allocate_initialize_def Let_def split: option.splits)
  from memory_allocate_totals [OF a] s' show ?thesis by simp
qed

lemma latched_tracker_installed:
  assumes ini: "memory_initialize cfg sys s = Some (0::int, s')"
    and none: "memory_tracker s = memory_no_tracker"
    and slot: "initialize (memory_tracker_preinit s) \<noteq> None"
    and hook: "track (memory_tracker_preinit s) \<noteq> None \<or> untrack (memory_tracker_preinit s) \<noteq> None"
  shows "memory_tracker s' = memory_tracker_preinit s"
proof -
  let ?s1 = "s\<lparr>memory_system := sys, memory_stats := zero_stats\<rparr>"
  obtain r w where sw: "sys_initialize sys (world s) = (r, w)" by (cases "sys_initialize sys (world s)")
  let ?s2 = "?s1\<lparr>world := w\<rparr>"
  have r0: "r = 0"
  proof (rule ccontr)
    assume "r \<noteq> 0"
    with ini sw show False by (simp add: memory_initialize_def Let_def)
  qed
  with ini sw have
    "Option.bind (atomic_allocate_initialize cfg (?s2\<lparr>memory_initialized := True\<rparr>))
       (\<lambda>s3. if initialize (memory_tracker_preinit s3) \<noteq> None
              then map_option (Pair (0::int)) (memory_set_tracker cfg (memory_tracker_preinit s3) s3)
              else Some (0::int, s3)) = Some (0::int, s')"
    by (simp add: memory_initialize_def Let_def)
  then obtain s3 where
    a: "atomic_allocate_initialize cfg (?s2\<lparr>memory_initialized := True\<rparr>) = Some s3"
    and rest: "(if initialize (memory_tracker_preinit s3) \<noteq> None
                then map_option (Pair (0::int)) (memory_set_tracker cfg (memory_tracker_preinit s3) s3)
                else Some (0::int, s3)) = Some (0::int, s')"
    unfolding bind_eq_Some_conv by blast
  from arena_initialize_keeps [OF a] none
  have k: "memory_tracker s3 = memory_no_tracker"
    "memory_tracker_preinit s3 = memory_tracker_preinit s" "memory_initialized s3"
    by simp_all
  from rest slot k have st: "memory_set_tracker cfg (memory_tracker_preinit s) s3 = Some s'"
    by auto
  have differ: "\<not> (track (memory_tracker s3) = track (memory_tracker_preinit s)
                  \<and> untrack (memory_tracker s3) = untrack (memory_tracker_preinit s))"
    using hook k(1) by (auto simp: memory_no_tracker_def)
  have v: "call_void cfg None x = Some x" for x by (simp add: call_void_def)
  from st differ k obtain s4 where "s' = s4\<lparr>memory_tracker := memory_tracker_preinit s\<rparr>"
    by (auto simp: memory_set_tracker_def Let_def memory_no_tracker_def v bind_eq_Some_conv)
  then show ?thesis by simp
qed

text \<open>
  C4, as stated, fails: with the local tracker installed and the subsystem initialized,
  a tracker that differs from it (it has no finalize function) but has the same track
  and untrack functions is not installed: the call is a no-op.
\<close>

theorem set_tracker_identity_counterexample:
  "memory_tracker_local\<lparr>finalize := None\<rparr> \<noteq> memory_tracker (tracking_state empty_table 0)
   \<and> memory_initialized (tracking_state empty_table 0)
   \<and> memory_set_tracker linux64 (memory_tracker_local\<lparr>finalize := None\<rparr>)
        (tracking_state empty_table 0) = Some (tracking_state empty_table 0)
   \<and> memory_tracker (tracking_state empty_table 0) = memory_tracker_local"
  by (simp add: memory_set_tracker_def tracking_state_def memory_tracker_local_def)

text \<open>
  C4, amended: for every call \<^verbatim>\<open>memory_set_tracker(new)\<close>: if the track and untrack
  slots of \<open>new\<close> equal those of the installed tracker (no other slot is compared), the
  call is a no-op; otherwise the no-op tracker is installed first, then the old
  tracker's abort is called (if it has one), then the old tracker's finalize (if it has
  one); then, if the memory subsystem is initialized, the new tracker's initialize is
  called (if it has one) and the new tracker is installed, else the new tracker is
  latched into the pre-init slot. A successful subsystem initialization installs a
  latched tracker that has an initialize slot and a track or an untrack hook.
\<close>

theorem set_tracker_sequence:
  "(track (memory_tracker s) = track new \<and> untrack (memory_tracker s) = untrack new \<longrightarrow>
      memory_set_tracker cfg new s = Some s)
   \<and> (\<not> (track (memory_tracker s) = track new \<and> untrack (memory_tracker s) = untrack new) \<longrightarrow>
        memory_set_tracker cfg new s =
          Option.bind (call_void cfg (abort (memory_tracker s))
                         (s\<lparr>memory_tracker := memory_no_tracker\<rparr>))
            (\<lambda>s1. Option.bind (call_void cfg (finalize (memory_tracker s)) s1)
              (\<lambda>s2. if memory_initialized s2
                     then Option.bind (call_initialize cfg (initialize new) s2)
                            (\<lambda>s3. Some (s3\<lparr>memory_tracker := new\<rparr>))
                     else Some (s2\<lparr>memory_tracker_preinit := new\<rparr>))))
   \<and> (\<forall>sys s0 s'. memory_tracker s0 = memory_no_tracker \<and> memory_tracker_preinit s0 = new
          \<and> initialize new \<noteq> None \<and> (track new \<noteq> None \<or> untrack new \<noteq> None)
          \<and> memory_initialize cfg sys s0 = Some (0, s')
        \<longrightarrow> memory_tracker s' = new)"
proof (intro conjI)
  show "track (memory_tracker s) = track new \<and> untrack (memory_tracker s) = untrack new \<longrightarrow>
          memory_set_tracker cfg new s = Some s"
    by (simp add: memory_set_tracker_def)
  show "\<not> (track (memory_tracker s) = track new \<and> untrack (memory_tracker s) = untrack new) \<longrightarrow>
        memory_set_tracker cfg new s =
          Option.bind (call_void cfg (abort (memory_tracker s))
                         (s\<lparr>memory_tracker := memory_no_tracker\<rparr>))
            (\<lambda>s1. Option.bind (call_void cfg (finalize (memory_tracker s)) s1)
              (\<lambda>s2. if memory_initialized s2
                     then Option.bind (call_initialize cfg (initialize new) s2)
                            (\<lambda>s3. Some (s3\<lparr>memory_tracker := new\<rparr>))
                     else Some (s2\<lparr>memory_tracker_preinit := new\<rparr>)))"
    by (simp add: memory_set_tracker_def Let_def)
  show "\<forall>sys s0 s'. memory_tracker s0 = memory_no_tracker \<and> memory_tracker_preinit s0 = new
          \<and> initialize new \<noteq> None \<and> (track new \<noteq> None \<or> untrack new \<noteq> None)
          \<and> memory_initialize cfg sys s0 = Some (0, s')
        \<longrightarrow> memory_tracker s' = new"
    using latched_tracker_installed [of cfg] by blast
qed

theorem set_tracker_sequence_witness:
  "memory_set_tracker linux64 (host_tracker 2) (arena_state\<lparr>memory_tracker := host_tracker 1\<rparr>)
     = Some (arena_state\<lparr>memory_tracker := host_tracker 2,
               world := \<lparr>heap = (\<lambda>a. 1),
                         events = [User_void_call 11, User_void_call 12, User_initialize_call 2]\<rparr>\<rparr>)
   \<and> memory_set_tracker linux64 (host_tracker 1) (arena_state\<lparr>memory_tracker := host_tracker 1\<rparr>)
     = Some (arena_state\<lparr>memory_tracker := host_tracker 1\<rparr>)
   \<and> memory_set_tracker linux64 (host_tracker 2)
        (initial_state (fixed_system 4096) \<lparr>heap = (\<lambda>a. 0), events = []\<rparr>)
     = Some ((initial_state (fixed_system 4096) \<lparr>heap = (\<lambda>a. 0), events = []\<rparr>)
               \<lparr>memory_tracker_preinit := host_tracker 2\<rparr>)
   \<and> (\<exists>s'. memory_initialize linux64 (fixed_system 4096)
               ((initial_state (fixed_system 4096) \<lparr>heap = (\<lambda>a. 0), events = []\<rparr>)
                  \<lparr>memory_tracker_preinit := host_tracker 2\<rparr>) = Some (0, s')
          \<and> memory_tracker s' = host_tracker 2)"
proof -
  let ?old = "arena_state\<lparr>memory_tracker := host_tracker 1\<rparr>"
  let ?init = "initial_state (fixed_system 4096) \<lparr>heap = (\<lambda>a. 0), events = []\<rparr>"
  let ?latched = "?init\<lparr>memory_tracker_preinit := host_tracker 2\<rparr>"
  have differ: "\<not> (track (memory_tracker ?old) = track (host_tracker 2)
                   \<and> untrack (memory_tracker ?old) = untrack (host_tracker 2))"
    by (simp add: host_tracker_def)
  from set_tracker_sequence [of ?old "host_tracker 2" linux64] differ
  have swap: "memory_set_tracker linux64 (host_tracker 2) ?old
     = Some (arena_state\<lparr>memory_tracker := host_tracker 2,
               world := \<lparr>heap = (\<lambda>a. 1),
                         events = [User_void_call 11, User_void_call 12, User_initialize_call 2]\<rparr>\<rparr>)"
    by (simp add: host_tracker_def call_void_def call_initialize_def log_event_def
        arena_state_def)
  from set_tracker_sequence [of ?old "host_tracker 1" linux64]
  have same: "memory_set_tracker linux64 (host_tracker 1) ?old = Some ?old"
    by simp
  have differ0: "\<not> (track (memory_tracker ?init) = track (host_tracker 2)
                    \<and> untrack (memory_tracker ?init) = untrack (host_tracker 2))"
    by (simp add: host_tracker_def initial_state_def memory_no_tracker_def)
  from set_tracker_sequence [of ?init "host_tracker 2" linux64] differ0
  have latch: "memory_set_tracker linux64 (host_tracker 2) ?init = Some ?latched"
    by (simp add: call_void_def initial_state_def memory_no_tracker_def)
  have tm: "temporary_memory linux64 = 1024" by (simp add: linux64_def)
  have si: "sys_initialize (fixed_system 4096) w = (0, w)" for w
    by (simp add: fixed_system_def failing_system_def)
  have "\<exists>s'. memory_initialize linux64 (fixed_system 4096) ?latched = Some (0, s')"
    by (simp add: memory_initialize_def si Let_def atomic_allocate_initialize_def tm
        memory_allocate_def zero_arena_def fixed_system_def failing_system_def memory_track_def
        memory_set_tracker_def host_tracker_def initial_state_def memory_no_tracker_def
        call_void_def call_initialize_def log_event_def)
  then obtain s' where ini: "memory_initialize linux64 (fixed_system 4096) ?latched = Some (0, s')"
    by blast
  have pre: "memory_tracker ?latched = memory_no_tracker \<and> memory_tracker_preinit ?latched = host_tracker 2
             \<and> initialize (host_tracker 2) \<noteq> None
             \<and> (track (host_tracker 2) \<noteq> None \<or> untrack (host_tracker 2) \<noteq> None)"
    by (simp add: initial_state_def host_tracker_def)
  from set_tracker_sequence [of ?latched "host_tracker 2" linux64] pre ini
  have "memory_tracker s' = host_tracker 2" by blast
  with ini swap same latch show ?thesis by blast
qed

section \<open>A request whose size wraps around\<close>

lemma arena_at_start: "arena_state = arena_at 4104"
  by (simp add: arena_at_def arena_state_def)

lemma arena_at_step:
  assumes "h + 127 \<le> 5120" and "h \<noteq> 0"
  shows "memory_allocate linux64 0 119 0 MEMORY_TEMPORARY (arena_at h)
           = Some (memory_align_pointer h 8, arena_at (h + 127))"
proof -
  have w: "size_wrap linux64 127 = 127" by (simp add: size_wrap_def linux64_def)
  have lin: "atomic_allocate_linear 127 (arena_at h) = (h, arena_at (h + 127))"
    using assms by (simp add: atomic_allocate_linear_def arena_at_def Let_def)
  have al: "memory_align_pointer h 8 \<noteq> 0"
    using assms(2) align_pointer_bounds [of 8 h] by auto
  have tr: "memory_track linux64 p 119 (arena_at k) = Some (arena_at k)" for p k
    by (simp add: memory_track_def arena_at_def arena_state_def memory_no_tracker_def)
  have st: "storage (memory_temporary (arena_at h)) = 4096"
    "maxchunk (memory_temporary (arena_at h)) = 128"
    by (simp_all add: arena_at_def)
  show ?thesis
    using al
    by (simp add: memory_allocate_def forced_align_linux64_zero w lin st Let_def tr
        MEMORY_TEMPORARY_def MEMORY_ZERO_INITIALIZED_def)
qed

lemma arena_at_overflow:
  "memory_allocate linux64 0 18446744073709551608 0 MEMORY_TEMPORARY (arena_at 5120)
     = Some (5120, arena_at 5120)"
proof -
  have w: "size_wrap linux64 18446744073709551616 = 0" by (simp add: size_wrap_def linux64_def)
  have lin: "atomic_allocate_linear 0 (arena_at 5120) = (5120, arena_at 5120)"
    by (simp add: atomic_allocate_linear_def arena_at_def Let_def)
  have al: "memory_align_pointer 5120 8 = 5120" by (simp add: memory_align_pointer_def)
  have tr: "memory_track linux64 p n (arena_at k) = Some (arena_at k)" for p n k
    by (simp add: memory_track_def arena_at_def arena_state_def memory_no_tracker_def)
  have st: "storage (memory_temporary (arena_at 5120)) = 4096"
    "maxchunk (memory_temporary (arena_at 5120)) = 128"
    by (simp_all add: arena_at_def)
  show ?thesis
    by (simp add: memory_allocate_def forced_align_linux64_zero w lin al st Let_def tr
        MEMORY_TEMPORARY_def MEMORY_ZERO_INITIALIZED_def)
qed

lemma arena_at_wrap:
  "memory_allocate linux64 0 119 0 MEMORY_TEMPORARY (arena_at 5120) = Some (4104, arena_at 4231)"
proof -
  have w: "size_wrap linux64 127 = 127" by (simp add: size_wrap_def linux64_def)
  have lin: "atomic_allocate_linear 127 (arena_at 5120) = (4104, arena_at 4231)"
    by (simp add: atomic_allocate_linear_def arena_at_def Let_def)
  have al: "memory_align_pointer 4104 8 = 4104" by (simp add: memory_align_pointer_def)
  have tr: "memory_track linux64 p 119 (arena_at k) = Some (arena_at k)" for p k
    by (simp add: memory_track_def arena_at_def arena_state_def memory_no_tracker_def)
  have st: "storage (memory_temporary (arena_at 5120)) = 4096"
    "maxchunk (memory_temporary (arena_at 5120)) = 128"
    by (simp_all add: arena_at_def)
  show ?thesis
    by (simp add: memory_allocate_def forced_align_linux64_zero w lin al st Let_def tr
        MEMORY_TEMPORARY_def MEMORY_ZERO_INITIALIZED_def)
qed

text \<open>
  C7, as stated, fails, whichever allocations count as arena-path. In the arena of 1024
  bytes at 4096 (\<open>maxchunk = 128\<close>): sixteen TEMPORARY requests of 119 bytes (127
  bytes each with the forced alignment, 2032 bytes in all, wrapping once) bring the head
  to \<open>end = 5120\<close>; a further TEMPORARY request of \<open>SIZE_MAX - 7\<close> bytes passes the
  arena test, because \<open>size + 8\<close> wraps to 0, and is served from the arena with the
  pointer \<open>end\<close> itself, which is not within \<open>[storage, end)\<close>. And a TEMPORARY
  request of 120 bytes, whose size plus forced alignment equals \<open>maxchunk\<close>, is not
  served from the arena at all but by the back end, at 70000.
\<close>

theorem arena_overflow_counterexample:
  "map_option fst
     (allocate_all linux64
        [small_request, small_request, small_request, small_request,
         small_request, small_request, small_request, small_request,
         small_request, small_request, small_request, small_request,
         small_request, small_request, small_request, small_request,
         huge_request]
        arena_state)
     = Some [4104, 4232, 4360, 4488, 4616, 4744, 4872, 5000,
             4104, 4232, 4360, 4488, 4616, 4744, 4872, 5000, 5120]
   \<and> arena_end (memory_temporary arena_state) = 5120
   \<and> map_option fst (allocate_all linux64 [(0, 120, 0, MEMORY_TEMPORARY)] arena_state)
       = Some [70000]"
proof -
  have a: "memory_align_pointer 4104 8 = 4104" "memory_align_pointer 4231 8 = 4232"
    "memory_align_pointer 4358 8 = 4360" "memory_align_pointer 4485 8 = 4488"
    "memory_align_pointer 4612 8 = 4616" "memory_align_pointer 4739 8 = 4744"
    "memory_align_pointer 4866 8 = 4872" "memory_align_pointer 4993 8 = 5000"
    by (simp_all add: memory_align_pointer_def)
  have e: "arena_end (memory_temporary arena_state) = 5120" by (simp add: arena_state_def)
  have b: "map_option fst (allocate_all linux64 [(0, 120, 0, MEMORY_TEMPORARY)] arena_state)
             = Some [70000]"
    by (simp add: example_boundary_allocate)
  have "map_option fst
     (allocate_all linux64
        [small_request, small_request, small_request, small_request,
         small_request, small_request, small_request, small_request,
         small_request, small_request, small_request, small_request,
         small_request, small_request, small_request, small_request,
         huge_request]
        arena_state)
     = Some [4104, 4232, 4360, 4488, 4616, 4744, 4872, 5000,
             4104, 4232, 4360, 4488, 4616, 4744, 4872, 5000, 5120]"
    unfolding arena_at_start small_request_def huge_request_def
    by (simp add: arena_at_step arena_at_wrap arena_at_overflow a)
  with e b show ?thesis by simp
qed

end
